(* ===== verification/Prelude.thy ===== *)
theory Prelude
  imports Main "HOL-Library.Word" "HOL-Library.Multiset" "HOL-Library.Finite_Map"
    "HOL-Library.Char_ord" "HOL-Library.List_Lexorder" "HOL-Library.Sublist"
begin

text \<open>
  The vocabulary every component of the model shares: Go's byte strings, fixed-width
  integers, errors as values, the range loop over a Go map, and the length-prefix encoding
  that \<open>core/block.go\<close>, \<open>storage/statedb.go\<close> and \<open>network/peer.go\<close> all use.
\<close>

section \<open>Types of the model\<close>

text \<open>A Go \<open>string\<close> and a Go \<open>[]byte\<close> are both sequences of bytes.\<close>

type_synonym bytes = string
type_synonym uint64 = "64 word"

text \<open>
  An \<open>int64\<close> is an \<open>int\<close> in \<open>[-2^63, 2^63)\<close>; every addition and subtraction of the source is
  wrapped by \<open>wrap64\<close>.
\<close>

type_synonym int64 = int

named_theorems go_simps \<open>rewrite rules for the Go run-time vocabulary\<close>
named_theorems bytes_inj \<open>injectivity of byte encodings\<close>

definition wrap64 :: "int \<Rightarrow> int64" where
  "wrap64 x = (x + 2 ^ 63) mod 2 ^ 64 - 2 ^ 63"

definition in_int64 :: "int \<Rightarrow> bool" where
  "in_int64 x \<longleftrightarrow> - (2 ^ 63) \<le> x \<and> x < 2 ^ 63"

lemma wrap64_id [go_simps]: "in_int64 x \<Longrightarrow> wrap64 x = x"
  by (simp add: wrap64_def in_int64_def mod_pos_pos_trivial)

lemma wrap64_range: "in_int64 (wrap64 x)"
  by (auto simp: wrap64_def in_int64_def
      intro: less_le_trans [OF pos_mod_bound] pos_mod_sign)

text \<open>Go's \<open>%\<close> truncates towards zero: the result has the sign of the dividend.\<close>

definition go_rem :: "int \<Rightarrow> int \<Rightarrow> int" where
  "go_rem a b = sgn a * (\<bar>a\<bar> mod \<bar>b\<bar>)"

lemma go_rem_nonneg [go_simps]: "0 \<le> a \<Longrightarrow> 0 < b \<Longrightarrow> go_rem a b = a mod b"
  by (cases "a = 0") (auto simp: go_rem_def)

definition max_uint64 :: uint64 where
  "max_uint64 = - 1"

section \<open>Errors as values\<close>

text \<open>
  \<open>ErrNotFound\<close> is \<open>core.ErrNotFound\<close>; \<open>Errorf\<close> is a fresh error (its constant text);
  \<open>Wrapf\<close> is \<open>fmt.Errorf("...: %w", err)\<close>; \<open>DBError\<close> is any other failure the database
  driver reports; \<open>JSONError\<close> is a failure of \<open>encoding/json\<close>.
\<close>

datatype error =
    ErrNotFound
  | Errorf string
  | Wrapf string error
  | DBError string
  | JSONError

type_synonym 'a result = "error + 'a"

text \<open>\<open>errors.Is(err, core.ErrNotFound)\<close> unwraps.\<close>

fun is_not_found :: "error \<Rightarrow> bool" where
  "is_not_found ErrNotFound = True"
| "is_not_found (Wrapf _ e) = is_not_found e"
| "is_not_found _ = False"

definition is_ok :: "'a result \<Rightarrow> bool" where
  "is_ok r \<longleftrightarrow> (case r of Inl _ \<Rightarrow> False | Inr _ \<Rightarrow> True)"

lemma is_ok_simps [simp]: "is_ok (Inr x)" "\<not> is_ok (Inl e)"
  by (simp_all add: is_ok_def)

lemma is_ok_iff: "is_ok r \<longleftrightarrow> (\<exists>x. r = Inr x)"
  by (cases r) auto

definition bind_result :: "'a result \<Rightarrow> ('a \<Rightarrow> 'b result) \<Rightarrow> 'b result" where
  "bind_result r f = (case r of Inl e \<Rightarrow> Inl e | Inr x \<Rightarrow> f x)"

lemma bind_result_simps [simp]:
  "bind_result (Inr x) f = f x"
  "bind_result (Inl e) f = Inl e"
  by (simp_all add: bind_result_def)

lemma bind_result_Inr: "bind_result r f = Inr y \<longleftrightarrow> (\<exists>x. r = Inr x \<and> f x = Inr y)"
  by (cases r) auto

definition map_result :: "('a \<Rightarrow> 'b) \<Rightarrow> 'a result \<Rightarrow> 'b result" where
  "map_result f r = (case r of Inl e \<Rightarrow> Inl e | Inr x \<Rightarrow> Inr (f x))"

lemma map_result_simps [simp]:
  "map_result f (Inr x) = Inr (f x)"
  "map_result f (Inl e) = Inl e"
  by (simp_all add: map_result_def)

lemma map_result_Inr: "map_result f r = Inr y \<longleftrightarrow> (\<exists>x. r = Inr x \<and> y = f x)"
  by (cases r) auto

section \<open>Machine arithmetic of balances\<close>

text \<open>The guard \<open>x > math.MaxUint64 - y\<close> of the source, and what passing it gives.\<close>

lemma add_guard_unat [go_simps]:
  fixes x y :: uint64
  assumes "\<not> x > max_uint64 - y"
  shows "unat (x + y) = unat x + unat y"
proof -
  have "unat (max_uint64 - y) = unat max_uint64 - unat y"
    by (simp add: max_uint64_def unat_sub)
  moreover have "unat max_uint64 = 2 ^ 64 - 1"
    by (simp add: max_uint64_def unsigned_minus_1_eq_mask mask_eq_exp_minus_1)
  moreover have "unat y < 2 ^ 64" "unat x \<le> unat (max_uint64 - y)"
    using assms unsigned_less [of y] by (auto simp: word_le_nat_alt not_less)
  ultimately have "unat x + unat y < 2 ^ LENGTH(64)"
    by simp
  then show ?thesis
    by (simp add: unat_add_lem [symmetric])
qed

lemma sub_guard_unat [go_simps]:
  fixes x y :: uint64
  assumes "\<not> x < y"
  shows "unat (x - y) = unat x - unat y" and "unat y \<le> unat x"
  using assms by (auto simp: unat_sub word_le_nat_alt not_less)

section \<open>Big-endian length prefixes\<close>

text \<open>\<open>binary.BigEndian.PutUint32(buf, uint32(n))\<close>: the four bytes of \<open>n\<close> modulo \<open>2^32\<close>.\<close>

definition be32 :: "nat \<Rightarrow> bytes" where
  "be32 n = [char_of (n div 2 ^ 24 mod 256), char_of (n div 2 ^ 16 mod 256),
             char_of (n div 2 ^ 8 mod 256), char_of (n mod 256)]"

text \<open>\<open>binary.BigEndian.Uint32\<close> of four bytes.\<close>

definition from_be32 :: "bytes \<Rightarrow> nat" where
  "from_be32 bs = foldl (\<lambda>a c. a * 256 + of_char c) 0 bs"

lemma length_be32 [simp]: "length (be32 n) = 4"
  by (simp add: be32_def)

lemma from_be32_be32:
  assumes "n < 2 ^ 32"
  shows "from_be32 (be32 n) = n"
proof -
  have step: "m div 256 * 256 + m mod 256 = m" for m :: nat
    by simp
  have "n div 2 ^ 24 mod 256 = n div 2 ^ 24"
    using assms by (simp add: div_less_iff_less_mult)
  then have "n div 2 ^ 24 mod 256 * 256 + n div 2 ^ 16 mod 256 = n div 2 ^ 16"
    using step [of "n div 2 ^ 16"] by (simp add: div_mult2_eq [symmetric])
  then have e: "(n div 2 ^ 24 mod 256 * 256 + n div 2 ^ 16 mod 256) * 256 + n div 2 ^ 8 mod 256
      = n div 256"
    using step [of "n div 2 ^ 8"] by (simp add: div_mult2_eq [symmetric])
  have "((n div 2 ^ 24 mod 256 * 256 + n div 2 ^ 16 mod 256) * 256 + n div 2 ^ 8 mod 256) * 256
      + n mod 256 = n"
    unfolding e by (rule step)
  moreover have "from_be32 (be32 n) =
      ((n div 2 ^ 24 mod 256 * 256 + n div 2 ^ 16 mod 256) * 256 + n div 2 ^ 8 mod 256) * 256
      + n mod 256"
    by (simp only: from_be32_def be32_def foldl.simps of_char_of mod_mod_trivial mult_0 add_0)
  ultimately show ?thesis by (simp only:)
qed

lemma be32_inject:
  assumes "m < 2 ^ 32" "n < 2 ^ 32" "be32 m = be32 n"
  shows "m = n"
  using from_be32_be32 [OF assms(1)] from_be32_be32 [OF assms(2)] assms(3) by metis

text \<open>Lengths that a \<open>uint32\<close> prefix represents without wrapping.\<close>

definition fits32 :: "bytes \<Rightarrow> bool" where
  "fits32 s \<longleftrightarrow> length s < 2 ^ 32"

definition len_prefix :: "bytes \<Rightarrow> bytes" where
  "len_prefix s = be32 (length s) @ s"

lemma len_prefix_append_inject [bytes_inj]:
  assumes "fits32 s" "fits32 t" "len_prefix s @ xs = len_prefix t @ ys"
  shows "s = t \<and> xs = ys"
proof -
  from assms(3) have "be32 (length s) @ (s @ xs) = be32 (length t) @ (t @ ys)"
    by (simp only: len_prefix_def append_assoc)
  then have eq: "be32 (length s) = be32 (length t) \<and> s @ xs = t @ ys"
    by (subst (asm) append_eq_append_conv) (simp_all only: length_be32 simp_thms)
  with be32_inject [OF assms(1,2) [unfolded fits32_def]] have "length s = length t" by blast
  with eq show ?thesis using append_eq_append_conv by blast
qed

lemma len_prefix_not_Nil [simp]: "len_prefix s \<noteq> []"
  by (simp add: len_prefix_def be32_def)

lemma concat_len_prefix_inject [bytes_inj]:
  assumes "\<forall>s\<in>set ss. fits32 s" "\<forall>t\<in>set ts. fits32 t"
    and "concat (map len_prefix ss) = concat (map len_prefix ts)"
  shows "ss = ts"
  using assms
proof (induction ss arbitrary: ts)
  case Nil
  then show ?case by (cases ts) auto
next
  case (Cons s ss)
  from Cons.prems(3) obtain t ts' where ts: "ts = t # ts'"
    by (cases ts) simp_all
  with Cons.prems have "s = t \<and> concat (map len_prefix ss) = concat (map len_prefix ts')"
    by (intro len_prefix_append_inject) simp_all
  moreover from this have "ss = ts'"
    using Cons.prems ts by (intro Cons.IH) simp_all
  ultimately show ?case by (simp add: ts)
qed

section \<open>Ranging over a Go map\<close>

text \<open>
  A Go \<open>map[string]V\<close> is a finite map. \<open>for k, v := range m\<close> visits every entry once, in an
  order the run time chooses. The model takes that choice as a function \<open>ord\<close> from the list of
  keys to the order they are visited in; a list that is not a permutation of the keys is not a
  choice and stands for the sorted order. A theorem for every \<open>ord\<close> holds for every order.
\<close>

type_synonym 'v gomap = "(bytes, 'v) fmap"

definition pick_order :: "(bytes list \<Rightarrow> bytes list) \<Rightarrow> bytes list \<Rightarrow> bytes list" where
  "pick_order ord ks = (if mset (ord ks) = mset ks then ord ks else ks)"

definition range_map :: "(bytes list \<Rightarrow> bytes list) \<Rightarrow> 'v gomap \<Rightarrow> (bytes \<times> 'v) list" where
  "range_map ord m = map (\<lambda>k. (k, the (fmlookup m k))) (pick_order ord (sorted_list_of_fset (fmdom m)))"

lemma mset_pick_order [simp]: "mset (pick_order ord ks) = mset ks"
  by (simp add: pick_order_def)

lemma set_pick_order [simp]: "set (pick_order ord ks) = set ks"
  by (metis mset_pick_order mset_eq_setD)

lemma distinct_pick_order [simp]: "distinct (pick_order ord ks) = distinct ks"
  by (metis mset_pick_order mset_eq_imp_distinct_iff)

lemma pick_order_id [simp]: "pick_order id ks = ks" "pick_order (\<lambda>ks. ks) ks = ks"
  by (simp_all add: pick_order_def)

lemma set_range_map: "(k, v) \<in> set (range_map ord m) \<longleftrightarrow> fmlookup m k = Some v"
  by (auto simp: range_map_def fmlookup_dom_iff)

lemma fst_range_map: "fst ` set (range_map ord m) = fset (fmdom m)"
  by (auto simp: range_map_def image_image)

lemma distinct_range_map: "distinct (map fst (range_map ord m))"
  by (simp add: range_map_def comp_def sorted_list_of_fset.rep_eq)

lemma mset_range_map: "mset (range_map ord m) = mset (range_map id m)"
  by (simp add: range_map_def)

lemma map_of_range_map: "map_of (range_map ord m) = fmlookup m"
proof
  fix k
  show "map_of (range_map ord m) k = fmlookup m k"
  proof (cases "fmlookup m k")
    case None
    then show ?thesis
      by (simp add: map_of_eq_None_iff fst_range_map fmlookup_dom_iff fmdom_notI)
  next
    case (Some v)
    then have "(k, v) \<in> set (range_map ord m)"
      by (simp add: set_range_map)
    with Some show ?thesis
      by (simp add: map_of_is_SomeI distinct_range_map)
  qed
qed

text \<open>A loop whose steps commute does not depend on the order of the range.\<close>

lemma fold_range_map_perm:
  assumes "\<And>x y. f x \<circ> f y = f y \<circ> f x"
  shows "fold f (range_map ord m) = fold f (range_map ord' m)"
proof (rule fold_multiset_equiv)
  show "mset (range_map ord m) = mset (range_map ord' m)"
    using mset_range_map by metis
qed (rule assms)

lemma sum_list_range_map:
  fixes f :: "bytes \<times> 'v \<Rightarrow> nat"
  shows "sum_list (map f (range_map ord m)) = sum_list (map f (range_map ord' m))"
proof -
  have "mset (map f (range_map ord m)) = mset (map f (range_map ord' m))"
    by (simp add: mset_range_map [of ord] mset_range_map [of ord'])
  then show ?thesis by (metis sum_mset_sum_list)
qed

end
