(* ===== verification/Json.thy ===== *)
theory Json
  imports Prelude
begin

text \<open>
  The part of Go's \<open>encoding/json\<close> the program uses, at the level of bytes: the syntax tree of a
  JSON text, the scanner and the compact printer. A string node keeps the bytes between its
  quotes as they are in the text (escapes undecoded) and a number node keeps its literal, so a
  tree determines its text up to white space. \<open>json.RawMessage\<close> is such a tree: the program
  only ever compacts it (\<open>json.Marshal\<close>) or decodes it (\<open>json.Unmarshal\<close>), and neither sees
  white space.
\<close>

section \<open>Syntax trees and their text\<close>

datatype json =
    JNull
  | JBool bool
  | JNum bytes
  | JStr bytes
  | JArr "json list"
  | JObj "(bytes \<times> json) list"

abbreviation dquote :: char where
  "dquote \<equiv> CHR 0x22"

abbreviation bslash :: char where
  "bslash \<equiv> CHR 0x5C"

fun print_json :: "json \<Rightarrow> bytes"
  and print_elems :: "json list \<Rightarrow> bytes"
  and print_members :: "(bytes \<times> json) list \<Rightarrow> bytes" where
  "print_json JNull = ''null''"
| "print_json (JBool b) = (if b then ''true'' else ''false'')"
| "print_json (JNum l) = l"
| "print_json (JStr r) = dquote # r @ [dquote]"
| "print_json (JArr vs) = CHR ''['' # print_elems vs @ '']''"
| "print_json (JObj ms) = CHR ''{'' # print_members ms @ ''}''"
| "print_elems [] = []"
| "print_elems (v # vs) = print_json v @ (if vs = [] then [] else CHR '','' # print_elems vs)"
| "print_members [] = []"
| "print_members (m # ms) = dquote # fst m @ dquote # CHR '':'' # print_json (snd m)
     @ (if ms = [] then [] else CHR '','' # print_members ms)"

section \<open>The scanner\<close>

definition is_digit :: "char \<Rightarrow> bool" where
  "is_digit c \<longleftrightarrow> 48 \<le> (of_char c :: nat) \<and> (of_char c :: nat) \<le> 57"

definition is_hex :: "char \<Rightarrow> bool" where
  "is_hex c \<longleftrightarrow> is_digit c \<or> (97 \<le> (of_char c :: nat) \<and> (of_char c :: nat) \<le> 102)
     \<or> (65 \<le> (of_char c :: nat) \<and> (of_char c :: nat) \<le> 70)"

definition is_space :: "char \<Rightarrow> bool" where
  "is_space c \<longleftrightarrow> c = CHR '' '' \<or> c = CHR 0x09 \<or> c = CHR 0x0D \<or> c = CHR 0x0A"

definition skip_ws :: "bytes \<Rightarrow> bytes" where
  "skip_ws s = dropWhile is_space s"

text \<open>
  After the opening quote: the raw contents up to the closing quote and what follows it. A
  control byte, or a backslash that starts no escape, is a syntax error.
\<close>

fun scan_str :: "bytes \<Rightarrow> (bytes \<times> bytes) option" where
  "scan_str [] = None"
| "scan_str (c # cs) =
     (if c = dquote then Some ([], cs)
      else if c = bslash then
        (case cs of
           [] \<Rightarrow> None
         | d # ds \<Rightarrow>
             if d \<in> set (dquote # bslash # ''/bfnrt'') then
               map_option (\<lambda>(r, rest). (c # d # r, rest)) (scan_str ds)
             else if d = CHR ''u'' then
               (case ds of
                  h1 # h2 # h3 # h4 # es \<Rightarrow>
                    if is_hex h1 \<and> is_hex h2 \<and> is_hex h3 \<and> is_hex h4
                    then map_option (\<lambda>(r, rest). (c # d # h1 # h2 # h3 # h4 # r, rest)) (scan_str es)
                    else None
                | _ \<Rightarrow> None)
             else None)
      else if (of_char c :: nat) < 32 then None
      else map_option (\<lambda>(r, rest). (c # r, rest)) (scan_str cs))"

definition scan_int :: "bytes \<Rightarrow> (bytes \<times> bytes) option" where
  "scan_int s =
     (case s of
        [] \<Rightarrow> None
      | c # cs \<Rightarrow>
          if c = CHR ''0'' then Some ([c], cs)
          else if is_digit c then Some (c # takeWhile is_digit cs, dropWhile is_digit cs)
          else None)"

definition scan_frac :: "bytes \<Rightarrow> (bytes \<times> bytes) option" where
  "scan_frac s =
     (case s of
        [] \<Rightarrow> Some ([], [])
      | c # cs \<Rightarrow>
          if c = CHR ''.'' then
            (if takeWhile is_digit cs = [] then None
             else Some (c # takeWhile is_digit cs, dropWhile is_digit cs))
          else Some ([], s))"

definition scan_sign :: "bytes \<Rightarrow> bytes \<times> bytes" where
  "scan_sign s =
     (case s of
        [] \<Rightarrow> ([], [])
      | c # cs \<Rightarrow> if c = CHR ''+'' \<or> c = CHR ''-'' then ([c], cs) else ([], s))"

definition scan_exp :: "bytes \<Rightarrow> (bytes \<times> bytes) option" where
  "scan_exp s =
     (case s of
        [] \<Rightarrow> Some ([], [])
      | c # cs \<Rightarrow>
          if c = CHR ''e'' \<or> c = CHR ''E'' then
            (let (sg, ds) = scan_sign cs
             in if takeWhile is_digit ds = [] then None
                else Some (c # sg @ takeWhile is_digit ds, dropWhile is_digit ds))
          else Some ([], s))"

definition scan_minus :: "bytes \<Rightarrow> bytes \<times> bytes" where
  "scan_minus s =
     (case s of [] \<Rightarrow> ([], []) | c # cs \<Rightarrow> if c = CHR ''-'' then ([c], cs) else ([], s))"

definition scan_num :: "bytes \<Rightarrow> (bytes \<times> bytes) option" where
  "scan_num s =
     (let (sg, s1) = scan_minus s in
      case scan_int s1 of
        None \<Rightarrow> None
      | Some (i, s2) \<Rightarrow>
          (case scan_frac s2 of
             None \<Rightarrow> None
           | Some (f, s3) \<Rightarrow>
               (case scan_exp s3 of
                  None \<Rightarrow> None
                | Some (x, s4) \<Rightarrow> Some (sg @ i @ f @ x, s4))))"

definition scan_lit :: "bytes \<Rightarrow> json \<Rightarrow> bytes \<Rightarrow> (json \<times> bytes) option" where
  "scan_lit w v s = (if prefix w s then Some (v, drop (length w) s) else None)"

text \<open>
  The value scanner. \<open>d\<close> counts the nesting levels still allowed (\<open>maxNestingDepth\<close> is 10000 in
  \<open>encoding/json\<close>); \<open>n\<close> is fuel, two units per byte of text suffice (\<open>parse_json\<close>).
\<close>

fun parse_val :: "nat \<Rightarrow> nat \<Rightarrow> bytes \<Rightarrow> (json \<times> bytes) option"
  and parse_elems :: "nat \<Rightarrow> nat \<Rightarrow> bytes \<Rightarrow> (json list \<times> bytes) option"
  and parse_members :: "nat \<Rightarrow> nat \<Rightarrow> bytes \<Rightarrow> ((bytes \<times> json) list \<times> bytes) option" where
  "parse_val 0 d s = None"
| "parse_val (Suc n) d s =
     (case skip_ws s of
        [] \<Rightarrow> None
      | c # cs \<Rightarrow>
          if c = CHR ''['' then
            (if d = 0 then None
             else if prefix '']'' (skip_ws cs) then Some (JArr [], tl (skip_ws cs))
             else map_option (\<lambda>(vs, r). (JArr vs, r)) (parse_elems n (d - 1) cs))
          else if c = CHR ''{'' then
            (if d = 0 then None
             else if prefix ''}'' (skip_ws cs) then Some (JObj [], tl (skip_ws cs))
             else map_option (\<lambda>(ms, r). (JObj ms, r)) (parse_members n (d - 1) cs))
          else if c = dquote then map_option (\<lambda>(r, rest). (JStr r, rest)) (scan_str cs)
          else if c = CHR ''t'' then scan_lit ''true'' (JBool True) (c # cs)
          else if c = CHR ''f'' then scan_lit ''false'' (JBool False) (c # cs)
          else if c = CHR ''n'' then scan_lit ''null'' JNull (c # cs)
          else map_option (\<lambda>(l, rest). (JNum l, rest)) (scan_num (c # cs)))"
| "parse_elems 0 d s = None"
| "parse_elems (Suc n) d s =
     (case parse_val n d s of
        None \<Rightarrow> None
      | Some (v, r) \<Rightarrow>
          (case skip_ws r of
             [] \<Rightarrow> None
           | c # cs \<Rightarrow>
               if c = CHR '','' then map_option (\<lambda>(vs, r'). (v # vs, r')) (parse_elems n d cs)
               else if c = CHR '']'' then Some ([v], cs)
               else None))"
| "parse_members 0 d s = None"
| "parse_members (Suc n) d s =
     (case skip_ws s of
        [] \<Rightarrow> None
      | q # ks \<Rightarrow>
          if q \<noteq> dquote then None
          else (case scan_str ks of
             None \<Rightarrow> None
           | Some (k, r1) \<Rightarrow>
               (case skip_ws r1 of
                  [] \<Rightarrow> None
                | col # vs \<Rightarrow>
                    if col \<noteq> CHR '':'' then None
                    else (case parse_val n d vs of
                       None \<Rightarrow> None
                     | Some (v, r) \<Rightarrow>
                         (case skip_ws r of
                            [] \<Rightarrow> None
                          | c # cs \<Rightarrow>
                              if c = CHR '','' then
                                map_option (\<lambda>(ms, r'). ((k, v) # ms, r')) (parse_members n d cs)
                              else if c = CHR ''}'' then Some ([(k, v)], cs)
                              else None)))))"

definition max_nesting :: nat where
  "max_nesting = 10000"

definition parse_json :: "bytes \<Rightarrow> json option" where
  "parse_json s =
     (case parse_val (2 * length s + 2) max_nesting s of
        None \<Rightarrow> None
      | Some (v, r) \<Rightarrow> if skip_ws r = [] then Some v else None)"

section \<open>Well-formed trees\<close>

definition raw_ok :: "bytes \<Rightarrow> bool" where
  "raw_ok r \<longleftrightarrow> scan_str (r @ [dquote]) = Some (r, [])"

definition num_ok :: "bytes \<Rightarrow> bool" where
  "num_ok l \<longleftrightarrow> scan_num l = Some (l, [])"

fun json_ok :: "json \<Rightarrow> bool"
  and elems_ok :: "json list \<Rightarrow> bool"
  and members_ok :: "(bytes \<times> json) list \<Rightarrow> bool" where
  "json_ok JNull = True"
| "json_ok (JBool b) = True"
| "json_ok (JNum l) = num_ok l"
| "json_ok (JStr r) = raw_ok r"
| "json_ok (JArr vs) = elems_ok vs"
| "json_ok (JObj ms) = members_ok ms"
| "elems_ok [] = True"
| "elems_ok (v # vs) = (json_ok v \<and> elems_ok vs)"
| "members_ok [] = True"
| "members_ok (m # ms) = (raw_ok (fst m) \<and> json_ok (snd m) \<and> members_ok ms)"

fun jdepth :: "json \<Rightarrow> nat"
  and elems_depth :: "json list \<Rightarrow> nat"
  and members_depth :: "(bytes \<times> json) list \<Rightarrow> nat" where
  "jdepth JNull = 0"
| "jdepth (JBool b) = 0"
| "jdepth (JNum l) = 0"
| "jdepth (JStr r) = 0"
| "jdepth (JArr vs) = Suc (elems_depth vs)"
| "jdepth (JObj ms) = Suc (members_depth ms)"
| "elems_depth [] = 0"
| "elems_depth (v # vs) = max (jdepth v) (elems_depth vs)"
| "members_depth [] = 0"
| "members_depth (m # ms) = max (jdepth (snd m)) (members_depth ms)"

section \<open>Scanning what was printed\<close>

text \<open>A text that may follow a value inside a printed tree, compact or indented.\<close>

definition value_end :: "bytes \<Rightarrow> bool" where
  "value_end t \<longleftrightarrow> (case t of [] \<Rightarrow> True | c # _ \<Rightarrow> c \<in> set (CHR 0x0A # '',]}''))"

lemma value_end_simps [simp]:
  "value_end []" "value_end (CHR '','' # t)" "value_end (CHR '']'' # t)" "value_end (CHR ''}'' # t)" "value_end (CHR 0x0A # t)"
  by (simp_all add: value_end_def)

lemma value_end_first:
  assumes "value_end (c # t)"
  shows "\<not> is_digit c" "c \<noteq> CHR ''.''" "c \<noteq> CHR ''e''" "c \<noteq> CHR ''E''"
  using assms by (auto simp: value_end_def is_digit_def)

lemma scan_str_append:
  "scan_str s = Some (r, rest) \<Longrightarrow> scan_str (s @ t) = Some (r, rest @ t)"
proof (induction s arbitrary: r rest rule: scan_str.induct)
  case (2 c cs)
  note IH = 2(1-3) and scan = 2(4)
  consider "c = dquote" | "c = bslash" | "c \<noteq> dquote" "c \<noteq> bslash" by blast
  then show ?case
  proof cases
    case 1
    with scan show ?thesis by simp
  next
    case 2
    with scan obtain d ds where cs: "cs = d # ds" by (cases cs) auto
    show ?thesis
    proof (cases "d \<in> set (dquote # bslash # ''/bfnrt'')")
      case True
      with 2 cs scan IH(1) [OF _ 2 cs True] show ?thesis by auto
    next
      case False
      with 2 cs scan obtain h1 h2 h3 h4 es where
        "d = CHR ''u''" "ds = h1 # h2 # h3 # h4 # es"
        "is_hex h1 \<and> is_hex h2 \<and> is_hex h3 \<and> is_hex h4"
        by (auto split: if_splits list.splits)
      with 2 cs False scan IH(2) [OF _ 2 cs False, of h1 _ h2 _ h3 _ h4 es] show ?thesis
        by auto
    qed
  next
    case 3
    with scan IH(3) show ?thesis by (auto split: if_splits)
  qed
qed simp

lemma scan_str_raw: "raw_ok r \<Longrightarrow> scan_str (r @ dquote # t) = Some (r, t)"
  using scan_str_append [of "r @ [dquote]" r "[]" t] by (simp add: raw_ok_def)

lemma digits_value_end:
  assumes "value_end t"
  shows "takeWhile is_digit (s @ t) = takeWhile is_digit s"
    and "dropWhile is_digit (s @ t) = dropWhile is_digit s @ t"
  using assms by (cases t; induction s; simp add: value_end_first)+

lemma scan_int_append:
  "scan_int s = Some (i, r) \<Longrightarrow> value_end t \<Longrightarrow> scan_int (s @ t) = Some (i, r @ t)"
  by (auto simp: scan_int_def digits_value_end split: list.splits if_splits)

lemma scan_frac_append:
  assumes "scan_frac s = Some (f, r)" "value_end t"
  shows "scan_frac (s @ t) = Some (f, r @ t)"
proof (cases s)
  case Nil
  with assms show ?thesis
    by (cases t) (auto simp: scan_frac_def value_end_first)
next
  case Cons
  with assms show ?thesis
    by (auto simp: scan_frac_def digits_value_end split: if_splits)
qed

lemma scan_exp_append:
  assumes "scan_exp s = Some (x, r)" "value_end t"
  shows "scan_exp (s @ t) = Some (x, r @ t)"
proof (cases s)
  case Nil
  with assms show ?thesis
    by (cases t) (auto simp: scan_exp_def value_end_first)
next
  case (Cons c cs)
  then show ?thesis
    using assms
    by (cases cs) (auto simp: scan_exp_def scan_sign_def digits_value_end split: if_splits)
qed

lemma scan_num_append:
  assumes "scan_num s = Some (l, r)" "value_end t"
  shows "scan_num (s @ t) = Some (l, r @ t)"
proof -
  obtain sg s1 where m: "scan_minus s = (sg, s1)" by fastforce
  with assms(1) obtain i s2 f s3 x where
    i: "scan_int s1 = Some (i, s2)" and f: "scan_frac s2 = Some (f, s3)"
    and x: "scan_exp s3 = Some (x, r)" and l: "l = sg @ i @ f @ x"
    by (auto simp: scan_num_def split: option.splits)
  from i have "s \<noteq> []"
    using m by (auto simp: scan_int_def scan_minus_def)
  then have "scan_minus (s @ t) = (sg, s1 @ t)"
    using m by (cases s) (auto simp: scan_minus_def split: if_splits)
  with i f x l assms(2) show ?thesis
    by (simp add: scan_num_def scan_int_append scan_frac_append scan_exp_append)
qed

lemma scan_num_ok: "num_ok l \<Longrightarrow> value_end t \<Longrightarrow> scan_num (l @ t) = Some (l, t)"
  using scan_num_append [of l l "[]" t] by (simp add: num_ok_def)

lemma num_ok_first:
  assumes "num_ok l"
  obtains c cs where "l = c # cs" "c = CHR ''-'' \<or> is_digit c"
  using assms
  by (cases l) (auto simp: num_ok_def scan_num_def scan_minus_def scan_int_def is_digit_def
      split: if_splits option.splits)

lemma is_digit_not_special:
  assumes "c = CHR ''-'' \<or> is_digit c"
  shows "c \<notin> set (dquote # ''[{tfn]},:'')" "\<not> is_space c"
  using assms by (auto simp: is_digit_def is_space_def)

lemma skip_ws_nonspace [simp]: "\<not> is_space c \<Longrightarrow> skip_ws (c # cs) = c # cs"
  by (simp add: skip_ws_def)

lemma skip_ws_Nil [simp]: "skip_ws [] = []"
  by (simp add: skip_ws_def)

lemma not_space [simp]:
  "\<not> is_space (CHR ''['')" "\<not> is_space (CHR '']'')" "\<not> is_space (CHR ''{'')" "\<not> is_space (CHR ''}'')"
  "\<not> is_space (CHR '','')" "\<not> is_space (CHR '':'')" "\<not> is_space dquote"
  "\<not> is_space (CHR ''t'')" "\<not> is_space (CHR ''f'')" "\<not> is_space (CHR ''n'')"
  by (simp_all add: is_space_def)

text \<open>The first byte of a printed value: no white space, no closing bracket.\<close>

lemma print_json_first:
  assumes "json_ok j"
  obtains c cs where "print_json j = c # cs" "\<not> is_space c" "c \<noteq> CHR '']''" "c \<noteq> CHR ''}''"
proof (cases j)
  case (JNum l)
  with assms obtain c cs where l: "l = c # cs" "c = CHR ''-'' \<or> is_digit c"
    by (auto elim: num_ok_first)
  with JNum is_digit_not_special [OF l(2)] show ?thesis
    by (intro that [of c cs]) auto
next
  case (JBool b)
  then show ?thesis by (cases b) (auto intro: that)
qed (simp_all add: that)

lemma print_elems_first:
  assumes "elems_ok vs" "vs \<noteq> []"
  obtains c cs where "print_elems vs = c # cs" "\<not> is_space c" "c \<noteq> CHR '']''"
  using assms by (cases vs) (auto elim: print_json_first)

lemma parse_print_val:
  "json_ok j \<Longrightarrow> jdepth j \<le> d \<Longrightarrow> 2 * length (print_json j) \<le> n \<Longrightarrow> value_end t \<Longrightarrow>
     parse_val n d (print_json j @ t) = Some (j, t)"
  "elems_ok vs \<Longrightarrow> elems_depth vs \<le> d \<Longrightarrow> 2 * length (print_elems vs) < n \<Longrightarrow> vs \<noteq> [] \<Longrightarrow>
     parse_elems n d (print_elems vs @ CHR '']'' # t) = Some (vs, t)"
  "members_ok ms \<Longrightarrow> members_depth ms \<le> d \<Longrightarrow> 2 * length (print_members ms) < n \<Longrightarrow> ms \<noteq> [] \<Longrightarrow>
     parse_members n d (print_members ms @ CHR ''}'' # t) = Some (ms, t)"
proof (induction j and vs and ms arbitrary: d n t and d n t and d n t
    rule: print_json_print_elems_print_members.induct)
  case 1
  then show ?case by (cases n) (auto simp: scan_lit_def)
next
  case (2 b)
  then show ?case by (cases n; cases b) (auto simp: scan_lit_def)
next
  case (3 l)
  then obtain c cs where l: "l = c # cs" "c = CHR ''-'' \<or> is_digit c"
    by (auto elim: num_ok_first)
  with 3 is_digit_not_special [OF l(2)] scan_num_ok [of l t] show ?case
    by (cases n) auto
next
  case (4 r)
  then show ?case by (cases n) (auto simp: scan_str_raw)
next
  case (5 vs)
  then obtain n' where n: "n = Suc n'" by (cases n) auto
  show ?case
  proof (cases "vs = []")
    case True
    with 5 n show ?thesis by simp
  next
    case False
    with 5 obtain c cs where c: "print_elems vs = c # cs" "\<not> is_space c" "c \<noteq> CHR '']''"
      by (auto elim: print_elems_first)
    with 5 n False show ?thesis by (cases d) auto
  qed
next
  case (6 ms)
  then obtain n' where n: "n = Suc n'" by (cases n) auto
  show ?case
  proof (cases ms)
    case Nil
    with 6 n show ?thesis by simp
  next
    case (Cons m ms')
    with 6 n show ?thesis by (cases d) auto
  qed
next
  case 7
  then show ?case by simp
next
  case (8 v vs)
  then obtain n' where n: "n = Suc n'" by (cases n) auto
  show ?case
  proof (cases "vs = []")
    case True
    with 8 n show ?thesis by simp
  next
    case False
    with 8 n show ?thesis by simp
  qed
next
  case 9
  then show ?case by simp
next
  case (10 m ms)
  then obtain n' where n: "n = Suc n'" by (cases n) auto
  show ?case
  proof (cases "ms = []")
    case True
    with 10 n show ?thesis by (cases m) (simp add: scan_str_raw)
  next
    case False
    with 10 n show ?thesis by (cases m) (simp add: scan_str_raw)
  qed
qed

theorem parse_print_json:
  assumes "json_ok j" "jdepth j \<le> max_nesting"
  shows "parse_json (print_json j) = Some j"
  using parse_print_val(1) [of j max_nesting "2 * length (print_json j) + 2" "[]"] assms
  by (simp add: parse_json_def)

section \<open>Two units of fuel per byte are enough\<close>

lemma scan_str_length: "scan_str s = Some (r, rest) \<Longrightarrow> length rest < length s"
proof (induction s arbitrary: r rest rule: scan_str.induct)
  case (2 c cs)
  note IH = 2(1-3) and scan = 2(4)
  consider "c = dquote" | "c = bslash" | "c \<noteq> dquote" "c \<noteq> bslash" by blast
  then show ?case
  proof cases
    case 1
    with scan show ?thesis by simp
  next
    case 2
    with scan obtain d ds where cs: "cs = d # ds" by (cases cs) auto
    show ?thesis
    proof (cases "d \<in> set (dquote # bslash # ''/bfnrt'')")
      case True
      with 2 cs scan IH(1) [OF _ 2 cs True] show ?thesis by fastforce
    next
      case False
      with 2 cs scan obtain h1 h2 h3 h4 es where
        "d = CHR ''u''" "ds = h1 # h2 # h3 # h4 # es"
        "is_hex h1 \<and> is_hex h2 \<and> is_hex h3 \<and> is_hex h4"
        by (auto split: if_splits list.splits)
      with 2 cs False scan IH(2) [OF _ 2 cs False, of h1 _ h2 _ h3 _ h4 es] show ?thesis
        by fastforce
    qed
  next
    case 3
    with scan IH(3) show ?thesis by (fastforce split: if_splits)
  qed
qed simp

lemma length_skip_ws [simp]: "length (skip_ws s) \<le> length s"
  by (simp add: skip_ws_def length_dropWhile_le)

lemma length_dropWhile_digits: "length (dropWhile is_digit s) \<le> length s"
  by (rule length_dropWhile_le)

lemma scan_frac_length: "scan_frac s = Some (f, r) \<Longrightarrow> length r \<le> length s"
  by (auto simp: scan_frac_def split: list.splits if_splits
      intro: le_SucI length_dropWhile_digits)

lemma scan_exp_length: "scan_exp s = Some (f, r) \<Longrightarrow> length r \<le> length s"
  by (auto simp: scan_exp_def scan_sign_def Let_def split: list.splits if_splits prod.splits
      intro: le_SucI length_dropWhile_digits)

lemma scan_int_length: "scan_int s = Some (f, r) \<Longrightarrow> length r < length s"
  by (auto simp: scan_int_def less_Suc_eq_le split: list.splits if_splits
      intro: length_dropWhile_digits)

lemma scan_minus_length: "scan_minus s = (g, r) \<Longrightarrow> length r \<le> length s"
  by (auto simp: scan_minus_def split: list.splits if_splits)

lemma scan_num_length: "scan_num s = Some (l, r) \<Longrightarrow> length r < length s"
  by (auto simp: scan_num_def split: prod.splits option.splits
      dest!: scan_minus_length scan_int_length scan_frac_length scan_exp_length)

lemma scan_lit_length: "scan_lit w v s = Some (j, r) \<Longrightarrow> w \<noteq> [] \<Longrightarrow> length r < length s"
  by (cases w) (auto simp: scan_lit_def prefix_def split: if_splits)

lemma skip_ws_Cons_length: "skip_ws s = c # cs \<Longrightarrow> length cs < length s"
  using length_skip_ws [of s] by simp

lemma parse_length:
  "parse_val n d s = Some (v, r) \<Longrightarrow> length r < length s"
  "parse_elems n d s = Some (vs, r) \<Longrightarrow> length r < length s"
  "parse_members n d s = Some (ms, r) \<Longrightarrow> length r < length s"
proof (induction n d s and n d s and n d s arbitrary: v r and vs r and ms r
    rule: parse_val_parse_elems_parse_members.induct)
  case (2 n d s)
  then obtain c cs where c: "skip_ws s = c # cs"
    by (cases "skip_ws s") auto
  note len = skip_ws_Cons_length [OF c]
  have tl: "length (tl (skip_ws cs)) < length s"
    using len length_skip_ws [of cs] by (auto simp del: length_skip_ws)
  consider "c = CHR ''[''" | "c = CHR ''{''" | "c = dquote"
    | "c \<noteq> CHR ''[''" "c \<noteq> CHR ''{''" "c \<noteq> dquote" by blast
  then show ?case
  proof cases
    case 1
    with 2 c tl len show ?thesis by (fastforce split: if_splits)
  next
    case 2
    with "2.IH" "2.prems" c tl len show ?thesis by (fastforce split: if_splits)
  next
    case 3
    with "2.prems" c len show ?thesis by (auto dest!: scan_str_length)
  next
    case 4
    have "length r < length (c # cs)"
      using 4 "2.prems" c by (auto split: if_splits dest!: scan_lit_length scan_num_length)
    then show ?thesis
      using c length_skip_ws [of s] by (simp del: length_skip_ws)
  qed
next
  case (4 n d s)
  then show ?case
    by (fastforce split: option.splits list.splits if_splits dest!: skip_ws_Cons_length)
next
  case (6 n d s)
  then show ?case
    by (fastforce split: option.splits list.splits if_splits dest!: skip_ws_Cons_length scan_str_length)
qed simp_all

lemma parse_fuel_Suc:
  "2 * length s < n \<Longrightarrow> parse_val (Suc n) d s = parse_val n d s"
  "2 * length s + 1 < n \<Longrightarrow> parse_elems (Suc n) d s = parse_elems n d s"
  "2 * length s + 1 < n \<Longrightarrow> parse_members (Suc n) d s = parse_members n d s"
proof (induction n d s and n d s and n d s
    rule: parse_val_parse_elems_parse_members.induct)
  case (2 n d s)
  show ?case
  proof (cases "skip_ws s")
    case (Cons c cs)
    with skip_ws_Cons_length [OF Cons] 2 show ?thesis
      by (subst (1 2) parse_val.simps(2)) (simp del: parse_val.simps parse_elems.simps parse_members.simps)
  qed simp
next
  case (4 n d s)
  have v: "parse_val (Suc n) d s = parse_val n d s"
    using 4 by simp
  show ?case
  proof (cases "parse_val n d s")
    case (Some p)
    obtain x r where p: "p = (x, r)" by fastforce
    note len = parse_length(1) [OF Some [unfolded p]]
    show ?thesis
    proof (cases "skip_ws r")
      case (Cons c cs)
      have "2 * length cs + 1 < n"
        using len skip_ws_Cons_length [OF Cons] "4.prems" by simp
      with 4 v Some p Cons show ?thesis
        by (subst (1 2) parse_elems.simps(2)) (simp del: parse_val.simps parse_elems.simps)
    qed (use v Some p in \<open>subst (1 2) parse_elems.simps(2), simp del: parse_val.simps parse_elems.simps\<close>)
  qed (use v in \<open>subst (1 2) parse_elems.simps(2), simp del: parse_val.simps parse_elems.simps\<close>)
next
  case (6 n d s)
  note parse_members.simps(2) [simp del] parse_val.simps [simp del]
  note unfold = parse_members.simps(2) [of n d s] parse_members.simps(2) [of "Suc n" d s]
  show ?case
  proof (cases "skip_ws s")
    case s: (Cons q ks)
    show ?thesis
    proof (cases "scan_str ks")
      case scan: (Some p1)
      obtain k r1 where p1: "p1 = (k, r1)" by fastforce
      show ?thesis
      proof (cases "skip_ws r1")
        case r1: (Cons col vs)
        have vs: "length vs < length s"
          using skip_ws_Cons_length [OF s] skip_ws_Cons_length [OF r1]
            scan_str_length [OF scan [unfolded p1]] by simp
        show ?thesis
        proof (cases "q = dquote \<and> col = CHR '':''")
          case q: True
          have v: "parse_val (Suc n) d vs = parse_val n d vs"
            using vs "6.prems" q by (intro "6.IH"(1) [OF s _ scan p1 [symmetric] r1]) auto
          show ?thesis
          proof (cases "parse_val n d vs")
            case val: (Some p2)
            obtain x r where p2: "p2 = (x, r)" by fastforce
            show ?thesis
            proof (cases "skip_ws r")
              case r: (Cons c cs)
              have "2 * length cs + 1 < n"
                using parse_length(1) [OF val [unfolded p2]] skip_ws_Cons_length [OF r]
                  vs "6.prems" by simp
              then show ?thesis
                using "6.IH"(2) [OF s _ scan p1 [symmetric] r1 _ val p2 [symmetric] r] q
                by (simp add: unfold s scan p1 r1 v val p2 r)
            qed (simp add: unfold s scan p1 r1 v val p2)
          qed (simp add: unfold s scan p1 r1 v)
        qed (auto simp add: unfold s scan p1 r1)
      qed (simp add: unfold s scan p1)
    qed (simp add: unfold s)
  qed (simp add: unfold)
qed simp_all

lemma parse_fuel:
  assumes "2 * length s < n"
  shows "parse_val n d s = parse_val (2 * length s + 2) d s"
proof -
  have step: "parse_val (m + 2 * length s + 1) d s = parse_val (2 * length s + 1) d s" for m
    by (induction m) (simp_all add: parse_fuel_Suc(1) del: parse_val.simps)
  from assms obtain m where "n = m + 2 * length s + 1"
    by (metis add.commute add.left_commute less_iff_Suc_add Suc_eq_plus1)
  then show ?thesis
    using step [of m] step [of 1] by (simp del: parse_val.simps)
qed

end
