(* ===== verification/JsonString.thy ===== *)
theory JsonString
  imports Json
begin

text \<open>
  String literals of \<open>encoding/json\<close>: the UTF-8 decoder both directions use, the escaping
  encoder (\<open>appendString\<close> with HTML escaping, the default of \<open>json.Marshal\<close>) and the
  unquoting decoder. The encoder replaces an invalid byte by U+FFFD, so the round trip holds
  for valid UTF-8; the decoder only produces valid UTF-8.
\<close>

section \<open>UTF-8\<close>

abbreviation byte_of :: "char \<Rightarrow> nat" where
  "byte_of c \<equiv> of_char c"

definition is_cont :: "char \<Rightarrow> bool" where
  "is_cont c \<longleftrightarrow> 128 \<le> byte_of c \<and> byte_of c \<le> 191"

text \<open>The accepted range of the second byte depends on the first (\<open>utf8.acceptRanges\<close>).\<close>

definition second_ok :: "nat \<Rightarrow> char \<Rightarrow> bool" where
  "second_ok b d \<longleftrightarrow>
     (if b = 224 then 160 else if b = 240 then 144 else 128) \<le> byte_of d \<and>
     byte_of d \<le> (if b = 237 then 159 else if b = 244 then 143 else 191)"

text \<open>\<open>utf8.DecodeRune\<close>: the width of the first rune, 0 for an invalid encoding.\<close>

fun rune_len :: "bytes \<Rightarrow> nat" where
  "rune_len [] = 0"
| "rune_len (c # cs) =
     (let b = byte_of c in
      if b < 128 then 1
      else if 194 \<le> b \<and> b \<le> 223 then
        (case cs of d # _ \<Rightarrow> if is_cont d then 2 else 0 | [] \<Rightarrow> 0)
      else if 224 \<le> b \<and> b \<le> 239 then
        (case cs of d # e # _ \<Rightarrow> if second_ok b d \<and> is_cont e then 3 else 0 | _ \<Rightarrow> 0)
      else if 240 \<le> b \<and> b \<le> 244 then
        (case cs of d # e # f # _ \<Rightarrow> if second_ok b d \<and> is_cont e \<and> is_cont f then 4 else 0
         | _ \<Rightarrow> 0)
      else 0)"

declare rune_len.simps(2) [simp del]

function utf8_ok :: "bytes \<Rightarrow> bool" where
  "utf8_ok s =
     (if s = [] then True
      else if rune_len s = 0 then False
      else utf8_ok (drop (rune_len s) s))"
  by pat_completeness auto
termination
  by (relation "measure length") auto

declare utf8_ok.simps [simp del]

text \<open>\<open>utf8.EncodeRune\<close> of a code point that is not a surrogate.\<close>

definition enc_rune :: "nat \<Rightarrow> bytes" where
  "enc_rune r =
     (if r < 128 then [char_of r]
      else if r < 2048 then [char_of (192 + r div 64), char_of (128 + r mod 64)]
      else if r < 65536 then
        [char_of (224 + r div 4096), char_of (128 + r div 64 mod 64), char_of (128 + r mod 64)]
      else
        [char_of (240 + r div 262144), char_of (128 + r div 4096 mod 64),
         char_of (128 + r div 64 mod 64), char_of (128 + r mod 64)])"

definition rune_error :: bytes where
  "rune_error = enc_rune 65533"

section \<open>Hexadecimal digits\<close>

definition hexdigit :: "nat \<Rightarrow> char" where
  "hexdigit n = (if n < 10 then char_of (48 + n) else char_of (87 + n))"

definition hexval :: "char \<Rightarrow> nat" where
  "hexval c =
     (if is_digit c then byte_of c - 48
      else if 97 \<le> byte_of c then byte_of c - 87
      else byte_of c - 55)"

lemma hexdigit_hex: "n < 16 \<Longrightarrow> is_hex (hexdigit n)"
  by (auto simp: hexdigit_def is_hex_def is_digit_def)

lemma hexval_hexdigit [simp]: "n < 16 \<Longrightarrow> hexval (hexdigit n) = n"
  by (auto simp: hexdigit_def hexval_def is_digit_def)

lemma hexval_less: "is_hex c \<Longrightarrow> hexval c < 16"
  by (auto simp: is_hex_def hexval_def is_digit_def)

section \<open>Encoding a string\<close>

definition esc_u :: "nat \<Rightarrow> bytes" where
  "esc_u r = [bslash, CHR ''u'', hexdigit (r div 4096), hexdigit (r div 256 mod 16),
              hexdigit (r div 16 mod 16), hexdigit (r mod 16)]"

definition esc_ascii :: "char \<Rightarrow> bytes" where
  "esc_ascii c =
     (if c = bslash \<or> c = dquote then [bslash, c]
      else if c = CHR 0x08 then [bslash, CHR ''b'']
      else if c = CHR 0x0C then [bslash, CHR ''f'']
      else if c = CHR 0x0A then [bslash, CHR ''n'']
      else if c = CHR 0x0D then [bslash, CHR ''r'']
      else if c = CHR 0x09 then [bslash, CHR ''t'']
      else if byte_of c < 32 \<or> c \<in> set ''<>&'' then esc_u (byte_of c)
      else [c])"

function quote_go :: "bytes \<Rightarrow> bytes" where
  "quote_go s =
     (case s of
        [] \<Rightarrow> []
      | c # cs \<Rightarrow>
          if byte_of c < 128 then esc_ascii c @ quote_go cs
          else if rune_len s = 0 then esc_u 65533 @ quote_go cs
          else if take 3 s = [CHR 0xE2, CHR 0x80, CHR 0xA8] then esc_u 8232 @ quote_go (drop (rune_len s) s)
          else if take 3 s = [CHR 0xE2, CHR 0x80, CHR 0xA9] then esc_u 8233 @ quote_go (drop (rune_len s) s)
          else take (rune_len s) s @ quote_go (drop (rune_len s) s))"
  by pat_completeness auto
termination
  by (relation "measure length") auto

declare quote_go.simps [simp del]

section \<open>Decoding a string literal\<close>

definition unesc :: "char \<Rightarrow> char" where
  "unesc d =
     (if d = CHR ''b'' then CHR 0x08
      else if d = CHR ''f'' then CHR 0x0C
      else if d = CHR ''n'' then CHR 0x0A
      else if d = CHR ''r'' then CHR 0x0D
      else if d = CHR ''t'' then CHR 0x09
      else d)"

definition is_escape :: "char \<Rightarrow> bool" where
  "is_escape d \<longleftrightarrow> d \<in> set (dquote # bslash # CHR 0x27 # ''/bfnrt'')"

definition hex4 :: "char \<Rightarrow> char \<Rightarrow> char \<Rightarrow> char \<Rightarrow> nat" where
  "hex4 a b c d = ((hexval a * 16 + hexval b) * 16 + hexval c) * 16 + hexval d"

text \<open>\<open>getu4\<close>: the value of a leading \<open>\uXXXX\<close>.\<close>

fun getu4 :: "bytes \<Rightarrow> nat option" where
  "getu4 (b # u # h1 # h2 # h3 # h4 # s) =
     (if b = bslash \<and> u = CHR ''u'' \<and> is_hex h1 \<and> is_hex h2 \<and> is_hex h3 \<and> is_hex h4
      then Some (hex4 h1 h2 h3 h4) else None)"
| "getu4 _ = None"

definition is_surrogate :: "nat \<Rightarrow> bool" where
  "is_surrogate r \<longleftrightarrow> 55296 \<le> r \<and> r < 57344"

text \<open>\<open>utf16.DecodeRune\<close>: \<open>None\<close> is the replacement character.\<close>

definition surrogate_pair :: "nat \<Rightarrow> nat \<Rightarrow> nat option" where
  "surrogate_pair r1 r2 =
     (if 55296 \<le> r1 \<and> r1 < 56320 \<and> 56320 \<le> r2 \<and> r2 < 57344
      then Some ((r1 - 55296) * 1024 + (r2 - 56320) + 65536) else None)"

function unquote_go :: "bytes \<Rightarrow> bytes" where
  "unquote_go s =
     (case s of
        [] \<Rightarrow> []
      | c # cs \<Rightarrow>
          if c = bslash then
            (case getu4 s of
               Some r \<Rightarrow>
                 if is_surrogate r then
                   (case Option.bind (getu4 (drop 6 s)) (surrogate_pair r) of
                      Some r' \<Rightarrow> enc_rune r' @ unquote_go (drop 12 s)
                    | None \<Rightarrow> rune_error @ unquote_go (drop 6 s))
                 else enc_rune r @ unquote_go (drop 6 s)
             | None \<Rightarrow>
                 (case cs of
                    [] \<Rightarrow> []
                  | d # ds \<Rightarrow> if is_escape d then unesc d # unquote_go ds else []))
          else if byte_of c < 128 then c # unquote_go cs
          else if rune_len s = 0 then rune_error @ unquote_go cs
          else take (rune_len s) s @ unquote_go (drop (rune_len s) s))"
  by pat_completeness auto
termination
  by (relation "measure length") auto

declare unquote_go.simps [simp del]

section \<open>Runes\<close>

definition is_rune :: "bytes \<Rightarrow> bool" where
  "is_rune x \<longleftrightarrow> x \<noteq> [] \<and> rune_len x = length x"

lemma rune_len_prefix:
  assumes "rune_len s \<noteq> 0"
  shows "rune_len (take (rune_len s) s @ t) = rune_len s" "rune_len s \<le> length s"
  using assms
  by (cases s; auto simp: rune_len.simps Let_def split: if_splits list.splits)+

lemma is_rune_append [simp]: "is_rune x \<Longrightarrow> rune_len (x @ t) = length x"
  using rune_len_prefix(1) [of x t] by (simp add: is_rune_def)

lemma is_rune_take:
  assumes "rune_len s \<noteq> 0"
  shows "is_rune (take (rune_len s) s)"
  using rune_len_prefix [OF assms] rune_len_prefix(1) [OF assms, of "[]"] assms
  by (auto simp: is_rune_def)

lemma is_rune_ascii [simp]: "byte_of c < 128 \<Longrightarrow> is_rune [c]"
  by (simp add: is_rune_def rune_len.simps)

text \<open>The bytes of a longer rune are all at least 128.\<close>

lemma is_rune_bytes:
  assumes "is_rune x" "x = c # cs" "128 \<le> byte_of c" "b \<in> set x"
  shows "128 \<le> byte_of b"
  using assms
  by (auto simp: is_rune_def rune_len.simps Let_def is_cont_def second_ok_def split: if_splits list.splits)

lemma base64_digits:
  fixes r :: nat
  shows "r = r div 4096 * 4096 + r div 64 mod 64 * 64 + r mod 64"
    and "r div 4096 = r div 262144 * 64 + r div 4096 mod 64"
proof -
  have "r div 64 = r div 4096 * 64 + r div 64 mod 64"
    using div_mult_mod_eq [of "r div 64" 64] by (simp add: div_mult2_eq [symmetric])
  then show "r = r div 4096 * 4096 + r div 64 mod 64 * 64 + r mod 64"
    using div_mult_mod_eq [of r 64] by linarith
  show "r div 4096 = r div 262144 * 64 + r div 4096 mod 64"
    using div_mult_mod_eq [of "r div 4096" 64] by (simp add: div_mult2_eq [symmetric])
qed

lemma is_rune_enc3:
  assumes "2048 \<le> r" "r < 65536" "\<not> is_surrogate r"
  shows "is_rune (enc_rune r)"
proof -
  define q m l where "q = r div 4096" and "m = r div 64 mod 64" and "l = r mod 64"
  have e: "r = q * 4096 + m * 64 + l" and b: "m < 64" "l < 64"
    using base64_digits(1) [of r] by (simp_all add: q_def m_def l_def)
  have "q < 16" "q = 0 \<Longrightarrow> 32 \<le> m" "q = 13 \<Longrightarrow> m < 32"
    using assms e b by (auto simp: is_surrogate_def)
  moreover have "enc_rune r = [char_of (224 + q), char_of (128 + m), char_of (128 + l)]"
    using assms by (simp add: enc_rune_def q_def m_def l_def)
  ultimately show ?thesis
    using b by (auto simp: is_rune_def rune_len.simps of_char_of is_cont_def second_ok_def Let_def)
qed

lemma is_rune_enc4:
  assumes "65536 \<le> r" "r < 1114112"
  shows "is_rune (enc_rune r)"
proof -
  define p q m l where "p = r div 262144" and "q = r div 4096 mod 64"
    and "m = r div 64 mod 64" and "l = r mod 64"
  have e: "r = (p * 64 + q) * 4096 + m * 64 + l" and b: "q < 64" "m < 64" "l < 64"
    using base64_digits [of r] by (simp_all add: p_def q_def m_def l_def)
  have "p < 5" "p = 0 \<Longrightarrow> 16 \<le> q" "p = 4 \<Longrightarrow> q < 16"
    using assms e b by auto
  moreover have "enc_rune r =
      [char_of (240 + p), char_of (128 + q), char_of (128 + m), char_of (128 + l)]"
    using assms by (simp add: enc_rune_def p_def q_def m_def l_def)
  ultimately show ?thesis
    using b by (auto simp: is_rune_def rune_len.simps of_char_of is_cont_def second_ok_def Let_def)
qed

lemma is_rune_enc:
  assumes "r < 1114112" "\<not> is_surrogate r"
  shows "is_rune (enc_rune r)"
proof -
  consider "r < 128" | "128 \<le> r" "r < 2048" | "2048 \<le> r" "r < 65536" | "65536 \<le> r"
    by linarith
  then show ?thesis
  proof cases
    case 1
    then show ?thesis by (simp add: enc_rune_def is_rune_def rune_len.simps of_char_of)
  next
    case 2
    then have "r div 64 < 32" "2 \<le> r div 64"
      by (simp_all add: div_less_iff_less_mult less_eq_div_iff_mult_less_eq)
    with 2 show ?thesis
      by (auto simp: enc_rune_def is_rune_def rune_len.simps of_char_of is_cont_def)
  qed (use assms in \<open>auto intro: is_rune_enc3 is_rune_enc4\<close>)
qed

section \<open>Valid UTF-8\<close>

lemma utf8_ok_Nil [simp]: "utf8_ok []"
  by (simp add: utf8_ok.simps)

lemma utf8_ok_rune [simp]: "is_rune x \<Longrightarrow> utf8_ok (x @ y) \<longleftrightarrow> utf8_ok y"
  by (subst utf8_ok.simps) (auto simp: is_rune_def [of x])

lemma utf8_ok_ascii [simp]: "byte_of c < 128 \<Longrightarrow> utf8_ok (c # s) \<longleftrightarrow> utf8_ok s"
  using utf8_ok_rune [of "[c]" s] by simp

lemma utf8_ok_ascii_all: "\<forall>c\<in>set s. byte_of c < 128 \<Longrightarrow> utf8_ok s"
  by (induction s) auto

lemma utf8_ok_append: "utf8_ok s \<Longrightarrow> utf8_ok (s @ t) \<longleftrightarrow> utf8_ok t"
proof (induction s rule: utf8_ok.induct)
  case (1 s)
  show ?case
  proof (cases "s = []")
    case False
    with "1.prems" have r: "rune_len s \<noteq> 0" and d: "utf8_ok (drop (rune_len s) s)"
      by (auto simp: utf8_ok.simps [of s] split: if_splits)
    have "utf8_ok (s @ t) = utf8_ok (take (rune_len s) s @ drop (rune_len s) s @ t)"
      by (metis append_assoc append_take_drop_id)
    also have "\<dots> = utf8_ok (drop (rune_len s) s @ t)"
      using r by (intro utf8_ok_rune is_rune_take)
    also have "\<dots> = utf8_ok t"
      using 1(1) [OF False r] d by simp
    finally show ?thesis .
  qed simp
qed

lemma rune_error_rune [simp]: "is_rune rune_error"
  by (simp add: rune_error_def is_rune_enc is_surrogate_def)

text \<open>The decoder only produces valid UTF-8.\<close>

lemma getu4_less: "getu4 s = Some r \<Longrightarrow> r < 65536"
proof (induction s rule: getu4.induct)
  case (1 b u h1 h2 h3 h4 s)
  then show ?case
    using hexval_less [of h1] hexval_less [of h2] hexval_less [of h3] hexval_less [of h4]
    by (auto simp: hex4_def split: if_splits)
qed simp_all

lemma surrogate_pair_rune:
  "surrogate_pair a b = Some r \<Longrightarrow> is_rune (enc_rune r)"
  by (rule is_rune_enc) (auto simp: surrogate_pair_def is_surrogate_def split: if_splits)

lemma unesc_ascii: "is_escape d \<Longrightarrow> byte_of (unesc d) < 128"
  unfolding is_escape_def set_simps insert_iff empty_iff
  by (elim disjE) (simp_all add: unesc_def)

lemma utf8_ok_unquote: "utf8_ok (unquote_go s)"
proof (induction s rule: unquote_go.induct)
  case (1 s)
  show ?case
  proof (cases s)
    case (Cons c cs)
    have IHd: "utf8_ok (unquote_go ds)" if "c = bslash" "getu4 s = None" "cs = d # ds" "is_escape d" for d ds
      using 1(1) [OF Cons] that by simp
    show ?thesis
    proof (cases "c = bslash")
      case True
      show ?thesis
      proof (cases "getu4 s")
        case None
        with True Cons IHd show ?thesis
          by (subst unquote_go.simps) (auto simp: unesc_ascii split: list.splits)
      next
        case (Some r)
        have "is_rune (enc_rune r)" if "\<not> is_surrogate r"
          using getu4_less [OF Some] that by (intro is_rune_enc) auto
        moreover have "is_rune (enc_rune r')"
          if "Option.bind (getu4 (drop 6 s)) (surrogate_pair r) = Some r'" for r'
          using that by (auto simp: bind_eq_Some_conv intro: surrogate_pair_rune)
        ultimately have "utf8_ok (case getu4 s of
               Some r \<Rightarrow>
                 if is_surrogate r then
                   (case Option.bind (getu4 (drop 6 s)) (surrogate_pair r) of
                      Some r' \<Rightarrow> enc_rune r' @ unquote_go (drop 12 s)
                    | None \<Rightarrow> rune_error @ unquote_go (drop 6 s))
                 else enc_rune r @ unquote_go (drop 6 s)
             | None \<Rightarrow> [])"
          using Some 1(2-4) [OF Cons True Some] by (auto split: option.split)
        with True Cons Some show ?thesis
          by (subst unquote_go.simps) simp
      qed
    next
      case False
      with Cons 1(5-7) [OF Cons False] show ?thesis
        by (subst unquote_go.simps) (auto simp: is_rune_take)
    qed
  qed (simp add: unquote_go.simps)
qed

section \<open>The round trip of string literals\<close>

text \<open>Pieces of text the string scanner copies unchanged.\<close>

definition scan_copies :: "bytes \<Rightarrow> bool" where
  "scan_copies x \<longleftrightarrow>
     (\<forall>u. scan_str (x @ u) = map_option (\<lambda>(r, rest). (x @ r, rest)) (scan_str u))"

lemma scan_copies_append [intro]: "scan_copies x \<Longrightarrow> scan_copies y \<Longrightarrow> scan_copies (x @ y)"
  by (auto simp: scan_copies_def option.map_comp comp_def case_prod_unfold)

lemma scan_copies_Nil [simp]: "scan_copies []"
  by (simp add: scan_copies_def option.map_ident case_prod_unfold)

lemma scan_copies_char:
  assumes "c \<noteq> dquote" "c \<noteq> bslash" "32 \<le> byte_of c"
  shows "scan_copies [c]"
  using assms by (simp add: scan_copies_def)

lemma scan_copies_high: "\<forall>c\<in>set x. 128 \<le> byte_of c \<Longrightarrow> scan_copies x"
proof (induction x)
  case (Cons c x)
  then have "scan_copies [c]"
    by (intro scan_copies_char) auto
  with Cons show ?case
    using scan_copies_append [of "[c]" x] by simp
qed simp

lemma scan_copies_esc_u: "r < 65536 \<Longrightarrow> scan_copies (esc_u r)"
  by (simp add: scan_copies_def esc_u_def hexdigit_hex div_less_iff_less_mult)

lemma scan_copies_bslash: "d \<in> set (dquote # bslash # ''bfnrt'') \<Longrightarrow> scan_copies [bslash, d]"
  by (auto simp: scan_copies_def)

lemma scan_copies_esc_ascii:
  assumes "byte_of c < 128"
  shows "scan_copies (esc_ascii c)"
proof -
  have "scan_copies (esc_u (byte_of c))"
    using assms by (intro scan_copies_esc_u) simp
  moreover have "scan_copies [c]" if "c \<noteq> dquote" "c \<noteq> bslash" "\<not> byte_of c < 32"
    using that by (intro scan_copies_char) auto
  ultimately show ?thesis
    by (auto simp: esc_ascii_def scan_copies_bslash)
qed

lemma take_rune_high:
  assumes "rune_len (c # cs) \<noteq> 0" "\<not> byte_of c < 128"
  shows "\<forall>b\<in>set (take (rune_len (c # cs)) (c # cs)). 128 \<le> byte_of b"
proof -
  have "is_rune (take (rune_len (c # cs)) (c # cs))"
    by (rule is_rune_take [OF assms(1)])
  moreover obtain n where "rune_len (c # cs) = Suc n"
    using assms(1) by (cases "rune_len (c # cs)") auto
  ultimately show ?thesis
    using is_rune_bytes [of "take (Suc n) (c # cs)" c "take n cs"] assms(2) by auto
qed

lemma scan_copies_quote: "scan_copies (quote_go s)"
proof (induction s rule: quote_go.induct)
  case (1 s)
  show ?case
  proof (cases s)
    case (Cons c cs)
    have u: "scan_copies (esc_u 65533)" "scan_copies (esc_u 8232)" "scan_copies (esc_u 8233)"
      by (simp_all add: scan_copies_esc_u)
    show ?thesis
      using 1 [OF Cons] Cons u scan_copies_esc_ascii [of c]
        scan_copies_high [OF take_rune_high [of c cs]]
      by (subst quote_go.simps) (auto intro!: scan_copies_append simp del: take_Suc_Cons)
  qed (simp add: quote_go.simps)
qed

lemma raw_ok_quote: "raw_ok (quote_go s)"
  using scan_copies_quote [of s] by (simp add: raw_ok_def scan_copies_def)

text \<open>The first rune of a text that starts with a longer rune.\<close>

lemma unquote_rune:
  assumes "is_rune x" "x = c # cs" "\<not> byte_of c < 128"
  shows "unquote_go (x @ u) = x @ unquote_go u"
proof -
  have "c \<noteq> bslash" using assms(3) by auto
  with assms show ?thesis
    by (subst unquote_go.simps) (use is_rune_append [OF assms(1), of u] in simp)
qed

lemma unquote_ascii:
  assumes "c \<noteq> bslash" "byte_of c < 128"
  shows "unquote_go (c # u) = c # unquote_go u"
  using assms by (subst unquote_go.simps) simp

lemma unquote_esc: "is_escape d \<Longrightarrow> unquote_go (bslash # d # u) = unesc d # unquote_go u"
  by (subst unquote_go.simps, cases "bslash # d # u" rule: getu4.cases)
    (auto simp: is_escape_def)

lemma getu4_esc_u:
  assumes r: "r < 65536"
  shows "getu4 (esc_u r @ u) = Some r"
proof -
  have a: "r div 4096 * 16 + r div 256 mod 16 = r div 256"
    using div_mult_mod_eq [of "r div 256" 16] by (simp add: div_mult2_eq [symmetric])
  have b: "r div 256 * 16 + r div 16 mod 16 = r div 16"
    using div_mult_mod_eq [of "r div 16" 16] by (simp add: div_mult2_eq [symmetric])
  have "((r div 4096 * 16 + r div 256 mod 16) * 16 + r div 16 mod 16) * 16 + r mod 16 = r"
    unfolding a b by (rule div_mult_mod_eq)
  with r show ?thesis
    by (simp add: esc_u_def hexdigit_hex hex4_def div_less_iff_less_mult)
qed

lemma unquote_getu4:
  assumes "getu4 s = Some r" "\<not> is_surrogate r"
  shows "unquote_go s = enc_rune r @ unquote_go (drop 6 s)"
proof -
  from assms(1) obtain cs where "s = bslash # cs"
    by (cases s rule: getu4.cases) (auto split: if_splits)
  with assms show ?thesis
    by (subst unquote_go.simps) simp
qed

lemma unquote_esc_u:
  assumes "r < 65536" "\<not> is_surrogate r"
  shows "unquote_go (esc_u r @ u) = enc_rune r @ unquote_go u"
proof -
  have "drop 6 (esc_u r @ u) = u"
    by (simp add: esc_u_def)
  with unquote_getu4 [OF getu4_esc_u [OF assms(1)] assms(2), of u] show ?thesis
    by simp
qed

lemma char_of_eq: "char_of (n :: nat) = c \<longleftrightarrow> n mod 256 = of_char c"
  by (metis char_of_char of_char_of char_of_mod_256)

lemma unquote_esc_ascii:
  assumes "byte_of c < 128"
  shows "unquote_go (esc_ascii c @ u) = c # unquote_go u"
proof -
  have "unquote_go (esc_u (byte_of c) @ u) = c # unquote_go u"
    using assms by (simp add: unquote_esc_u is_surrogate_def enc_rune_def)
  moreover have "unquote_go (c # u) = c # unquote_go u" if "c \<noteq> bslash"
    using assms that by (rule unquote_ascii [rotated])
  ultimately show ?thesis
    by (auto simp: esc_ascii_def unquote_esc is_escape_def unesc_def)
qed

theorem unquote_quote: "utf8_ok s \<Longrightarrow> unquote_go (quote_go s) = s"
proof (induction s rule: quote_go.induct)
  case (1 s)
  show ?case
  proof (cases s)
    case (Cons c cs)
    show ?thesis
    proof (cases "byte_of c < 128")
      case True
      with 1 Cons show ?thesis
        by (subst quote_go.simps) (simp add: unquote_esc_ascii)
    next
      case False
      let ?n = "rune_len s"
      have n: "?n \<noteq> 0" and d: "utf8_ok (drop ?n s)"
        using "1.prems" [unfolded utf8_ok.simps [of s]] Cons by (auto split: if_splits)
      have rune: "is_rune (take ?n s)" by (rule is_rune_take [OF n])
      have split: "take ?n s @ drop ?n s = s" by simp
      have special: "take ?n s = [CHR 0xE2, CHR 0x80, x]"
        if "take 3 s = [CHR 0xE2, CHR 0x80, x]" for x
      proof -
        from that obtain t where "s = CHR 0xE2 # CHR 0x80 # x # t"
          by (cases s; cases "tl s"; cases "tl (tl s)") auto
        with n show ?thesis
          by (auto simp: rune_len.simps Let_def split: if_splits)
      qed
      have enc: "enc_rune 8232 = [CHR 0xE2, CHR 0x80, CHR 0xA8]"
        "enc_rune 8233 = [CHR 0xE2, CHR 0x80, CHR 0xA9]"
        by (simp_all add: enc_rune_def char_of_eq)
      have "unquote_go (take ?n s @ u) = take ?n s @ unquote_go u" for u
        using rune False n Cons by (intro unquote_rune [of _ c "take (?n - 1) cs"]) (cases ?n; auto)+
      then show ?thesis
        using 1(3-5) [OF Cons False n] d Cons False n special enc split
        by (subst quote_go.simps)
          (auto simp: unquote_esc_u is_surrogate_def simp del: append_take_drop_id)
    qed
  qed (simp add: quote_go.simps unquote_go.simps)
qed

end
