(* ===== verification/JsonCodec.thy ===== *)
theory JsonCodec
  imports JsonString
begin

text \<open>
  Marshalling and unmarshalling of Go values by \<open>encoding/json\<close>: decimal numbers with their range
  checks, strings, slices, maps (keys sorted on output), the dynamic type \<open>any\<close>, and the decoding
  of an object into a struct (exact field name first, then case-folded; a repeated key is decoded
  over the earlier value; an unknown key is skipped; \<open>null\<close> leaves a scalar as it is).
\<close>

section \<open>Decimal numbers\<close>

fun print_nat :: "nat \<Rightarrow> bytes" where
  "print_nat n = (if n < 10 then [char_of (48 + n)]
                  else print_nat (n div 10) @ [char_of (48 + n mod 10)])"

declare print_nat.simps [simp del]

definition digits_val :: "bytes \<Rightarrow> nat" where
  "digits_val s = foldl (\<lambda>a c. a * 10 + (byte_of c - 48)) 0 s"

text \<open>\<open>strconv.ParseUint(s, 10, 64)\<close> and \<open>strconv.ParseInt(s, 10, 64)\<close> on a JSON number literal.\<close>

definition parse_uint64 :: "bytes \<Rightarrow> uint64 result" where
  "parse_uint64 s =
     (if s \<noteq> [] \<and> list_all is_digit s \<and> digits_val s < 2 ^ 64
      then Inr (word_of_nat (digits_val s)) else Inl JSONError)"

definition parse_int64 :: "bytes \<Rightarrow> int64 result" where
  "parse_int64 s =
     (let (sg, ds) = scan_minus s;
          v = (if sg = [] then int (digits_val ds) else - int (digits_val ds))
      in if ds \<noteq> [] \<and> list_all is_digit ds \<and> in_int64 v then Inr v else Inl JSONError)"

definition print_int :: "int \<Rightarrow> bytes" where
  "print_int i = (if i < 0 then CHR ''-'' # print_nat (nat (- i)) else print_nat (nat i))"

lemma is_digit_char_of [simp]: "(n :: nat) < 10 \<Longrightarrow> is_digit (char_of (48 + n))"
  by (simp add: is_digit_def of_char_of)

lemma print_nat_digits: "list_all is_digit (print_nat n)"
  by (induction n rule: print_nat.induct) (subst print_nat.simps, simp)

lemma print_nat_not_Nil [simp]: "print_nat n \<noteq> []"
  by (subst print_nat.simps) simp

lemma digits_val_snoc: "digits_val (s @ [c]) = digits_val s * 10 + (byte_of c - 48)"
  by (simp add: digits_val_def)

lemma digits_val_print [simp]: "digits_val (print_nat n) = n"
proof (induction n rule: print_nat.induct)
  case (1 n)
  show ?case
  proof (cases "n < 10")
    case True
    then show ?thesis by (subst print_nat.simps) (simp add: digits_val_def of_char_of)
  next
    case False
    have "n mod 10 < 10" by simp
    with 1 [OF False] False show ?thesis
      by (subst print_nat.simps) (simp add: digits_val_snoc of_char_of)
  qed
qed

lemma print_nat_first: "0 < n \<Longrightarrow> hd (print_nat n) \<noteq> CHR ''0''"
proof (induction n rule: print_nat.induct)
  case (1 n)
  show ?case
  proof (cases "n < 10")
    case True
    then show ?thesis
      using "1.prems" by (subst print_nat.simps) (simp add: char_of_eq)
  next
    case False
    with 1 show ?thesis by (subst print_nat.simps) simp
  qed
qed

lemma print_nat_zero [simp]: "print_nat 0 = ''0''"
  by (subst print_nat.simps) (simp add: char_of_eq)

lemma takeWhile_digits: "list_all is_digit s \<Longrightarrow> takeWhile is_digit s = s \<and> dropWhile is_digit s = []"
  by (induction s) auto

lemma scan_int_print: "scan_int (print_nat n) = Some (print_nat n, [])"
proof (cases "n = 0")
  case True
  then show ?thesis by (simp add: scan_int_def)
next
  case False
  then obtain c cs where n: "print_nat n = c # cs" "c \<noteq> CHR ''0''"
    using print_nat_first [of n] by (cases "print_nat n") auto
  with print_nat_digits [of n] show ?thesis
    by (simp add: scan_int_def takeWhile_digits)
qed

lemma scan_minus_print: "scan_minus (print_nat n) = ([], print_nat n)"
  using print_nat_digits [of n]
  by (cases "print_nat n") (auto simp: scan_minus_def is_digit_def)

lemma num_ok_print_nat: "num_ok (print_nat n)"
  by (simp add: num_ok_def scan_num_def scan_minus_print scan_int_print scan_frac_def scan_exp_def)

lemma num_ok_print_int: "num_ok (print_int i)"
proof (cases "i < 0")
  case True
  then show ?thesis
    by (simp add: print_int_def num_ok_def scan_num_def scan_minus_def scan_int_print
        scan_frac_def scan_exp_def)
qed (simp add: print_int_def num_ok_print_nat)

lemma parse_print_uint64 [simp]: "parse_uint64 (print_nat (unat w)) = Inr w"
  using unsigned_less [of w] by (simp add: parse_uint64_def print_nat_digits)

lemma parse_print_int64: "in_int64 i \<Longrightarrow> parse_int64 (print_int i) = Inr i"
  by (simp add: parse_int64_def print_int_def print_nat_digits scan_minus_print)
    (simp add: scan_minus_def print_nat_digits)

section \<open>Scalars\<close>

text \<open>Decoding takes the value decoded over: \<open>null\<close> leaves it unchanged.\<close>

definition enc_string :: "bytes \<Rightarrow> json" where
  "enc_string s = JStr (quote_go s)"

definition dec_string :: "bytes \<Rightarrow> json \<Rightarrow> bytes result" where
  "dec_string old j = (case j of JNull \<Rightarrow> Inr old | JStr r \<Rightarrow> Inr (unquote_go r) | _ \<Rightarrow> Inl JSONError)"

definition enc_bool :: "bool \<Rightarrow> json" where
  "enc_bool b = JBool b"

definition dec_bool :: "bool \<Rightarrow> json \<Rightarrow> bool result" where
  "dec_bool old j = (case j of JNull \<Rightarrow> Inr old | JBool b \<Rightarrow> Inr b | _ \<Rightarrow> Inl JSONError)"

definition enc_uint64 :: "uint64 \<Rightarrow> json" where
  "enc_uint64 w = JNum (print_nat (unat w))"

definition dec_uint64 :: "uint64 \<Rightarrow> json \<Rightarrow> uint64 result" where
  "dec_uint64 old j = (case j of JNull \<Rightarrow> Inr old | JNum l \<Rightarrow> parse_uint64 l | _ \<Rightarrow> Inl JSONError)"

definition enc_int64 :: "int64 \<Rightarrow> json" where
  "enc_int64 i = JNum (print_int i)"

definition dec_int64 :: "int64 \<Rightarrow> json \<Rightarrow> int64 result" where
  "dec_int64 old j = (case j of JNull \<Rightarrow> Inr old | JNum l \<Rightarrow> parse_int64 l | _ \<Rightarrow> Inl JSONError)"

lemma dec_enc_scalar [simp]:
  "utf8_ok s \<Longrightarrow> dec_string old_s (enc_string s) = Inr s"
  "dec_bool old_b (enc_bool b) = Inr b"
  "dec_uint64 old_w (enc_uint64 w) = Inr w"
  "in_int64 i \<Longrightarrow> dec_int64 old_i (enc_int64 i) = Inr i"
  by (simp_all add: dec_string_def enc_string_def unquote_quote dec_bool_def enc_bool_def
      dec_uint64_def enc_uint64_def dec_int64_def enc_int64_def parse_print_int64)

lemma json_ok_scalar [simp]:
  "json_ok (enc_string s)" "json_ok (enc_bool b)" "json_ok (enc_uint64 w)" "json_ok (enc_int64 i)"
  by (simp_all add: enc_string_def enc_bool_def enc_uint64_def enc_int64_def raw_ok_quote
      num_ok_print_nat num_ok_print_int)

lemma jdepth_scalar [simp]:
  "jdepth (enc_string s) = 0" "jdepth (enc_bool b) = 0" "jdepth (enc_uint64 w) = 0"
  "jdepth (enc_int64 i) = 0"
  by (simp_all add: enc_string_def enc_bool_def enc_uint64_def enc_int64_def)

lemma dec_string_utf8: "dec_string old j = Inr s \<Longrightarrow> utf8_ok old \<Longrightarrow> utf8_ok s"
  by (auto simp: dec_string_def utf8_ok_unquote split: json.splits)

lemma dec_int64_range: "dec_int64 old j = Inr i \<Longrightarrow> in_int64 old \<Longrightarrow> in_int64 i"
  by (auto simp: dec_int64_def parse_int64_def Let_def split: json.splits prod.splits if_splits)

section \<open>Objects into structs\<close>

text \<open>
  \<open>foldName\<close>: upper-cased ASCII, and the two non-ASCII runes whose simple folding is an ASCII
  letter (U+212A, the Kelvin sign, and U+017F, the long s).
\<close>

definition upper_ascii :: "char \<Rightarrow> char" where
  "upper_ascii c = (if 97 \<le> byte_of c \<and> byte_of c \<le> 122 then char_of (byte_of c - 32) else c)"

fun fold_name :: "bytes \<Rightarrow> bytes" where
  "fold_name [] = []"
| "fold_name (c # cs) =
     (if take 2 cs = [CHR 0x84, CHR 0xAA] \<and> c = CHR 0xE2 then CHR ''K'' # fold_name (drop 2 cs)
      else if take 1 cs = [CHR 0xBF] \<and> c = CHR 0xC5 then CHR ''S'' # fold_name (drop 1 cs)
      else upper_ascii c # fold_name cs)"

definition match_field :: "bytes list \<Rightarrow> bytes \<Rightarrow> bytes option" where
  "match_field names k =
     (if k \<in> set names then Some k else List.find (\<lambda>n. fold_name n = fold_name k) names)"

fun decode_fields :: "bytes list \<Rightarrow> (bytes \<Rightarrow> json \<Rightarrow> 'a \<Rightarrow> 'a result) \<Rightarrow> (bytes \<times> json) list \<Rightarrow> 'a \<Rightarrow> 'a result" where
  "decode_fields names f [] a = Inr a"
| "decode_fields names f (m # ms) a =
     (case match_field names (unquote_go (fst m)) of
        None \<Rightarrow> decode_fields names f ms a
      | Some n \<Rightarrow> bind_result (f n (snd m) a) (decode_fields names f ms))"

definition decode_struct :: "bytes list \<Rightarrow> (bytes \<Rightarrow> json \<Rightarrow> 'a \<Rightarrow> 'a result) \<Rightarrow> 'a \<Rightarrow> json \<Rightarrow> 'a result" where
  "decode_struct names f old j =
     (case j of
        JNull \<Rightarrow> Inr old
      | JObj ms \<Rightarrow> decode_fields names f ms old
      | _ \<Rightarrow> Inl JSONError)"

text \<open>Struct tags of the program are lower-case ASCII names, with digits.\<close>

definition plain_name :: "bytes \<Rightarrow> bool" where
  "plain_name k \<longleftrightarrow> list_all (\<lambda>c. 97 \<le> byte_of c \<and> byte_of c \<le> 122 \<or> 48 \<le> byte_of c \<and> byte_of c \<le> 57 \<or> c = CHR ''_'') k"

lemma unquote_plain: "plain_name k \<Longrightarrow> unquote_go k = k"
proof (induction k)
  case Nil
  then show ?case by (simp add: unquote_go.simps)
next
  case (Cons c k)
  then have "c \<noteq> bslash" "byte_of c < 128" and "plain_name k"
    by (auto simp: plain_name_def)
  with Cons show ?case by (simp add: unquote_ascii)
qed

lemma raw_ok_plain: "plain_name k \<Longrightarrow> raw_ok k"
proof -
  assume "plain_name k"
  then have "scan_copies k"
  proof (induction k)
    case (Cons c k)
    then have "scan_copies [c]" "plain_name k"
      by (auto simp: plain_name_def intro!: scan_copies_char)
    with Cons show ?case using scan_copies_append [of "[c]" k] by simp
  qed simp
  then show ?thesis by (simp add: raw_ok_def scan_copies_def)
qed

lemma match_field_plain [simp]:
  "plain_name k \<Longrightarrow> k \<in> set names \<Longrightarrow> match_field names (unquote_go k) = Some k"
  by (simp add: match_field_def unquote_plain)

text \<open>A property of the accumulated value that every field decoder keeps holds of the result.\<close>

lemma decode_fields_inv:
  assumes "decode_fields names f ms a = Inr b" "P a"
    and "\<And>n v x y. f n v x = Inr y \<Longrightarrow> P x \<Longrightarrow> P y"
  shows "P b"
  using assms(1,2)
proof (induction ms arbitrary: a)
  case (Cons m ms)
  then show ?case
    by (auto split: option.splits simp: bind_result_Inr dest: assms(3))
qed simp

lemma decode_struct_inv:
  assumes "decode_struct names f a j = Inr b" "P a"
    and "\<And>n v x y. f n v x = Inr y \<Longrightarrow> P x \<Longrightarrow> P y"
  shows "P b"
  using assms(1,2) decode_fields_inv [of names f _ a b P, OF _ _ assms(3)]
  by (auto simp: decode_struct_def split: json.splits)

section \<open>Slices and maps\<close>

fun dec_str_elems :: "bytes list \<Rightarrow> json list \<Rightarrow> bytes list result" where
  "dec_str_elems old [] = Inr []"
| "dec_str_elems old (v # vs) =
     bind_result (dec_string (case old of [] \<Rightarrow> [] | x # _ \<Rightarrow> x) v)
       (\<lambda>s. map_result (\<lambda>ss. s # ss) (dec_str_elems (tl old) vs))"

definition dec_strings :: "bytes list \<Rightarrow> json \<Rightarrow> bytes list result" where
  "dec_strings old j =
     (case j of JNull \<Rightarrow> Inr [] | JArr vs \<Rightarrow> dec_str_elems old vs | _ \<Rightarrow> Inl JSONError)"

text \<open>A nil slice is \<open>null\<close>.\<close>

definition enc_strings :: "bytes list \<Rightarrow> json" where
  "enc_strings ss = (if ss = [] then JNull else JArr (map enc_string ss))"

lemma dec_enc_str_elems: "\<forall>s\<in>set ss. utf8_ok s \<Longrightarrow> dec_str_elems old (map enc_string ss) = Inr ss"
  by (induction ss arbitrary: old) auto

lemma dec_enc_strings [simp]:
  "\<forall>s\<in>set ss. utf8_ok s \<Longrightarrow> dec_strings old (enc_strings ss) = Inr ss"
  by (simp add: dec_strings_def enc_strings_def dec_enc_str_elems)

lemma elems_map_enc_string [simp]:
  "elems_ok (map enc_string ss)" "elems_depth (map enc_string ss) = 0"
  by (induction ss) auto

lemma enc_strings_ok [simp]: "json_ok (enc_strings ss)" "jdepth (enc_strings ss) \<le> 1"
  by (simp_all add: enc_strings_def)

lemma dec_str_elems_utf8:
  "dec_str_elems old vs = Inr ss \<Longrightarrow> \<forall>s\<in>set old. utf8_ok s \<Longrightarrow> \<forall>s\<in>set ss. utf8_ok s"
proof (induction vs arbitrary: old ss)
  case (Cons v vs)
  then obtain s ss' where s: "dec_string (case old of [] \<Rightarrow> [] | x # _ \<Rightarrow> x) v = Inr s"
    and ss: "dec_str_elems (tl old) vs = Inr ss'" "ss = s # ss'"
    by (auto simp: bind_result_Inr map_result_Inr)
  have "utf8_ok (case old of [] \<Rightarrow> [] | x # _ \<Rightarrow> x)"
    using Cons.prems(2) by (cases old) auto
  then have "utf8_ok s" using dec_string_utf8 [OF s] by blast
  moreover have "\<forall>s\<in>set ss'. utf8_ok s"
    using Cons.IH [OF ss(1)] Cons.prems(2) by (cases old) auto
  ultimately show ?case using ss by simp
qed simp

lemma dec_strings_utf8:
  "dec_strings old j = Inr ss \<Longrightarrow> \<forall>s\<in>set old. utf8_ok s \<Longrightarrow> \<forall>s\<in>set ss. utf8_ok s"
  using dec_str_elems_utf8 [of old _ ss] by (auto simp: dec_strings_def split: json.splits)

text \<open>\<open>map[string]uint64\<close>; \<open>None\<close> is the nil map.\<close>

fun dec_u64_members :: "(bytes \<times> json) list \<Rightarrow> uint64 gomap \<Rightarrow> uint64 gomap result" where
  "dec_u64_members [] m = Inr m"
| "dec_u64_members (e # es) m =
     bind_result (dec_uint64 0 (snd e)) (\<lambda>w. dec_u64_members es (fmupd (unquote_go (fst e)) w m))"

definition map_or_empty :: "'v gomap option \<Rightarrow> 'v gomap" where
  "map_or_empty m = (case m of None \<Rightarrow> fmempty | Some m \<Rightarrow> m)"

lemma map_or_empty_simps [simp]: "map_or_empty None = fmempty" "map_or_empty (Some m) = m"
  by (simp_all add: map_or_empty_def)

definition dec_u64_map :: "uint64 gomap option \<Rightarrow> json \<Rightarrow> uint64 gomap option result" where
  "dec_u64_map old j =
     (case j of
        JNull \<Rightarrow> Inr None
      | JObj es \<Rightarrow> map_result Some (dec_u64_members es (map_or_empty old))
      | _ \<Rightarrow> Inl JSONError)"

definition enc_u64_map :: "uint64 gomap option \<Rightarrow> json" where
  "enc_u64_map om =
     (case om of
        None \<Rightarrow> JNull
      | Some m \<Rightarrow> JObj (map (\<lambda>(k, w). (quote_go k, enc_uint64 w)) (range_map id m)))"

definition map_utf8 :: "'v gomap option \<Rightarrow> bool" where
  "map_utf8 om \<longleftrightarrow> (\<forall>k\<in>fset (fmdom (map_or_empty om)). utf8_ok k)"

lemma dec_u64_members_enc:
  assumes "\<forall>e\<in>set es. utf8_ok (fst e)"
  shows "dec_u64_members (map (\<lambda>(k, w). (quote_go k, enc_uint64 w)) es) m =
    Inr (fold (\<lambda>(k, w). fmupd k w) es m)"
  using assms by (induction es arbitrary: m) (auto simp: unquote_quote split: prod.splits)

lemma fold_fmupd_lookup:
  "distinct (map fst es) \<Longrightarrow>
     fmlookup (fold (\<lambda>(k, w). fmupd k w) es m) k =
     (case map_of es k of None \<Rightarrow> fmlookup m k | Some w \<Rightarrow> Some w)"
proof (induction es arbitrary: m)
  case (Cons e es)
  then show ?case
    by (cases e) (auto split: option.splits dest: map_of_SomeD simp: rev_image_eqI)
qed simp

lemma fold_fmupd_range [simp]:
  "fold (\<lambda>(k, w). fmupd k w) (range_map ord m) fmempty = m"
  by (rule fmap_ext)
    (simp add: fold_fmupd_lookup distinct_range_map map_of_range_map split: option.splits)

lemma dec_enc_u64_map [simp]:
  assumes "map_utf8 om"
  shows "dec_u64_map None (enc_u64_map om) = Inr om"
proof (cases om)
  case (Some m)
  have "\<forall>e\<in>set (range_map id m). utf8_ok (fst e)"
    using assms Some fst_range_map [of id m] by (auto simp: map_utf8_def)
  with Some show ?thesis
    by (simp add: dec_u64_map_def enc_u64_map_def dec_u64_members_enc)
qed (simp add: dec_u64_map_def enc_u64_map_def)

lemma enc_u64_map_ok [simp]: "json_ok (enc_u64_map om)" "jdepth (enc_u64_map om) \<le> 1"
proof -
  have "members_ok (map (\<lambda>(k, w). (quote_go k, enc_uint64 w)) es)"
    "members_depth (map (\<lambda>(k, w). (quote_go k, enc_uint64 w)) es) = 0" for es
    by (induction es) (auto simp: raw_ok_quote)
  then show "json_ok (enc_u64_map om)" "jdepth (enc_u64_map om) \<le> 1"
    by (simp_all add: enc_u64_map_def split: option.splits)
qed

lemma dec_u64_members_utf8:
  "dec_u64_members es m = Inr m' \<Longrightarrow> \<forall>k\<in>fset (fmdom m). utf8_ok k \<Longrightarrow> \<forall>k\<in>fset (fmdom m'). utf8_ok k"
proof (induction es arbitrary: m)
  case (Cons e es)
  then obtain w where w: "dec_u64_members es (fmupd (unquote_go (fst e)) w m) = Inr m'"
    by (auto simp: bind_result_Inr)
  have "\<forall>k\<in>fset (fmdom (fmupd (unquote_go (fst e)) w m)). utf8_ok k"
    using Cons.prems(2) by (simp add: utf8_ok_unquote)
  with Cons.IH [OF w] show ?case by blast
qed simp

lemma dec_u64_map_utf8: "dec_u64_map old j = Inr om \<Longrightarrow> map_utf8 old \<Longrightarrow> map_utf8 om"
  using dec_u64_members_utf8 [of _ "map_or_empty old"]
  by (auto simp: dec_u64_map_def map_utf8_def map_result_Inr split: json.splits)

end
