(* ===== verification/JsonAny.thy ===== *)
theory JsonAny
  imports JsonCodec
begin

text \<open>
  Values of the dynamic type \<open>any\<close> as \<open>json.Unmarshal\<close> produces them, and \<open>map[string]any\<close>. A JSON
  number becomes a \<open>float64\<close>; the model keeps the literal \<open>json.Marshal\<close> prints for that float, and
  takes the conversion literal to printed float (\<open>strconv.ParseFloat\<close>, then the shortest literal
  that parses back to the same float) as a parameter \<open>fn\<close> whose law is \<open>float_law\<close>.
\<close>

section \<open>Ordered association lists\<close>

fun al_upd :: "bytes \<Rightarrow> 'v \<Rightarrow> (bytes \<times> 'v) list \<Rightarrow> (bytes \<times> 'v) list" where
  "al_upd k v [] = [(k, v)]"
| "al_upd k v (e # es) =
     (if k < fst e then (k, v) # e # es
      else if k = fst e then (k, v) # es
      else e # al_upd k v es)"

definition al_sorted :: "(bytes \<times> 'v) list \<Rightarrow> bool" where
  "al_sorted es \<longleftrightarrow> sorted_wrt (<) (map fst es)"

lemma al_upd_last: "\<forall>e\<in>set es. fst e < k \<Longrightarrow> al_upd k v es = es @ [(k, v)]"
  by (induction es) (auto dest: order.strict_implies_not_eq)

lemma set_al_upd: "set (al_upd k v es) \<subseteq> insert (k, v) (set es)"
  by (induction es) auto

lemma al_sorted_upd: "al_sorted es \<Longrightarrow> al_sorted (al_upd k v es)"
proof (induction es)
  case (Cons e es)
  then have IH: "al_sorted (al_upd k v es)"
    by (simp add: al_sorted_def)
  consider "k < fst e" | "k = fst e" | "fst e < k" by (meson linorder_cases)
  then show ?case
  proof cases
    case 1
    with Cons show ?thesis by (auto simp: al_sorted_def intro: order.strict_trans)
  next
    case 2
    with Cons show ?thesis by (auto simp: al_sorted_def)
  next
    case 3
    then have "\<forall>x\<in>set (al_upd k v es). fst e < fst x"
      using set_al_upd [of k v es] Cons.prems by (auto simp: al_sorted_def)
    with 3 IH show ?thesis
      by (auto simp: al_sorted_def)
  qed
qed (simp add: al_sorted_def)

section \<open>Dynamic values\<close>

datatype any =
    ANil
  | ABool bool
  | AFloat bytes
  | AStr bytes
  | AArr "any list"
  | AMap "(bytes \<times> any) list"

fun dec_any :: "(bytes \<Rightarrow> bytes option) \<Rightarrow> json \<Rightarrow> any result"
  and dec_any_elems :: "(bytes \<Rightarrow> bytes option) \<Rightarrow> json list \<Rightarrow> any list result"
  and dec_any_members :: "(bytes \<Rightarrow> bytes option) \<Rightarrow> (bytes \<times> json) list \<Rightarrow> (bytes \<times> any) list
        \<Rightarrow> (bytes \<times> any) list result" where
  "dec_any fn JNull = Inr ANil"
| "dec_any fn (JBool b) = Inr (ABool b)"
| "dec_any fn (JNum l) = (case fn l of None \<Rightarrow> Inl JSONError | Some l' \<Rightarrow> Inr (AFloat l'))"
| "dec_any fn (JStr r) = Inr (AStr (unquote_go r))"
| "dec_any fn (JArr vs) = map_result AArr (dec_any_elems fn vs)"
| "dec_any fn (JObj ms) = map_result AMap (dec_any_members fn ms [])"
| "dec_any_elems fn [] = Inr []"
| "dec_any_elems fn (v # vs) =
     bind_result (dec_any fn v) (\<lambda>a. map_result (\<lambda>as. a # as) (dec_any_elems fn vs))"
| "dec_any_members fn [] acc = Inr acc"
| "dec_any_members fn (m # ms) acc =
     bind_result (dec_any fn (snd m))
       (\<lambda>a. dec_any_members fn ms (al_upd (unquote_go (fst m)) a acc))"

fun enc_any :: "any \<Rightarrow> json"
  and enc_any_elems :: "any list \<Rightarrow> json list"
  and enc_any_members :: "(bytes \<times> any) list \<Rightarrow> (bytes \<times> json) list" where
  "enc_any ANil = JNull"
| "enc_any (ABool b) = JBool b"
| "enc_any (AFloat l) = JNum l"
| "enc_any (AStr s) = enc_string s"
| "enc_any (AArr as) = JArr (enc_any_elems as)"
| "enc_any (AMap es) = JObj (enc_any_members es)"
| "enc_any_elems [] = []"
| "enc_any_elems (a # as) = enc_any a # enc_any_elems as"
| "enc_any_members [] = []"
| "enc_any_members (e # es) = (quote_go (fst e), enc_any (snd e)) # enc_any_members es"

fun any_ok :: "(bytes \<Rightarrow> bytes option) \<Rightarrow> any \<Rightarrow> bool"
  and any_elems_ok :: "(bytes \<Rightarrow> bytes option) \<Rightarrow> any list \<Rightarrow> bool"
  and any_members_ok :: "(bytes \<Rightarrow> bytes option) \<Rightarrow> (bytes \<times> any) list \<Rightarrow> bool" where
  "any_ok fn ANil = True"
| "any_ok fn (ABool b) = True"
| "any_ok fn (AFloat l) = (num_ok l \<and> fn l = Some l)"
| "any_ok fn (AStr s) = utf8_ok s"
| "any_ok fn (AArr as) = any_elems_ok fn as"
| "any_ok fn (AMap es) = (al_sorted es \<and> any_members_ok fn es)"
| "any_elems_ok fn [] = True"
| "any_elems_ok fn (a # as) = (any_ok fn a \<and> any_elems_ok fn as)"
| "any_members_ok fn [] = True"
| "any_members_ok fn (e # es) = (utf8_ok (fst e) \<and> any_ok fn (snd e) \<and> any_members_ok fn es)"

definition float_law :: "(bytes \<Rightarrow> bytes option) \<Rightarrow> bool" where
  "float_law fn \<longleftrightarrow> (\<forall>l l'. num_ok l \<longrightarrow> fn l = Some l' \<longrightarrow> num_ok l' \<and> fn l' = Some l')"

text \<open>\<open>map[string]any\<close>; \<open>None\<close> is the nil map.\<close>

type_synonym anymap = "(bytes \<times> any) list option"

definition dec_anymap :: "(bytes \<Rightarrow> bytes option) \<Rightarrow> anymap \<Rightarrow> json \<Rightarrow> anymap result" where
  "dec_anymap fn old j =
     (case j of
        JNull \<Rightarrow> Inr None
      | JObj ms \<Rightarrow> map_result Some (dec_any_members fn ms (case old of None \<Rightarrow> [] | Some es \<Rightarrow> es))
      | _ \<Rightarrow> Inl JSONError)"

definition enc_anymap :: "anymap \<Rightarrow> json" where
  "enc_anymap m = (case m of None \<Rightarrow> JNull | Some es \<Rightarrow> JObj (enc_any_members es))"

definition anymap_ok :: "(bytes \<Rightarrow> bytes option) \<Rightarrow> anymap \<Rightarrow> bool" where
  "anymap_ok fn m \<longleftrightarrow> (case m of None \<Rightarrow> True | Some es \<Rightarrow> al_sorted es \<and> any_members_ok fn es)"

section \<open>The round trip\<close>

lemma enc_any_json_ok:
  "any_ok fn a \<Longrightarrow> json_ok (enc_any a)"
  "any_elems_ok fn as \<Longrightarrow> elems_ok (enc_any_elems as)"
  "any_members_ok fn es \<Longrightarrow> members_ok (enc_any_members es)"
  by (induction a and as and es rule: enc_any_enc_any_elems_enc_any_members.induct)
    (auto simp: raw_ok_quote)

lemma dec_enc_any:
  "any_ok fn a \<Longrightarrow> dec_any fn (enc_any a) = Inr a"
  "any_elems_ok fn as \<Longrightarrow> dec_any_elems fn (enc_any_elems as) = Inr as"
  "any_members_ok fn es \<Longrightarrow> al_sorted (acc @ es) \<Longrightarrow>
     dec_any_members fn (enc_any_members es) acc = Inr (acc @ es)"
proof (induction a and as and es arbitrary: and and acc
    rule: enc_any_enc_any_elems_enc_any_members.induct)
  case (10 e es)
  have "\<forall>x\<in>set acc. fst x < fst e"
    using "10.prems"(2) by (auto simp: al_sorted_def sorted_wrt_append)
  then have "al_upd (fst e) (snd e) acc = acc @ [e]"
    by (simp add: al_upd_last)
  with 10 show ?case by (simp add: unquote_quote)
qed (auto simp: enc_string_def unquote_quote)

lemma dec_enc_anymap: "anymap_ok fn m \<Longrightarrow> dec_anymap fn None (enc_anymap m) = Inr m"
  using dec_enc_any(3) [of fn _ "[]"]
  by (auto simp: dec_anymap_def enc_anymap_def anymap_ok_def split: option.splits)

lemma any_members_ok_iff:
  "any_members_ok fn es \<longleftrightarrow> (\<forall>e\<in>set es. utf8_ok (fst e) \<and> any_ok fn (snd e))"
  by (induction es) auto

lemma any_members_ok_upd:
  "any_members_ok fn es \<Longrightarrow> utf8_ok k \<Longrightarrow> any_ok fn a \<Longrightarrow> any_members_ok fn (al_upd k a es)"
  using set_al_upd [of k a es] by (fastforce simp: any_members_ok_iff)

lemma dec_any_ok:
  "float_law fn \<Longrightarrow> json_ok j \<Longrightarrow> dec_any fn j = Inr a \<Longrightarrow> any_ok fn a"
  "float_law fn \<Longrightarrow> elems_ok vs \<Longrightarrow> dec_any_elems fn vs = Inr as \<Longrightarrow> any_elems_ok fn as"
  "float_law fn \<Longrightarrow> members_ok ms \<Longrightarrow> dec_any_members fn ms acc = Inr es \<Longrightarrow>
     al_sorted acc \<and> any_members_ok fn acc \<Longrightarrow> al_sorted es \<and> any_members_ok fn es"
proof (induction fn j and fn vs and fn ms acc arbitrary: a and as and es
    rule: dec_any_dec_any_elems_dec_any_members.induct)
  case (10 fn m ms acc)
  then obtain a where a: "dec_any fn (snd m) = Inr a"
    and rest: "dec_any_members fn ms (al_upd (unquote_go (fst m)) a acc) = Inr es"
    by (auto simp: bind_result_Inr)
  have "any_ok fn a"
    using "10.prems" a by (intro "10.IH"(1)) auto
  with "10.prems" show ?case
    by (intro "10.IH"(2) [OF _ _ rest])
      (auto simp: al_sorted_upd any_members_ok_upd utf8_ok_unquote)
next
  case (3 fn l)
  then obtain l' where l': "fn l = Some l'" "a = AFloat l'"
    by (auto split: option.splits)
  have "num_ok l' \<and> fn l' = Some l'"
    using "3.prems"(1,2) l'(1) unfolding float_law_def by (metis json_ok.simps(3))
  then show ?case using l'(2) by simp
next
  case (6 fn ms)
  then obtain es where "a = AMap es" "dec_any_members fn ms [] = Inr es"
    by (auto simp: map_result_Inr)
  with 6 show ?case by (simp add: al_sorted_def)
next
  case (8 fn v vs)
  then obtain x xs where "dec_any fn v = Inr x" "dec_any_elems fn vs = Inr xs" "as = x # xs"
    by (auto simp: bind_result_Inr map_result_Inr)
  with 8 show ?case by simp
qed (auto simp: map_result_Inr utf8_ok_unquote)

lemma enc_anymap_ok: "anymap_ok fn m \<Longrightarrow> json_ok (enc_anymap m)"
  using enc_any_json_ok(3) by (auto simp: anymap_ok_def enc_anymap_def split: option.splits)

lemma dec_anymap_ok:
  assumes "float_law fn" "json_ok j" "anymap_ok fn old" "dec_anymap fn old j = Inr m"
  shows "anymap_ok fn m"
  using assms(2-4) dec_any_ok(3) [OF assms(1)]
  by (fastforce simp: dec_anymap_def anymap_ok_def map_result_Inr al_sorted_def
      split: json.splits option.splits)

section \<open>Nesting depth\<close>

lemma members_depth_le: "members_depth ms \<le> n \<longleftrightarrow> (\<forall>m\<in>set ms. jdepth (snd m) \<le> n)"
  by (induction ms) auto

lemma enc_any_members_depth:
  "members_depth (enc_any_members es) \<le> n \<longleftrightarrow> (\<forall>e\<in>set es. jdepth (enc_any (snd e)) \<le> n)"
  by (induction es) auto

lemma enc_any_members_upd_depth:
  "members_depth (enc_any_members es) \<le> n \<Longrightarrow> jdepth (enc_any a) \<le> n \<Longrightarrow>
     members_depth (enc_any_members (al_upd k a es)) \<le> n"
  using set_al_upd [of k a es] by (fastforce simp: enc_any_members_depth)

lemma dec_any_depth:
  "dec_any fn j = Inr a \<Longrightarrow> jdepth (enc_any a) \<le> jdepth j"
  "dec_any_elems fn vs = Inr as \<Longrightarrow> elems_depth (enc_any_elems as) \<le> elems_depth vs"
  "dec_any_members fn ms acc = Inr es \<Longrightarrow> members_depth ms \<le> n \<Longrightarrow>
     members_depth (enc_any_members acc) \<le> n \<Longrightarrow> members_depth (enc_any_members es) \<le> n"
proof (induction fn j and fn vs and fn ms acc arbitrary: a and as and es n
    rule: dec_any_dec_any_elems_dec_any_members.induct)
  case (8 fn v vs)
  then show ?case by (fastforce simp: bind_result_Inr map_result_Inr)
next
  case (10 fn m ms acc)
  then obtain a where a: "dec_any fn (snd m) = Inr a"
    and rest: "dec_any_members fn ms (al_upd (unquote_go (fst m)) a acc) = Inr es"
    by (auto simp: bind_result_Inr)
  have "jdepth (enc_any a) \<le> n"
    using "10.IH"(1) [OF a] "10.prems"(2) by simp
  with "10.IH"(2) [OF rest] "10.prems" show ?case
    by (simp add: enc_any_members_upd_depth)
qed (auto simp: map_result_Inr enc_string_def split: option.splits)

end
