(* ===== verification/Crypto.thy ===== *)
theory Crypto
  imports JsonAny
begin

text \<open>
  The packages \<open>crypto\<close> (\<open>hash.go\<close>, \<open>keys.go\<close>, \<open>signature.go\<close>) and \<open>encoding/hex\<close>. SHA-256 and
  ed25519 are parameters of the model: every theorem holds for all functions in their place,
  unless it names a hypothesis on them. The same record carries the run time's choices: the order
  of map iteration at each range loop, and the printing of floats.
\<close>

section \<open>What the program is run with\<close>

record env =
  sha256 :: "bytes \<Rightarrow> bytes"
  ed25519_public :: "bytes \<Rightarrow> bytes"
  ed25519_sign :: "bytes \<Rightarrow> bytes \<Rightarrow> bytes"
  ed25519_verify :: "bytes \<Rightarrow> bytes \<Rightarrow> bytes \<Rightarrow> bool"
  float_norm :: "bytes \<Rightarrow> bytes option"
  range_order :: "nat \<Rightarrow> bytes list \<Rightarrow> bytes list"

text \<open>Documented: \<open>strconv\<close> prints a float as a JSON number that parses back to it.\<close>

definition runtime_ok :: "env \<Rightarrow> bool" where
  "runtime_ok E \<longleftrightarrow> float_law (float_norm E)"

text \<open>Documented facts of \<open>crypto/ed25519\<close>: key sizes, and a signature verifies.\<close>

definition ed25519_ok :: "env \<Rightarrow> bool" where
  "ed25519_ok E \<longleftrightarrow>
     (\<forall>priv. length priv = 64 \<longrightarrow> length (ed25519_public E priv) = 32) \<and>
     (\<forall>priv msg. length priv = 64 \<longrightarrow>
        ed25519_verify E (ed25519_public E priv) msg (ed25519_sign E priv msg))"

section \<open>Hexadecimal\<close>

definition hex_encode :: "bytes \<Rightarrow> bytes" where
  "hex_encode s = concat (map (\<lambda>c. [hexdigit (byte_of c div 16), hexdigit (byte_of c mod 16)]) s)"

text \<open>\<open>hex.DecodeString\<close> accepts both cases and rejects an odd length.\<close>

fun hex_decode :: "bytes \<Rightarrow> bytes option" where
  "hex_decode [] = Some []"
| "hex_decode [c] = None"
| "hex_decode (a # b # s) =
     (if is_hex a \<and> is_hex b
      then map_option (\<lambda>r. char_of (hexval a * 16 + hexval b) # r) (hex_decode s) else None)"

lemma hex_encode_Cons:
  "hex_encode (c # s) = hexdigit (byte_of c div 16) # hexdigit (byte_of c mod 16) # hex_encode s"
  by (simp add: hex_encode_def)

lemma byte_of_less [simp]: "byte_of c < 256"
  by (metis of_char_of char_of_char mod_less_divisor zero_less_numeral)

theorem hex_decode_encode [simp]: "hex_decode (hex_encode s) = Some s"
proof (induction s)
  case Nil
  then show ?case by (simp add: hex_encode_def)
next
  case (Cons c s)
  have "byte_of c div 16 < 16"
    using byte_of_less [of c] by (simp add: div_less_iff_less_mult)
  with Cons show ?case
    by (simp add: hex_encode_Cons hexdigit_hex)
qed

lemma hex_encode_inject: "hex_encode s = hex_encode t \<longleftrightarrow> s = t"
  by (metis hex_decode_encode option.inject)

lemma length_hex_encode [simp]: "length (hex_encode s) = 2 * length s"
  by (induction s) (simp_all add: hex_encode_def)

lemma hex_encode_hex: "c \<in> set (hex_encode s) \<Longrightarrow> is_hex c"
proof (induction s)
  case (Cons b s)
  have "byte_of b div 16 < 16"
    using byte_of_less [of b] by (simp add: div_less_iff_less_mult)
  with Cons show ?case
    by (auto simp: hex_encode_Cons hexdigit_hex)
qed (simp add: hex_encode_def)

lemma hex_decode_hex: "hex_decode s = Some b \<Longrightarrow> c \<in> set s \<Longrightarrow> is_hex c"
  by (induction s arbitrary: b rule: hex_decode.induct) (auto split: if_splits)

lemma hex_decode_length: "hex_decode s = Some b \<Longrightarrow> length s = 2 * length b"
  by (induction s arbitrary: b rule: hex_decode.induct) (auto split: if_splits)

lemma is_hex_ascii: "is_hex c \<Longrightarrow> byte_of c < 128"
  by (auto simp: is_hex_def is_digit_def)

lemma is_hex_no_colon: "\<not> is_hex (CHR '':'')"
  by (simp add: is_hex_def is_digit_def)

lemma utf8_ok_hex: "\<forall>c\<in>set s. is_hex c \<Longrightarrow> utf8_ok s"
  using is_hex_ascii by (blast intro: utf8_ok_ascii_all)

section \<open>Hashes\<close>

definition Hash :: "env \<Rightarrow> bytes \<Rightarrow> bytes" where
  "Hash E data = hex_encode (sha256 E data)"

definition HashBytes :: "env \<Rightarrow> bytes \<Rightarrow> bytes" where
  "HashBytes E data = sha256 E data"

text \<open>
  Collision freedom, stated for the texts \<open>S\<close> a run hashes: SHA-256 has collisions, but none among
  the texts of \<open>S\<close>.
\<close>

definition no_collision :: "env \<Rightarrow> bytes set \<Rightarrow> bool" where
  "no_collision E S \<longleftrightarrow> inj_on (sha256 E) S"

lemma Hash_inject:
  "no_collision E S \<Longrightarrow> a \<in> S \<Longrightarrow> b \<in> S \<Longrightarrow> Hash E a = Hash E b \<longleftrightarrow> a = b"
  by (auto simp: no_collision_def Hash_def hex_encode_inject dest: inj_onD)

lemma Hash_hex: "\<forall>c\<in>set (Hash E d). is_hex c"
  by (auto simp: Hash_def hex_encode_hex)

lemma utf8_ok_Hash [simp]: "utf8_ok (Hash E d)"
  by (simp add: utf8_ok_hex Hash_hex)

section \<open>Keys\<close>

definition public_key_size :: nat where
  "public_key_size = 32"

definition private_key_size :: nat where
  "private_key_size = 64"

definition Address_of :: "env \<Rightarrow> bytes \<Rightarrow> bytes" where
  "Address_of E pub = hex_encode (take 20 (HashBytes E pub))"

definition Hex :: "bytes \<Rightarrow> bytes" where
  "Hex pub = hex_encode pub"

definition Public :: "env \<Rightarrow> bytes \<Rightarrow> bytes" where
  "Public E priv = ed25519_public E priv"

definition PubKeyFromHex :: "bytes \<Rightarrow> bytes result" where
  "PubKeyFromHex s =
     (case hex_decode s of
        None \<Rightarrow> Inl (Errorf ''invalid pubkey hex'')
      | Some b \<Rightarrow> if length b \<noteq> public_key_size then Inl (Errorf ''pubkey must be 32 bytes'') else Inr b)"

definition PrivKeyFromHex :: "bytes \<Rightarrow> bytes result" where
  "PrivKeyFromHex s =
     (case hex_decode s of
        None \<Rightarrow> Inl (Errorf ''invalid privkey hex'')
      | Some b \<Rightarrow> if length b \<noteq> private_key_size then Inl (Errorf ''privkey must be 64 bytes'') else Inr b)"

lemma PubKeyFromHex_Hex [simp]: "length pub = 32 \<Longrightarrow> PubKeyFromHex (Hex pub) = Inr pub"
  by (simp add: PubKeyFromHex_def Hex_def public_key_size_def)

lemma PubKeyFromHex_utf8: "PubKeyFromHex s = Inr p \<Longrightarrow> utf8_ok s"
  by (auto simp: PubKeyFromHex_def split: option.splits if_splits
      intro: utf8_ok_hex hex_decode_hex)

section \<open>Signatures\<close>

definition Sign :: "env \<Rightarrow> bytes \<Rightarrow> bytes \<Rightarrow> bytes" where
  "Sign E priv data = hex_encode (ed25519_sign E priv data)"

definition Verify :: "env \<Rightarrow> bytes \<Rightarrow> bytes \<Rightarrow> bytes \<Rightarrow> unit result" where
  "Verify E pub data sigHex =
     (case hex_decode sigHex of
        None \<Rightarrow> Inl (Errorf ''invalid signature hex'')
      | Some sg \<Rightarrow>
          if \<not> ed25519_verify E pub data sg then Inl (Errorf ''signature verification failed'')
          else Inr ())"

lemma Verify_Sign:
  "ed25519_ok E \<Longrightarrow> length priv = 64 \<Longrightarrow> Verify E (Public E priv) data (Sign E priv data) = Inr ()"
  by (simp add: Verify_def Sign_def Public_def ed25519_ok_def)

lemma Verify_Inr:
  "Verify E pub data sg = Inr u \<longleftrightarrow> (\<exists>s. hex_decode sg = Some s \<and> ed25519_verify E pub data s)"
  by (auto simp: Verify_def split: option.splits if_splits)

end
