(* ===== verification/CoreState.thy ===== *)
theory CoreState
  imports Crypto
begin

text \<open>
  The objects of \<open>core/state.go\<close> (\<open>Account\<close>, \<open>Asset\<close>, \<open>AssetTemplate\<close>, \<open>Session\<close>, \<open>MarketListing\<close>)
  with the JSON form their struct tags give, and the contract of such a form (locale
  \<open>json_codec\<close>): unmarshalling what was marshalled gives the object back. Each object's form is
  an interpretation of the contract.
\<close>

section \<open>The contract of a JSON form\<close>

definition marshal :: "('a \<Rightarrow> json) \<Rightarrow> 'a \<Rightarrow> bytes" where
  "marshal enc a = print_json (enc a)"

definition unmarshal :: "(json \<Rightarrow> 'a result) \<Rightarrow> bytes \<Rightarrow> 'a result" where
  "unmarshal dec s = (case parse_json s of None \<Rightarrow> Inl JSONError | Some j \<Rightarrow> dec j)"

locale json_codec =
  fixes enc :: "'a \<Rightarrow> json"
    and dec :: "json \<Rightarrow> 'a result"
    and ok :: "'a \<Rightarrow> bool"
  assumes dec_enc: "ok a \<Longrightarrow> dec (enc a) = Inr a"
    and enc_json_ok: "ok a \<Longrightarrow> json_ok (enc a)"
    and enc_depth: "ok a \<Longrightarrow> jdepth (enc a) \<le> max_nesting"
begin

lemma unmarshal_marshal: "ok a \<Longrightarrow> unmarshal dec (marshal enc a) = Inr a"
  by (simp add: unmarshal_def marshal_def parse_print_json dec_enc enc_json_ok enc_depth)

lemma marshal_inject: "ok a \<Longrightarrow> ok b \<Longrightarrow> marshal enc a = marshal enc b \<longleftrightarrow> a = b"
  by (metis unmarshal_marshal sum.inject(2))

end

section \<open>Accounts\<close>

record account =
  acc_Address :: bytes
  acc_Balance :: uint64
  acc_Nonce :: uint64

definition new_account :: "bytes \<Rightarrow> account" where
  "new_account a = \<lparr>acc_Address = a, acc_Balance = 0, acc_Nonce = 0\<rparr>"

definition enc_account :: "account \<Rightarrow> json" where
  "enc_account a = JObj
     [(''address'', enc_string (acc_Address a)),
      (''balance'', enc_uint64 (acc_Balance a)),
      (''nonce'', enc_uint64 (acc_Nonce a))]"

definition account_field :: "bytes \<Rightarrow> json \<Rightarrow> account \<Rightarrow> account result" where
  "account_field k v a =
     (if k = ''address'' then map_result (\<lambda>s. a\<lparr>acc_Address := s\<rparr>) (dec_string (acc_Address a) v)
      else if k = ''balance'' then map_result (\<lambda>w. a\<lparr>acc_Balance := w\<rparr>) (dec_uint64 (acc_Balance a) v)
      else map_result (\<lambda>w. a\<lparr>acc_Nonce := w\<rparr>) (dec_uint64 (acc_Nonce a) v))"

definition dec_account :: "json \<Rightarrow> account result" where
  "dec_account = decode_struct [''address'', ''balance'', ''nonce''] account_field (new_account [])"

definition account_ok :: "account \<Rightarrow> bool" where
  "account_ok a \<longleftrightarrow> utf8_ok (acc_Address a)"

lemmas struct_simps =
  decode_struct_def plain_name_def raw_ok_plain max_nesting_def

interpretation account_codec: json_codec enc_account dec_account account_ok
  by unfold_locales
    (simp_all add: enc_account_def dec_account_def account_field_def account_ok_def new_account_def
      struct_simps)

section \<open>Assets\<close>

record asset =
  ast_ID :: bytes
  ast_TemplateID :: bytes
  ast_Owner :: bytes
  ast_Properties :: anymap
  ast_Tradeable :: bool
  ast_MintedAt :: int64
  ast_ActiveListingID :: bytes

definition zero_asset :: asset where
  "zero_asset = \<lparr>ast_ID = [], ast_TemplateID = [], ast_Owner = [], ast_Properties = None,
     ast_Tradeable = False, ast_MintedAt = 0, ast_ActiveListingID = []\<rparr>"

text \<open>\<open>active_listing_id\<close> has the \<open>omitempty\<close> option.\<close>

definition enc_asset :: "asset \<Rightarrow> json" where
  "enc_asset a = JObj
     ([(''id'', enc_string (ast_ID a)),
       (''template_id'', enc_string (ast_TemplateID a)),
       (''owner'', enc_string (ast_Owner a)),
       (''properties'', enc_anymap (ast_Properties a)),
       (''tradeable'', enc_bool (ast_Tradeable a)),
       (''minted_at'', enc_int64 (ast_MintedAt a))] @
      (if ast_ActiveListingID a = [] then []
       else [(''active_listing_id'', enc_string (ast_ActiveListingID a))]))"

definition asset_field :: "(bytes \<Rightarrow> bytes option) \<Rightarrow> bytes \<Rightarrow> json \<Rightarrow> asset \<Rightarrow> asset result" where
  "asset_field fn k v a =
     (if k = ''id'' then map_result (\<lambda>s. a\<lparr>ast_ID := s\<rparr>) (dec_string (ast_ID a) v)
      else if k = ''template_id'' then map_result (\<lambda>s. a\<lparr>ast_TemplateID := s\<rparr>) (dec_string (ast_TemplateID a) v)
      else if k = ''owner'' then map_result (\<lambda>s. a\<lparr>ast_Owner := s\<rparr>) (dec_string (ast_Owner a) v)
      else if k = ''properties'' then map_result (\<lambda>m. a\<lparr>ast_Properties := m\<rparr>) (dec_anymap fn (ast_Properties a) v)
      else if k = ''tradeable'' then map_result (\<lambda>b. a\<lparr>ast_Tradeable := b\<rparr>) (dec_bool (ast_Tradeable a) v)
      else if k = ''minted_at'' then map_result (\<lambda>i. a\<lparr>ast_MintedAt := i\<rparr>) (dec_int64 (ast_MintedAt a) v)
      else map_result (\<lambda>s. a\<lparr>ast_ActiveListingID := s\<rparr>) (dec_string (ast_ActiveListingID a) v))"

definition dec_asset :: "(bytes \<Rightarrow> bytes option) \<Rightarrow> json \<Rightarrow> asset result" where
  "dec_asset fn = decode_struct
     [''id'', ''template_id'', ''owner'', ''properties'', ''tradeable'', ''minted_at'', ''active_listing_id'']
     (asset_field fn) zero_asset"

definition asset_ok :: "(bytes \<Rightarrow> bytes option) \<Rightarrow> asset \<Rightarrow> bool" where
  "asset_ok fn a \<longleftrightarrow>
     utf8_ok (ast_ID a) \<and> utf8_ok (ast_TemplateID a) \<and> utf8_ok (ast_Owner a) \<and>
     anymap_ok fn (ast_Properties a) \<and> jdepth (enc_anymap (ast_Properties a)) < max_nesting \<and>
     in_int64 (ast_MintedAt a) \<and> utf8_ok (ast_ActiveListingID a)"

interpretation asset_codec: json_codec enc_asset "dec_asset fn" "asset_ok fn"
  by unfold_locales
    (auto simp: enc_asset_def dec_asset_def asset_field_def asset_ok_def zero_asset_def
      struct_simps dec_enc_anymap enc_anymap_ok)

section \<open>Asset templates\<close>

record asset_template =
  tpl_ID :: bytes
  tpl_Name :: bytes
  tpl_Schema :: anymap
  tpl_Tradeable :: bool
  tpl_Creator :: bytes

definition zero_template :: asset_template where
  "zero_template = \<lparr>tpl_ID = [], tpl_Name = [], tpl_Schema = None, tpl_Tradeable = False, tpl_Creator = []\<rparr>"

definition enc_template :: "asset_template \<Rightarrow> json" where
  "enc_template t = JObj
     [(''id'', enc_string (tpl_ID t)),
      (''name'', enc_string (tpl_Name t)),
      (''schema'', enc_anymap (tpl_Schema t)),
      (''tradeable'', enc_bool (tpl_Tradeable t)),
      (''creator'', enc_string (tpl_Creator t))]"

definition template_field :: "(bytes \<Rightarrow> bytes option) \<Rightarrow> bytes \<Rightarrow> json \<Rightarrow> asset_template \<Rightarrow> asset_template result" where
  "template_field fn k v t =
     (if k = ''id'' then map_result (\<lambda>s. t\<lparr>tpl_ID := s\<rparr>) (dec_string (tpl_ID t) v)
      else if k = ''name'' then map_result (\<lambda>s. t\<lparr>tpl_Name := s\<rparr>) (dec_string (tpl_Name t) v)
      else if k = ''schema'' then map_result (\<lambda>m. t\<lparr>tpl_Schema := m\<rparr>) (dec_anymap fn (tpl_Schema t) v)
      else if k = ''tradeable'' then map_result (\<lambda>b. t\<lparr>tpl_Tradeable := b\<rparr>) (dec_bool (tpl_Tradeable t) v)
      else map_result (\<lambda>s. t\<lparr>tpl_Creator := s\<rparr>) (dec_string (tpl_Creator t) v))"

definition dec_template :: "(bytes \<Rightarrow> bytes option) \<Rightarrow> json \<Rightarrow> asset_template result" where
  "dec_template fn = decode_struct [''id'', ''name'', ''schema'', ''tradeable'', ''creator'']
     (template_field fn) zero_template"

definition template_ok :: "(bytes \<Rightarrow> bytes option) \<Rightarrow> asset_template \<Rightarrow> bool" where
  "template_ok fn t \<longleftrightarrow>
     utf8_ok (tpl_ID t) \<and> utf8_ok (tpl_Name t) \<and> anymap_ok fn (tpl_Schema t) \<and>
     jdepth (enc_anymap (tpl_Schema t)) < max_nesting \<and> utf8_ok (tpl_Creator t)"

interpretation template_codec: json_codec enc_template "dec_template fn" "template_ok fn"
  by unfold_locales
    (auto simp: enc_template_def dec_template_def template_field_def template_ok_def zero_template_def
      struct_simps dec_enc_anymap enc_anymap_ok)

section \<open>Sessions\<close>

record session =
  ses_ID :: bytes
  ses_GameID :: bytes
  ses_Creator :: bytes
  ses_Players :: "bytes list"
  ses_Stakes :: uint64
  ses_Status :: bytes
  ses_Outcome :: "uint64 gomap option"
  ses_CreatedAt :: int64
  ses_ClosedAt :: int64

definition zero_session :: session where
  "zero_session = \<lparr>ses_ID = [], ses_GameID = [], ses_Creator = [], ses_Players = [], ses_Stakes = 0,
     ses_Status = [], ses_Outcome = None, ses_CreatedAt = 0, ses_ClosedAt = 0\<rparr>"

definition enc_session :: "session \<Rightarrow> json" where
  "enc_session s = JObj
     [(''id'', enc_string (ses_ID s)),
      (''game_id'', enc_string (ses_GameID s)),
      (''creator'', enc_string (ses_Creator s)),
      (''players'', enc_strings (ses_Players s)),
      (''stakes'', enc_uint64 (ses_Stakes s)),
      (''status'', enc_string (ses_Status s)),
      (''outcome'', enc_u64_map (ses_Outcome s)),
      (''created_at'', enc_int64 (ses_CreatedAt s)),
      (''closed_at'', enc_int64 (ses_ClosedAt s))]"

definition session_field :: "bytes \<Rightarrow> json \<Rightarrow> session \<Rightarrow> session result" where
  "session_field k v s =
     (if k = ''id'' then map_result (\<lambda>x. s\<lparr>ses_ID := x\<rparr>) (dec_string (ses_ID s) v)
      else if k = ''game_id'' then map_result (\<lambda>x. s\<lparr>ses_GameID := x\<rparr>) (dec_string (ses_GameID s) v)
      else if k = ''creator'' then map_result (\<lambda>x. s\<lparr>ses_Creator := x\<rparr>) (dec_string (ses_Creator s) v)
      else if k = ''players'' then map_result (\<lambda>x. s\<lparr>ses_Players := x\<rparr>) (dec_strings (ses_Players s) v)
      else if k = ''stakes'' then map_result (\<lambda>x. s\<lparr>ses_Stakes := x\<rparr>) (dec_uint64 (ses_Stakes s) v)
      else if k = ''status'' then map_result (\<lambda>x. s\<lparr>ses_Status := x\<rparr>) (dec_string (ses_Status s) v)
      else if k = ''outcome'' then map_result (\<lambda>x. s\<lparr>ses_Outcome := x\<rparr>) (dec_u64_map (ses_Outcome s) v)
      else if k = ''created_at'' then map_result (\<lambda>x. s\<lparr>ses_CreatedAt := x\<rparr>) (dec_int64 (ses_CreatedAt s) v)
      else map_result (\<lambda>x. s\<lparr>ses_ClosedAt := x\<rparr>) (dec_int64 (ses_ClosedAt s) v))"

definition dec_session :: "json \<Rightarrow> session result" where
  "dec_session = decode_struct
     [''id'', ''game_id'', ''creator'', ''players'', ''stakes'', ''status'', ''outcome'', ''created_at'', ''closed_at'']
     session_field zero_session"

definition session_ok :: "session \<Rightarrow> bool" where
  "session_ok s \<longleftrightarrow>
     utf8_ok (ses_ID s) \<and> utf8_ok (ses_GameID s) \<and> utf8_ok (ses_Creator s) \<and>
     (\<forall>p\<in>set (ses_Players s). utf8_ok p) \<and> utf8_ok (ses_Status s) \<and> map_utf8 (ses_Outcome s) \<and>
     in_int64 (ses_CreatedAt s) \<and> in_int64 (ses_ClosedAt s)"

lemma session_parts_depth: "jdepth (enc_strings ss) \<le> 9999" "jdepth (enc_u64_map om) \<le> 9999"
  by (rule order.trans [OF enc_strings_ok(2)], simp) (rule order.trans [OF enc_u64_map_ok(2)], simp)

interpretation session_codec: json_codec enc_session dec_session session_ok
  by unfold_locales
    (simp_all add: enc_session_def dec_session_def session_field_def session_ok_def zero_session_def
      struct_simps session_parts_depth)

section \<open>Market listings\<close>

record listing =
  lst_ID :: bytes
  lst_AssetID :: bytes
  lst_Seller :: bytes
  lst_Price :: uint64
  lst_Active :: bool
  lst_CreatedAt :: int64

definition zero_listing :: listing where
  "zero_listing = \<lparr>lst_ID = [], lst_AssetID = [], lst_Seller = [], lst_Price = 0, lst_Active = False,
     lst_CreatedAt = 0\<rparr>"

definition enc_listing :: "listing \<Rightarrow> json" where
  "enc_listing l = JObj
     [(''id'', enc_string (lst_ID l)),
      (''asset_id'', enc_string (lst_AssetID l)),
      (''seller'', enc_string (lst_Seller l)),
      (''price'', enc_uint64 (lst_Price l)),
      (''active'', enc_bool (lst_Active l)),
      (''created_at'', enc_int64 (lst_CreatedAt l))]"

definition listing_field :: "bytes \<Rightarrow> json \<Rightarrow> listing \<Rightarrow> listing result" where
  "listing_field k v l =
     (if k = ''id'' then map_result (\<lambda>x. l\<lparr>lst_ID := x\<rparr>) (dec_string (lst_ID l) v)
      else if k = ''asset_id'' then map_result (\<lambda>x. l\<lparr>lst_AssetID := x\<rparr>) (dec_string (lst_AssetID l) v)
      else if k = ''seller'' then map_result (\<lambda>x. l\<lparr>lst_Seller := x\<rparr>) (dec_string (lst_Seller l) v)
      else if k = ''price'' then map_result (\<lambda>x. l\<lparr>lst_Price := x\<rparr>) (dec_uint64 (lst_Price l) v)
      else if k = ''active'' then map_result (\<lambda>x. l\<lparr>lst_Active := x\<rparr>) (dec_bool (lst_Active l) v)
      else map_result (\<lambda>x. l\<lparr>lst_CreatedAt := x\<rparr>) (dec_int64 (lst_CreatedAt l) v))"

definition dec_listing :: "json \<Rightarrow> listing result" where
  "dec_listing = decode_struct [''id'', ''asset_id'', ''seller'', ''price'', ''active'', ''created_at'']
     listing_field zero_listing"

definition listing_ok :: "listing \<Rightarrow> bool" where
  "listing_ok l \<longleftrightarrow>
     utf8_ok (lst_ID l) \<and> utf8_ok (lst_AssetID l) \<and> utf8_ok (lst_Seller l) \<and> in_int64 (lst_CreatedAt l)"

interpretation listing_codec: json_codec enc_listing dec_listing listing_ok
  by unfold_locales
    (simp_all add: enc_listing_def dec_listing_def listing_field_def listing_ok_def zero_listing_def
      struct_simps)

end
