(* ===== verification/Transaction.thy ===== *)
theory Transaction
  imports CoreState
begin

text \<open>
  \<open>core/transaction.go\<close>: transactions, the text their hash and signature cover, signing and
  verification, and the payload types of the handlers. A payload (\<open>json.RawMessage\<close>) is the tree of
  its text: \<open>None\<close> is the nil message; marshalling compacts it with HTML escaping, so the
  white space of the text never matters.
\<close>

section \<open>Marshalling a raw message\<close>

fun html_raw :: "bytes \<Rightarrow> bytes" where
  "html_raw [] = []"
| "html_raw (c # cs) =
     (if c \<in> set ''<>&'' then esc_u (byte_of c) @ html_raw cs
      else if c = CHR 0xE2 \<and> take 2 cs = [CHR 0x80, CHR 0xA8] then esc_u 8232 @ html_raw (drop 2 cs)
      else if c = CHR 0xE2 \<and> take 2 cs = [CHR 0x80, CHR 0xA9] then esc_u 8233 @ html_raw (drop 2 cs)
      else c # html_raw cs)"

fun html_json :: "json \<Rightarrow> json"
  and html_elems :: "json list \<Rightarrow> json list"
  and html_members :: "(bytes \<times> json) list \<Rightarrow> (bytes \<times> json) list" where
  "html_json JNull = JNull"
| "html_json (JBool b) = JBool b"
| "html_json (JNum l) = JNum l"
| "html_json (JStr r) = JStr (html_raw r)"
| "html_json (JArr vs) = JArr (html_elems vs)"
| "html_json (JObj ms) = JObj (html_members ms)"
| "html_elems [] = []"
| "html_elems (v # vs) = html_json v # html_elems vs"
| "html_members [] = []"
| "html_members (m # ms) = (html_raw (fst m), html_json (snd m)) # html_members ms"

definition enc_raw :: "json option \<Rightarrow> json" where
  "enc_raw p = (case p of None \<Rightarrow> JNull | Some j \<Rightarrow> html_json j)"

text \<open>\<open>json.Unmarshal\<close> of a raw message: the nil message is not JSON, and the nesting limit applies.\<close>

definition raw_valid :: "json \<Rightarrow> bool" where
  "raw_valid j \<longleftrightarrow> json_ok j \<and> jdepth j \<le> max_nesting"

definition unmarshal_raw :: "(json \<Rightarrow> 'a result) \<Rightarrow> json option \<Rightarrow> 'a result" where
  "unmarshal_raw dec p =
     (case p of
        None \<Rightarrow> Inl JSONError
      | Some j \<Rightarrow> if raw_valid j then dec j else Inl JSONError)"

text \<open>Escaping is idempotent, keeps literals well formed and keeps the nesting.\<close>

lemma html_raw_ascii:
  "byte_of c < 128 \<Longrightarrow> c \<notin> set ''<>&'' \<Longrightarrow> html_raw (c # s) = c # html_raw s"
  by (cases "c = CHR 0xE2") simp_all

declare html_raw.simps(2) [simp del]

lemma hexdigit_html [simp]:
  assumes "n < 16"
  shows "html_raw (hexdigit n # s) = hexdigit n # html_raw s"
proof -
  have "is_hex (hexdigit n)" by (rule hexdigit_hex [OF assms])
  then have "byte_of (hexdigit n) < 128" "hexdigit n \<notin> set ''<>&''"
    by (auto simp: is_hex_def is_digit_def)
  then show ?thesis by (rule html_raw_ascii)
qed

lemma esc_u_html [simp]: "r < 65536 \<Longrightarrow> html_raw (esc_u r @ s) = esc_u r @ html_raw s"
  by (simp add: esc_u_def html_raw_ascii div_less_iff_less_mult)

lemma html_raw_cases:
  obtains (lt) "c \<in> set ''<>&''" "html_raw (c # cs) = esc_u (byte_of c) @ html_raw cs"
  | (sep) r t where "r = 8232 \<or> r = 8233" "cs = CHR 0x80 # (if r = 8232 then CHR 0xA8 else CHR 0xA9) # t"
      "c = CHR 0xE2" "html_raw (c # cs) = esc_u r @ html_raw t"
  | (copy) "c \<notin> set ''<>&''" "c = CHR 0xE2 \<longrightarrow> take 2 cs \<notin> {[CHR 0x80, CHR 0xA8], [CHR 0x80, CHR 0xA9]}"
      "html_raw (c # cs) = c # html_raw cs"
proof -
  have two: "cs = a # b # drop 2 cs" if "take 2 cs = [a, b]" for a b
    using that append_take_drop_id [of 2 cs] by simp
  consider "c \<in> set ''<>&''" | "c \<notin> set ''<>&''" "c = CHR 0xE2" "take 2 cs = [CHR 0x80, CHR 0xA8]"
    | "c \<notin> set ''<>&''" "c = CHR 0xE2" "take 2 cs = [CHR 0x80, CHR 0xA9]"
    | "c \<notin> set ''<>&''" "c = CHR 0xE2 \<longrightarrow> take 2 cs \<notin> {[CHR 0x80, CHR 0xA8], [CHR 0x80, CHR 0xA9]}"
    by blast
  then show thesis
  proof cases
    case 1
    then show ?thesis by (intro lt) (simp_all add: html_raw.simps(2))
  next
    case 2
    then show ?thesis
      using two [OF 2(3)] by (intro sep [of 8232 "drop 2 cs"]) (simp_all add: html_raw.simps(2))
  next
    case 3
    then show ?thesis
      using two [OF 3(3)] by (intro sep [of 8233 "drop 2 cs"]) (simp_all add: html_raw.simps(2))
  next
    case 4
    then show ?thesis by (intro copy) (auto simp: html_raw.simps(2))
  qed
qed

lemma esc_u_first: "esc_u r @ s \<noteq> c # t \<or> c = bslash"
  by (simp add: esc_u_def)

lemma html_raw_high:
  assumes "html_raw s = c # t" "128 \<le> byte_of c"
  obtains s' where "s = c # s'" "t = html_raw s'"
proof (cases s)
  case Nil
  with assms show ?thesis by simp
next
  case (Cons d s')
  have "c \<noteq> bslash" using assms(2) by auto
  then show ?thesis
    using assms(1) Cons esc_u_first that
    by (cases d s' rule: html_raw_cases) (metis list.inject)+
qed

lemma html_raw_take2:
  assumes "take 2 (html_raw s) = [a, b]" "128 \<le> byte_of a" "128 \<le> byte_of b"
  shows "take 2 s = [a, b]"
proof -
  have "html_raw s = a # b # drop 2 (html_raw s)"
    using assms(1) append_take_drop_id [of 2 "html_raw s"] by simp
  then obtain s' where s: "s = a # s'" "html_raw s' = b # drop 2 (html_raw s)"
    using assms(2) by (metis html_raw_high)
  then show ?thesis using assms(3) html_raw_high [OF s(2)] by fastforce
qed

lemma html_raw_idem [simp]: "html_raw (html_raw s) = html_raw s"
proof (induction s rule: length_induct)
  case (1 s)
  show ?case
  proof (cases s)
    case (Cons c cs)
    show ?thesis
    proof (cases c cs rule: html_raw_cases)
      case lt
      moreover have "(byte_of c :: nat) < 65536"
        by (rule order.strict_trans [OF byte_of_less]) simp
      ultimately show ?thesis using 1 Cons by simp
    next
      case (sep r t)
      then show ?thesis using 1 Cons by auto
    next
      case copy
      have "c = CHR 0xE2 \<longrightarrow> take 2 (html_raw cs) \<notin> {[CHR 0x80, CHR 0xA8], [CHR 0x80, CHR 0xA9]}"
        using copy(2) html_raw_take2 [of cs] by auto
      moreover have "html_raw (html_raw cs) = html_raw cs" using 1 Cons by simp
      ultimately show ?thesis
        using copy Cons by (auto simp: html_raw.simps(2) [of c "html_raw cs"])
    qed
  qed simp
qed

lemma html_json_idem [simp]:
  "html_json (html_json j) = html_json j"
  "html_elems (html_elems vs) = html_elems vs"
  "html_members (html_members ms) = html_members ms"
  by (induction j and vs and ms rule: html_json_html_elems_html_members.induct) simp_all

lemma html_json_depth [simp]:
  "jdepth (html_json j) = jdepth j"
  "elems_depth (html_elems vs) = elems_depth vs"
  "members_depth (html_members ms) = members_depth ms"
  by (induction j and vs and ms rule: html_json_html_elems_html_members.induct) simp_all

text \<open>A literal is a sequence of units: a plain byte, or an escape.\<close>

lemma scan_str_unit:
  assumes "scan_str (r @ [dquote]) = Some (r, [])" "r \<noteq> []"
  obtains (plain) c s where "r = c # s" "c \<noteq> bslash" "c \<noteq> dquote" "32 \<le> byte_of c"
      "scan_str (s @ [dquote]) = Some (s, [])"
  | (escape) d s where "r = bslash # d # s" "d \<in> set (dquote # bslash # ''/bfnrt'')"
      "scan_str (s @ [dquote]) = Some (s, [])"
  | (unicode) h1 h2 h3 h4 s where "r = bslash # CHR ''u'' # h1 # h2 # h3 # h4 # s"
      "is_hex h1" "is_hex h2" "is_hex h3" "is_hex h4" "scan_str (s @ [dquote]) = Some (s, [])"
proof -
  obtain c cs where r: "r = c # cs" using assms(2) by (cases r) auto
  have nq: "c \<noteq> dquote" using assms(1) r by auto
  show thesis
  proof (cases "c = bslash")
    case False
    then show ?thesis
      using assms(1) r nq by (intro plain [of c cs]) (auto split: if_splits)
  next
    case True
    then obtain d ds where cs: "cs = d # ds"
      using assms(1) r by (cases cs) auto
    show ?thesis
    proof (cases "d \<in> set (dquote # bslash # ''/bfnrt'')")
      case True
      then show ?thesis
        using assms(1) r cs \<open>c = bslash\<close> by (intro escape [of d ds]) (auto simp del: set_simps)
    next
      case False
      with assms(1) r cs \<open>c = bslash\<close> have u: "d = CHR ''u''"
        by (auto simp del: set_simps split: if_splits)
      then show ?thesis
        using assms(1) r cs \<open>c = bslash\<close> False
        by (auto simp del: set_simps split: if_splits list.splits intro: unicode)
    qed
  qed
qed

lemma html_raw_hex [simp]: "is_hex h \<Longrightarrow> html_raw (h # s) = h # html_raw s"
  by (rule html_raw_ascii) (auto simp: is_hex_def is_digit_def)

lemma html_raw_escape:
  "d \<in> set (dquote # bslash # ''/bfnrt'') \<Longrightarrow> html_raw (bslash # d # s) = bslash # d # html_raw s"
  unfolding set_simps insert_iff empty_iff by (elim disjE) (simp_all add: html_raw_ascii)

lemma raw_ok_append: "scan_copies u \<Longrightarrow> raw_ok s \<Longrightarrow> raw_ok (u @ s)"
  by (simp add: raw_ok_def scan_copies_def)

lemma raw_ok_html: "raw_ok r \<Longrightarrow> raw_ok (html_raw r)"
proof (induction r rule: length_induct)
  case (1 r)
  have IH: "length s < length r \<Longrightarrow> scan_str (s @ [dquote]) = Some (s, []) \<Longrightarrow> raw_ok (html_raw s)" for s
    using 1(1) by (simp add: raw_ok_def)
  show ?case
  proof (cases "r = []")
    case False
    have "scan_str (r @ [dquote]) = Some (r, [])" using 1(2) by (simp add: raw_ok_def)
    from this False show ?thesis
    proof (cases rule: scan_str_unit)
      case (plain c s)
      show ?thesis
      proof (cases c s rule: html_raw_cases)
        case lt
        have "(byte_of c :: nat) < 65536"
          by (rule order.strict_trans [OF byte_of_less]) simp
        then show ?thesis
          using lt plain IH [of s] by (simp add: raw_ok_append scan_copies_esc_u)
      next
        case (sep q t)
        then have "scan_str (t @ [dquote]) = Some (t, [])"
          using plain(5) by (auto split: if_splits)
        then have "raw_ok (html_raw t)" using IH [of t] sep(2) plain(1) by simp
        moreover have "scan_copies (esc_u q)" using sep(1) by (auto intro: scan_copies_esc_u)
        ultimately show ?thesis using sep(4) plain(1) by (simp add: raw_ok_append)
      next
        case copy
        have "scan_copies [c]" using plain(2-4) by (intro scan_copies_char) auto
        then show ?thesis
          using copy(3) plain(1) IH [of s] plain(5) raw_ok_append [of "[c]" "html_raw s"] by simp
      qed
    next
      case (escape d s)
      have "scan_copies [bslash, d]" using escape(2) by (auto simp: scan_copies_def)
      then show ?thesis
        using raw_ok_append [of "[bslash, d]" "html_raw s"] escape IH [of s]
        by (simp add: html_raw_escape del: set_simps)
    next
      case (unicode h1 h2 h3 h4 s)
      then have "scan_copies [bslash, CHR ''u'', h1, h2, h3, h4]" by (simp add: scan_copies_def)
      then show ?thesis
        using raw_ok_append [of "[bslash, CHR ''u'', h1, h2, h3, h4]" "html_raw s"] unicode IH [of s]
        by (simp add: html_raw_ascii)
    qed
  qed (simp add: raw_ok_def)
qed

lemma html_json_ok:
  "json_ok j \<Longrightarrow> json_ok (html_json j)"
  "elems_ok vs \<Longrightarrow> elems_ok (html_elems vs)"
  "members_ok ms \<Longrightarrow> members_ok (html_members ms)"
  by (induction j and vs and ms rule: html_json_html_elems_html_members.induct)
    (simp_all add: raw_ok_html)

lemma raw_valid_html: "raw_valid j \<Longrightarrow> raw_valid (html_json j)"
  by (simp add: raw_valid_def html_json_ok)

lemma enc_raw_ok:
  "pred_option raw_valid p \<Longrightarrow> json_ok (enc_raw p)"
  "pred_option raw_valid p \<Longrightarrow> jdepth (enc_raw p) \<le> max_nesting"
  by (cases p; simp add: enc_raw_def raw_valid_def html_json_ok)+

section \<open>Printing is injective\<close>

lemma value_end_Nil: "value_end []"
  by (simp add: value_end_def)

lemma print_json_inject:
  assumes "json_ok a" "json_ok b" "print_json a = print_json b"
  shows "a = b"
proof -
  have p: "parse_val (2 * length (print_json j)) d (print_json j) = Some (j, [])"
    if "json_ok j" "jdepth j \<le> d" for j d
    using parse_print_val(1) [OF that order.refl value_end_Nil] by simp
  show ?thesis
    using p [OF assms(1) max.cobounded1] p [OF assms(2) max.cobounded2] assms(3)
    by (metis option.inject prod.inject)
qed

lemma print_nat_inject [simp]: "print_nat a = print_nat b \<longleftrightarrow> a = b"
  by (metis digits_val_print)

lemma print_int_inject [simp]: "print_int a = print_int b \<longleftrightarrow> a = b"
proof -
  have "hd (print_nat n) \<noteq> CHR ''-''" for n
    using print_nat_digits [of n] by (cases "print_nat n") (auto simp: is_digit_def)
  then have "CHR ''-'' # s \<noteq> print_nat n" "print_nat n \<noteq> CHR ''-'' # s" for n s by (metis list.sel(1))+
  then show ?thesis by (auto simp: print_int_def)
qed

lemma enc_scalar_inject [simp]:
  "utf8_ok s \<Longrightarrow> utf8_ok t \<Longrightarrow> enc_string s = enc_string t \<longleftrightarrow> s = t"
  "enc_uint64 v = enc_uint64 w \<longleftrightarrow> v = w"
  "enc_int64 i = enc_int64 j \<longleftrightarrow> i = j"
proof -
  show "enc_string s = enc_string t \<longleftrightarrow> s = t" if "utf8_ok s" "utf8_ok t"
    using that unquote_quote by (metis enc_string_def json.inject(3))
qed (simp_all add: enc_uint64_def enc_int64_def word_unat_eq_iff)

section \<open>Transactions\<close>

record transaction =
  tx_ID :: bytes
  tx_ChainID :: bytes
  tx_Type :: bytes
  tx_From :: bytes
  tx_Nonce :: uint64
  tx_Fee :: uint64
  tx_Timestamp :: int64
  tx_Payload :: "json option"
  tx_Signature :: bytes

definition enc_signingBody :: "transaction \<Rightarrow> json" where
  "enc_signingBody tx = JObj
     [(''chain_id'', enc_string (tx_ChainID tx)),
      (''type'', enc_string (tx_Type tx)),
      (''from'', enc_string (tx_From tx)),
      (''nonce'', enc_uint64 (tx_Nonce tx)),
      (''fee'', enc_uint64 (tx_Fee tx)),
      (''timestamp'', enc_int64 (tx_Timestamp tx)),
      (''payload'', enc_raw (tx_Payload tx))]"

definition tx_Hash :: "env \<Rightarrow> transaction \<Rightarrow> bytes" where
  "tx_Hash E tx = Hash E (marshal enc_signingBody tx)"

definition tx_Sign :: "env \<Rightarrow> bytes \<Rightarrow> transaction \<Rightarrow> transaction" where
  "tx_Sign E priv tx =
     (let hash = tx_Hash E tx in tx\<lparr>tx_Signature := Sign E priv hash, tx_ID := hash\<rparr>)"

definition tx_Verify :: "env \<Rightarrow> transaction \<Rightarrow> unit result" where
  "tx_Verify E tx =
     (if tx_From tx = [] then Inl (Errorf ''missing from field'')
      else case PubKeyFromHex (tx_From tx) of
        Inl e \<Rightarrow> Inl (Wrapf ''invalid from (must be ed25519 pubkey hex)'' e)
      | Inr pub \<Rightarrow>
          let hash = tx_Hash E tx in
          if tx_ID tx \<noteq> hash then Inl (Errorf ''tx ID mismatch'')
          else Verify E pub hash (tx_Signature tx))"

text \<open>\<open>raw\<close> is the outcome of marshalling the payload, \<open>now\<close> the clock in nanoseconds.\<close>

definition NewTransaction ::
  "bytes \<Rightarrow> bytes \<Rightarrow> bytes \<Rightarrow> uint64 \<Rightarrow> uint64 \<Rightarrow> json result \<Rightarrow> int64 \<Rightarrow> transaction result" where
  "NewTransaction chainID typ from nonce fee raw now =
     (case raw of
        Inl e \<Rightarrow> Inl (Wrapf ''marshal payload'' e)
      | Inr j \<Rightarrow> Inr \<lparr>tx_ID = [], tx_ChainID = chainID, tx_Type = typ, tx_From = from, tx_Nonce = nonce,
          tx_Fee = fee, tx_Timestamp = now, tx_Payload = Some j, tx_Signature = []\<rparr>)"

definition tx_ok :: "transaction \<Rightarrow> bool" where
  "tx_ok tx \<longleftrightarrow>
     utf8_ok (tx_ID tx) \<and> utf8_ok (tx_ChainID tx) \<and> utf8_ok (tx_Type tx) \<and> utf8_ok (tx_From tx) \<and>
     utf8_ok (tx_Signature tx) \<and> in_int64 (tx_Timestamp tx) \<and>
     pred_option (\<lambda>j. json_ok j \<and> jdepth j < max_nesting) (tx_Payload tx)"

text \<open>Two transactions with the same signed content.\<close>

definition same_body :: "transaction \<Rightarrow> transaction \<Rightarrow> bool" where
  "same_body t u \<longleftrightarrow>
     tx_ChainID t = tx_ChainID u \<and> tx_Type t = tx_Type u \<and> tx_From t = tx_From u \<and>
     tx_Nonce t = tx_Nonce u \<and> tx_Fee t = tx_Fee u \<and> tx_Timestamp t = tx_Timestamp u \<and>
     enc_raw (tx_Payload t) = enc_raw (tx_Payload u)"

lemma tx_ok_payload: "tx_ok tx \<Longrightarrow> pred_option raw_valid (tx_Payload tx)"
  by (auto simp: tx_ok_def raw_valid_def elim!: option.pred_mono_strong)

lemma enc_signingBody_ok: "tx_ok tx \<Longrightarrow> json_ok (enc_signingBody tx)"
  using enc_raw_ok(1) [OF tx_ok_payload]
  by (simp add: enc_signingBody_def struct_simps)

lemma enc_signingBody_inject:
  "tx_ok t \<Longrightarrow> tx_ok u \<Longrightarrow> enc_signingBody t = enc_signingBody u \<longleftrightarrow> same_body t u"
  by (auto simp: enc_signingBody_def same_body_def tx_ok_def)

lemma marshal_signingBody_inject:
  "tx_ok t \<Longrightarrow> tx_ok u \<Longrightarrow> marshal enc_signingBody t = marshal enc_signingBody u \<longleftrightarrow> same_body t u"
  unfolding marshal_def using print_json_inject enc_signingBody_ok enc_signingBody_inject by metis

lemma tx_Hash_Sign [simp]: "tx_Hash E (tx_Sign E priv tx) = tx_Hash E tx"
  by (simp add: tx_Hash_def tx_Sign_def Let_def marshal_def enc_signingBody_def)

lemma tx_Verify_Inr:
  "tx_Verify E tx = Inr u \<longleftrightarrow>
     (\<exists>pub s. PubKeyFromHex (tx_From tx) = Inr pub \<and> tx_ID tx = tx_Hash E tx \<and>
        hex_decode (tx_Signature tx) = Some s \<and> ed25519_verify E pub (tx_Hash E tx) s)"
proof (cases "tx_From tx")
  case Nil
  then show ?thesis by (simp add: tx_Verify_def PubKeyFromHex_def public_key_size_def)
next
  case Cons
  then show ?thesis by (auto simp: tx_Verify_def Let_def Verify_Inr split: sum.splits)
qed

lemma tx_Verify_Sign:
  assumes "ed25519_ok E" "length priv = 64" "tx_From tx = Hex (Public E priv)"
  shows "tx_Verify E (tx_Sign E priv tx) = Inr ()"
proof -
  have "length (Public E priv) = 32"
    using assms(1,2) by (simp add: ed25519_ok_def Public_def)
  moreover have "Hex (Public E priv) \<noteq> []"
    unfolding Hex_def using calculation by (metis length_hex_encode list.size(3) mult_eq_0_iff zero_neq_numeral)
  ultimately show ?thesis
    using assms tx_Hash_Sign [of E priv tx]
    by (simp add: tx_Verify_def tx_Sign_def Let_def Verify_Sign)
qed

lemma tx_Verify_utf8: "tx_Verify E tx = Inr u \<Longrightarrow> utf8_ok (tx_From tx)"
  by (auto simp: tx_Verify_Inr PubKeyFromHex_utf8)

section \<open>Transactions as JSON\<close>

definition zero_transaction :: transaction where
  "zero_transaction = \<lparr>tx_ID = [], tx_ChainID = [], tx_Type = [], tx_From = [], tx_Nonce = 0, tx_Fee = 0,
     tx_Timestamp = 0, tx_Payload = None, tx_Signature = []\<rparr>"

definition enc_transaction :: "transaction \<Rightarrow> json" where
  "enc_transaction tx = JObj
     [(''id'', enc_string (tx_ID tx)),
      (''chain_id'', enc_string (tx_ChainID tx)),
      (''type'', enc_string (tx_Type tx)),
      (''from'', enc_string (tx_From tx)),
      (''nonce'', enc_uint64 (tx_Nonce tx)),
      (''fee'', enc_uint64 (tx_Fee tx)),
      (''timestamp'', enc_int64 (tx_Timestamp tx)),
      (''payload'', enc_raw (tx_Payload tx)),
      (''signature'', enc_string (tx_Signature tx))]"

definition transaction_field :: "bytes \<Rightarrow> json \<Rightarrow> transaction \<Rightarrow> transaction result" where
  "transaction_field k v t =
     (if k = ''id'' then map_result (\<lambda>x. t\<lparr>tx_ID := x\<rparr>) (dec_string (tx_ID t) v)
      else if k = ''chain_id'' then map_result (\<lambda>x. t\<lparr>tx_ChainID := x\<rparr>) (dec_string (tx_ChainID t) v)
      else if k = ''type'' then map_result (\<lambda>x. t\<lparr>tx_Type := x\<rparr>) (dec_string (tx_Type t) v)
      else if k = ''from'' then map_result (\<lambda>x. t\<lparr>tx_From := x\<rparr>) (dec_string (tx_From t) v)
      else if k = ''nonce'' then map_result (\<lambda>x. t\<lparr>tx_Nonce := x\<rparr>) (dec_uint64 (tx_Nonce t) v)
      else if k = ''fee'' then map_result (\<lambda>x. t\<lparr>tx_Fee := x\<rparr>) (dec_uint64 (tx_Fee t) v)
      else if k = ''timestamp'' then map_result (\<lambda>x. t\<lparr>tx_Timestamp := x\<rparr>) (dec_int64 (tx_Timestamp t) v)
      else if k = ''payload'' then Inr (t\<lparr>tx_Payload := Some v\<rparr>)
      else map_result (\<lambda>x. t\<lparr>tx_Signature := x\<rparr>) (dec_string (tx_Signature t) v))"

text \<open>Decoding into an existing value keeps the fields the text does not mention.\<close>

definition dec_transaction_into :: "transaction \<Rightarrow> json \<Rightarrow> transaction result" where
  "dec_transaction_into = decode_struct
     [''id'', ''chain_id'', ''type'', ''from'', ''nonce'', ''fee'', ''timestamp'', ''payload'', ''signature'']
     transaction_field"

definition dec_transaction :: "json \<Rightarrow> transaction result" where
  "dec_transaction = dec_transaction_into zero_transaction"

text \<open>What a transaction becomes on its way through JSON: its payload in escaped form.\<close>

definition wire_form :: "transaction \<Rightarrow> transaction" where
  "wire_form tx = tx\<lparr>tx_Payload := Some (enc_raw (tx_Payload tx))\<rparr>"

lemma enc_raw_idem [simp]: "enc_raw (Some (enc_raw p)) = enc_raw p"
  by (cases p) (simp_all add: enc_raw_def)

lemma wire_form_enc [simp]:
  "enc_transaction (wire_form tx) = enc_transaction tx" "enc_signingBody (wire_form tx) = enc_signingBody tx"
  by (simp_all add: wire_form_def enc_transaction_def enc_signingBody_def)

lemma wire_form_Verify [simp]: "tx_Verify E (wire_form tx) = tx_Verify E tx"
proof -
  have "tx_Hash E (wire_form tx) = tx_Hash E tx" by (simp add: tx_Hash_def marshal_def)
  moreover have "tx_From (wire_form tx) = tx_From tx" "tx_ID (wire_form tx) = tx_ID tx"
    "tx_Signature (wire_form tx) = tx_Signature tx"
    by (simp_all add: wire_form_def)
  ultimately show ?thesis by (simp add: tx_Verify_def Let_def split: sum.split)
qed

lemma enc_raw_depth: "tx_ok tx \<Longrightarrow> jdepth (enc_raw (tx_Payload tx)) < max_nesting"
  by (cases "tx_Payload tx") (simp_all add: tx_ok_def enc_raw_def max_nesting_def)

lemma enc_transaction_ok:
  assumes "tx_ok tx"
  shows "json_ok (enc_transaction tx)" "jdepth (enc_transaction tx) \<le> max_nesting"
  using enc_raw_ok(1) [OF tx_ok_payload [OF assms]] enc_raw_depth [OF assms]
  by (simp_all add: enc_transaction_def plain_name_def raw_ok_plain Suc_le_eq)

lemma dec_enc_transaction: "tx_ok tx \<Longrightarrow> dec_transaction (enc_transaction tx) = Inr (wire_form tx)"
  by (simp add: dec_transaction_def dec_transaction_into_def enc_transaction_def transaction_field_def wire_form_def
      zero_transaction_def tx_ok_def decode_struct_def plain_name_def)

section \<open>Payload types\<close>

record transfer_payload =
  tp_To :: bytes
  tp_Amount :: uint64

definition transfer_field :: "bytes \<Rightarrow> json \<Rightarrow> transfer_payload \<Rightarrow> transfer_payload result" where
  "transfer_field k v p =
     (if k = ''to'' then map_result (\<lambda>x. p\<lparr>tp_To := x\<rparr>) (dec_string (tp_To p) v)
      else map_result (\<lambda>x. p\<lparr>tp_Amount := x\<rparr>) (dec_uint64 (tp_Amount p) v))"

definition dec_transfer :: "json \<Rightarrow> transfer_payload result" where
  "dec_transfer = decode_struct [''to'', ''amount''] transfer_field \<lparr>tp_To = [], tp_Amount = 0\<rparr>"

record mint_payload =
  mp_TemplateID :: bytes
  mp_Owner :: bytes
  mp_Properties :: anymap

definition mint_field :: "(bytes \<Rightarrow> bytes option) \<Rightarrow> bytes \<Rightarrow> json \<Rightarrow> mint_payload \<Rightarrow> mint_payload result" where
  "mint_field fn k v p =
     (if k = ''template_id'' then map_result (\<lambda>x. p\<lparr>mp_TemplateID := x\<rparr>) (dec_string (mp_TemplateID p) v)
      else if k = ''owner'' then map_result (\<lambda>x. p\<lparr>mp_Owner := x\<rparr>) (dec_string (mp_Owner p) v)
      else map_result (\<lambda>x. p\<lparr>mp_Properties := x\<rparr>) (dec_anymap fn (mp_Properties p) v))"

definition dec_mint :: "(bytes \<Rightarrow> bytes option) \<Rightarrow> json \<Rightarrow> mint_payload result" where
  "dec_mint fn = decode_struct [''template_id'', ''owner'', ''properties''] (mint_field fn)
     \<lparr>mp_TemplateID = [], mp_Owner = [], mp_Properties = None\<rparr>"

record burn_payload =
  bp_AssetID :: bytes

definition burn_field :: "bytes \<Rightarrow> json \<Rightarrow> burn_payload \<Rightarrow> burn_payload result" where
  "burn_field k v p = map_result (\<lambda>x. p\<lparr>bp_AssetID := x\<rparr>) (dec_string (bp_AssetID p) v)"

definition dec_burn :: "json \<Rightarrow> burn_payload result" where
  "dec_burn = decode_struct [''asset_id''] burn_field \<lparr>bp_AssetID = []\<rparr>"

record transfer_asset_payload =
  ap_AssetID :: bytes
  ap_To :: bytes

definition transfer_asset_field :: "bytes \<Rightarrow> json \<Rightarrow> transfer_asset_payload \<Rightarrow> transfer_asset_payload result" where
  "transfer_asset_field k v p =
     (if k = ''asset_id'' then map_result (\<lambda>x. p\<lparr>ap_AssetID := x\<rparr>) (dec_string (ap_AssetID p) v)
      else map_result (\<lambda>x. p\<lparr>ap_To := x\<rparr>) (dec_string (ap_To p) v))"

definition dec_transfer_asset :: "json \<Rightarrow> transfer_asset_payload result" where
  "dec_transfer_asset = decode_struct [''asset_id'', ''to''] transfer_asset_field \<lparr>ap_AssetID = [], ap_To = []\<rparr>"

record template_payload =
  rp_ID :: bytes
  rp_Name :: bytes
  rp_Schema :: anymap
  rp_Tradeable :: bool

definition register_field :: "(bytes \<Rightarrow> bytes option) \<Rightarrow> bytes \<Rightarrow> json \<Rightarrow> template_payload \<Rightarrow> template_payload result" where
  "register_field fn k v p =
     (if k = ''id'' then map_result (\<lambda>x. p\<lparr>rp_ID := x\<rparr>) (dec_string (rp_ID p) v)
      else if k = ''name'' then map_result (\<lambda>x. p\<lparr>rp_Name := x\<rparr>) (dec_string (rp_Name p) v)
      else if k = ''schema'' then map_result (\<lambda>x. p\<lparr>rp_Schema := x\<rparr>) (dec_anymap fn (rp_Schema p) v)
      else map_result (\<lambda>x. p\<lparr>rp_Tradeable := x\<rparr>) (dec_bool (rp_Tradeable p) v))"

definition dec_register :: "(bytes \<Rightarrow> bytes option) \<Rightarrow> json \<Rightarrow> template_payload result" where
  "dec_register fn = decode_struct [''id'', ''name'', ''schema'', ''tradeable''] (register_field fn)
     \<lparr>rp_ID = [], rp_Name = [], rp_Schema = None, rp_Tradeable = False\<rparr>"

record session_open_payload =
  sp_SessionID :: bytes
  sp_GameID :: bytes
  sp_Players :: "bytes list"
  sp_Stakes :: uint64

definition session_open_field :: "bytes \<Rightarrow> json \<Rightarrow> session_open_payload \<Rightarrow> session_open_payload result" where
  "session_open_field k v p =
     (if k = ''session_id'' then map_result (\<lambda>x. p\<lparr>sp_SessionID := x\<rparr>) (dec_string (sp_SessionID p) v)
      else if k = ''game_id'' then map_result (\<lambda>x. p\<lparr>sp_GameID := x\<rparr>) (dec_string (sp_GameID p) v)
      else if k = ''players'' then map_result (\<lambda>x. p\<lparr>sp_Players := x\<rparr>) (dec_strings (sp_Players p) v)
      else map_result (\<lambda>x. p\<lparr>sp_Stakes := x\<rparr>) (dec_uint64 (sp_Stakes p) v))"

definition dec_session_open :: "json \<Rightarrow> session_open_payload result" where
  "dec_session_open = decode_struct [''session_id'', ''game_id'', ''players'', ''stakes''] session_open_field
     \<lparr>sp_SessionID = [], sp_GameID = [], sp_Players = [], sp_Stakes = 0\<rparr>"

record session_result_payload =
  sr_SessionID :: bytes
  sr_Outcome :: "uint64 gomap option"

definition session_result_field :: "bytes \<Rightarrow> json \<Rightarrow> session_result_payload \<Rightarrow> session_result_payload result" where
  "session_result_field k v p =
     (if k = ''session_id'' then map_result (\<lambda>x. p\<lparr>sr_SessionID := x\<rparr>) (dec_string (sr_SessionID p) v)
      else map_result (\<lambda>x. p\<lparr>sr_Outcome := x\<rparr>) (dec_u64_map (sr_Outcome p) v))"

definition dec_session_result :: "json \<Rightarrow> session_result_payload result" where
  "dec_session_result = decode_struct [''session_id'', ''outcome''] session_result_field
     \<lparr>sr_SessionID = [], sr_Outcome = None\<rparr>"

record list_payload =
  lp_AssetID :: bytes
  lp_Price :: uint64

definition list_field :: "bytes \<Rightarrow> json \<Rightarrow> list_payload \<Rightarrow> list_payload result" where
  "list_field k v p =
     (if k = ''asset_id'' then map_result (\<lambda>x. p\<lparr>lp_AssetID := x\<rparr>) (dec_string (lp_AssetID p) v)
      else map_result (\<lambda>x. p\<lparr>lp_Price := x\<rparr>) (dec_uint64 (lp_Price p) v))"

definition dec_list_market :: "json \<Rightarrow> list_payload result" where
  "dec_list_market = decode_struct [''asset_id'', ''price''] list_field \<lparr>lp_AssetID = [], lp_Price = 0\<rparr>"

record buy_payload =
  up_ListingID :: bytes

definition buy_field :: "bytes \<Rightarrow> json \<Rightarrow> buy_payload \<Rightarrow> buy_payload result" where
  "buy_field k v p = map_result (\<lambda>x. p\<lparr>up_ListingID := x\<rparr>) (dec_string (up_ListingID p) v)"

definition dec_buy_market :: "json \<Rightarrow> buy_payload result" where
  "dec_buy_market = decode_struct [''listing_id''] buy_field \<lparr>up_ListingID = []\<rparr>"

text \<open>Decoded payloads hold valid UTF-8.\<close>

lemmas payload_defs =
  dec_transfer_def transfer_field_def dec_mint_def mint_field_def dec_burn_def burn_field_def
  dec_transfer_asset_def transfer_asset_field_def dec_register_def register_field_def
  dec_session_open_def session_open_field_def dec_session_result_def session_result_field_def
  dec_list_market_def list_field_def dec_buy_market_def buy_field_def

lemma unmarshal_raw_Inr:
  "unmarshal_raw dec p = Inr a \<longleftrightarrow> (\<exists>j. p = Some j \<and> raw_valid j \<and> dec j = Inr a)"
  by (auto simp: unmarshal_raw_def split: option.splits if_splits)

lemma dec_transfer_utf8: "dec_transfer j = Inr p \<Longrightarrow> utf8_ok (tp_To p)"
  unfolding dec_transfer_def
  by (erule decode_struct_inv)
    (auto simp: transfer_field_def map_result_Inr dec_string_utf8 split: if_splits)

lemma dec_burn_utf8: "dec_burn j = Inr p \<Longrightarrow> utf8_ok (bp_AssetID p)"
  unfolding dec_burn_def
  by (erule decode_struct_inv) (auto simp: burn_field_def map_result_Inr dec_string_utf8)

lemma dec_transfer_asset_utf8: "dec_transfer_asset j = Inr p \<Longrightarrow> utf8_ok (ap_AssetID p) \<and> utf8_ok (ap_To p)"
  unfolding dec_transfer_asset_def
  by (erule decode_struct_inv)
    (auto simp: transfer_asset_field_def map_result_Inr dec_string_utf8 split: if_splits)

lemma dec_session_open_utf8:
  "dec_session_open j = Inr p \<Longrightarrow>
     utf8_ok (sp_SessionID p) \<and> utf8_ok (sp_GameID p) \<and> (\<forall>q\<in>set (sp_Players p). utf8_ok q)"
  unfolding dec_session_open_def
  by (erule decode_struct_inv)
    (auto simp: session_open_field_def map_result_Inr dec_string_utf8 dec_strings_utf8 split: if_splits)

lemma map_utf8_None [simp]: "map_utf8 None"
  by (simp add: map_utf8_def)

lemma dec_session_result_utf8:
  "dec_session_result j = Inr p \<Longrightarrow> utf8_ok (sr_SessionID p) \<and> map_utf8 (sr_Outcome p)"
  unfolding dec_session_result_def
  by (erule decode_struct_inv)
    (auto simp: session_result_field_def map_result_Inr dec_string_utf8 dec_u64_map_utf8
      split: if_splits)

lemma dec_list_market_utf8: "dec_list_market j = Inr p \<Longrightarrow> utf8_ok (lp_AssetID p)"
  unfolding dec_list_market_def
  by (erule decode_struct_inv)
    (auto simp: list_field_def map_result_Inr dec_string_utf8 split: if_splits)

lemma dec_buy_market_utf8: "dec_buy_market j = Inr p \<Longrightarrow> utf8_ok (up_ListingID p)"
  unfolding dec_buy_market_def
  by (erule decode_struct_inv) (auto simp: buy_field_def map_result_Inr dec_string_utf8)

lemma decode_fields_valid:
  assumes "decode_fields names f ms a = Inr b" "P a"
    and "members_ok ms" "members_depth ms < max_nesting"
    and "\<And>n v x y. f n v x = Inr y \<Longrightarrow> json_ok v \<Longrightarrow> jdepth v < max_nesting \<Longrightarrow> P x \<Longrightarrow> P y"
  shows "P b"
  using assms(1-4)
proof (induction ms arbitrary: a)
  case (Cons m ms)
  show ?case
  proof (cases "match_field names (unquote_go (fst m))")
    case None
    with Cons show ?thesis by simp
  next
    case (Some n)
    with Cons.prems(1) obtain c where c: "f n (snd m) a = Inr c" "decode_fields names f ms c = Inr b"
      by (auto simp: bind_result_Inr)
    have "P c" using assms(5) [OF c(1)] Cons.prems(2-4) by simp
    with Cons.IH [OF c(2)] Cons.prems(3,4) show ?thesis by simp
  qed
qed simp

lemma decode_struct_valid:
  assumes "decode_struct names f a j = Inr b" "P a" "raw_valid j"
    and "\<And>n v x y. f n v x = Inr y \<Longrightarrow> json_ok v \<Longrightarrow> jdepth v < max_nesting \<Longrightarrow> P x \<Longrightarrow> P y"
  shows "P b"
proof (cases j)
  case (JObj ms)
  with assms show ?thesis
    using decode_fields_valid [of names f ms a b P]
    by (simp add: decode_struct_def raw_valid_def Suc_le_eq)
qed (use assms in \<open>simp_all add: decode_struct_def\<close>)

definition anymap_valid :: "(bytes \<Rightarrow> bytes option) \<Rightarrow> anymap \<Rightarrow> bool" where
  "anymap_valid fn m \<longleftrightarrow> anymap_ok fn m \<and> jdepth (enc_anymap m) < max_nesting"

lemma anymap_valid_None [simp]: "anymap_valid fn None"
  by (simp add: anymap_valid_def anymap_ok_def enc_anymap_def max_nesting_def)

lemma dec_anymap_depth:
  assumes "dec_anymap fn old j = Inr m" "jdepth j < max_nesting" "jdepth (enc_anymap old) < max_nesting"
  shows "jdepth (enc_anymap m) < max_nesting"
proof (cases j)
  case (JObj ms)
  define acc where "acc = (case old of None \<Rightarrow> [] | Some es \<Rightarrow> es)"
  obtain es where es: "dec_any_members fn ms acc = Inr es" "m = Some es"
    using assms(1) JObj by (auto simp: dec_anymap_def map_result_Inr acc_def split: option.splits)
  have "members_depth ms \<le> max_nesting - 2" "members_depth (enc_any_members acc) \<le> max_nesting - 2"
    using assms(2,3) JObj by (auto simp: max_nesting_def acc_def enc_anymap_def split: option.splits)
  then have "members_depth (enc_any_members es) \<le> max_nesting - 2"
    using dec_any_depth(3) [OF es(1)] by blast
  then show ?thesis using es(2) by (simp add: enc_anymap_def max_nesting_def)
qed (use assms in \<open>simp_all add: dec_anymap_def enc_anymap_def max_nesting_def\<close>)

lemma dec_anymap_valid:
  assumes "float_law fn" "json_ok j" "jdepth j < max_nesting" "anymap_valid fn old"
    "dec_anymap fn old j = Inr m"
  shows "anymap_valid fn m"
  using assms dec_anymap_ok dec_anymap_depth unfolding anymap_valid_def by blast

lemma dec_mint_valid:
  assumes "float_law fn" "raw_valid j" "dec_mint fn j = Inr p"
  shows "utf8_ok (mp_TemplateID p) \<and> utf8_ok (mp_Owner p) \<and> anymap_valid fn (mp_Properties p)"
  using assms(3) unfolding dec_mint_def
proof (rule decode_struct_valid)
  fix n v and x y :: mint_payload
  assume "mint_field fn n v x = Inr y" "json_ok v" "jdepth v < max_nesting"
    "utf8_ok (mp_TemplateID x) \<and> utf8_ok (mp_Owner x) \<and> anymap_valid fn (mp_Properties x)"
  then show "utf8_ok (mp_TemplateID y) \<and> utf8_ok (mp_Owner y) \<and> anymap_valid fn (mp_Properties y)"
    by (auto simp: mint_field_def map_result_Inr dec_string_utf8 split: if_splits
        intro: dec_anymap_valid [OF assms(1)])
qed (use assms(2) in simp_all)

lemma dec_register_valid:
  assumes "float_law fn" "raw_valid j" "dec_register fn j = Inr p"
  shows "utf8_ok (rp_ID p) \<and> utf8_ok (rp_Name p) \<and> anymap_valid fn (rp_Schema p)"
  using assms(3) unfolding dec_register_def
proof (rule decode_struct_valid)
  fix n v and x y :: template_payload
  assume "register_field fn n v x = Inr y" "json_ok v" "jdepth v < max_nesting"
    "utf8_ok (rp_ID x) \<and> utf8_ok (rp_Name x) \<and> anymap_valid fn (rp_Schema x)"
  then show "utf8_ok (rp_ID y) \<and> utf8_ok (rp_Name y) \<and> anymap_valid fn (rp_Schema y)"
    by (auto simp: register_field_def map_result_Inr dec_string_utf8 split: if_splits
        intro: dec_anymap_valid [OF assms(1)])
qed (use assms(2) in simp_all)

lemma dec_transaction_into_ok:
  assumes "raw_valid j" "tx_ok old" "dec_transaction_into old j = Inr tx"
  shows "tx_ok tx"
  using assms(3) unfolding dec_transaction_into_def
proof (rule decode_struct_valid)
  fix n v and x y :: transaction
  assume "transaction_field n v x = Inr y" "json_ok v" "jdepth v < max_nesting" "tx_ok x"
  then show "tx_ok y"
    by (auto simp: transaction_field_def map_result_Inr dec_string_utf8 dec_int64_range tx_ok_def split: if_splits)
qed (use assms(1,2) in simp_all)

lemma zero_transaction_ok [simp]: "tx_ok zero_transaction"
  by (simp add: tx_ok_def zero_transaction_def in_int64_def)

lemma dec_transaction_ok: "raw_valid j \<Longrightarrow> dec_transaction j = Inr tx \<Longrightarrow> tx_ok tx"
  using dec_transaction_into_ok [of j zero_transaction] by (simp add: dec_transaction_def)

end
