(* ===== verification/Block.thy ===== *)
theory Block
  imports Transaction
begin

text \<open>
  \<open>core/block.go\<close>: block headers, the header hash, the transaction root (length-prefixed
  transaction IDs), signing and verification, and the JSON form blocks are stored and sent in.
\<close>

section \<open>Blocks\<close>

record header =
  hdr_ChainID :: bytes
  hdr_Height :: int64
  hdr_PrevHash :: bytes
  hdr_StateRoot :: bytes
  hdr_TxRoot :: bytes
  hdr_Timestamp :: int64
  hdr_Proposer :: bytes

record block =
  blk_Header :: header
  blk_Transactions :: "transaction list"
  blk_Hash :: bytes
  blk_Signature :: bytes

definition enc_header :: "header \<Rightarrow> json" where
  "enc_header h = JObj
     [(''chain_id'', enc_string (hdr_ChainID h)),
      (''height'', enc_int64 (hdr_Height h)),
      (''prev_hash'', enc_string (hdr_PrevHash h)),
      (''state_root'', enc_string (hdr_StateRoot h)),
      (''tx_root'', enc_string (hdr_TxRoot h)),
      (''timestamp'', enc_int64 (hdr_Timestamp h)),
      (''proposer'', enc_string (hdr_Proposer h))]"

definition ComputeHash :: "env \<Rightarrow> block \<Rightarrow> bytes" where
  "ComputeHash E b = Hash E (marshal enc_header (blk_Header b))"

definition blk_Sign :: "env \<Rightarrow> bytes \<Rightarrow> block \<Rightarrow> block" where
  "blk_Sign E priv b =
     (let b' = b\<lparr>blk_Hash := ComputeHash E b\<rparr>
      in b'\<lparr>blk_Signature := Sign E priv (blk_Hash b')\<rparr>)"

definition blk_Verify :: "env \<Rightarrow> bytes \<Rightarrow> block \<Rightarrow> unit result" where
  "blk_Verify E pub b =
     (if blk_Hash b \<noteq> ComputeHash E b then Inl (Errorf ''block hash mismatch'')
      else Verify E pub (blk_Hash b) (blk_Signature b))"

text \<open>The text hashed into the transaction root.\<close>

definition tx_root_text :: "transaction list \<Rightarrow> bytes" where
  "tx_root_text txs =
     (if txs = [] then ''empty''
      else foldl (\<lambda>buf tx. let id = tx_ID tx in buf @ be32 (length id) @ id) [] txs)"

definition ComputeTxRoot :: "env \<Rightarrow> transaction list \<Rightarrow> bytes" where
  "ComputeTxRoot E txs = Hash E (tx_root_text txs)"

definition VerifyIntegrity :: "env \<Rightarrow> block \<Rightarrow> unit result" where
  "VerifyIntegrity E b =
     (if blk_Hash b \<noteq> ComputeHash E b then Inl (Errorf ''block hash mismatch'')
      else if hdr_TxRoot (blk_Header b) \<noteq> ComputeTxRoot E (blk_Transactions b)
      then Inl (Errorf ''tx_root mismatch'')
      else Inr ())"

definition NewBlock :: "env \<Rightarrow> bytes \<Rightarrow> int64 \<Rightarrow> bytes \<Rightarrow> bytes \<Rightarrow> transaction list \<Rightarrow> int64 \<Rightarrow> block" where
  "NewBlock E chainID height prevHash proposer txs now =
     \<lparr>blk_Header = \<lparr>hdr_ChainID = chainID, hdr_Height = height, hdr_PrevHash = prevHash, hdr_StateRoot = [],
        hdr_TxRoot = ComputeTxRoot E txs, hdr_Timestamp = now, hdr_Proposer = proposer\<rparr>,
      blk_Transactions = txs, blk_Hash = [], blk_Signature = []\<rparr>"

definition header_ok :: "header \<Rightarrow> bool" where
  "header_ok h \<longleftrightarrow>
     utf8_ok (hdr_ChainID h) \<and> in_int64 (hdr_Height h) \<and> utf8_ok (hdr_PrevHash h) \<and>
     utf8_ok (hdr_StateRoot h) \<and> utf8_ok (hdr_TxRoot h) \<and> in_int64 (hdr_Timestamp h) \<and>
     utf8_ok (hdr_Proposer h)"

section \<open>What the hashes commit to\<close>

lemma enc_header_json [simp]: "json_ok (enc_header h)" "jdepth (enc_header h) = 1"
  by (simp_all add: enc_header_def struct_simps)

lemma marshal_header_inject:
  "header_ok h \<Longrightarrow> header_ok k \<Longrightarrow> marshal enc_header h = marshal enc_header k \<longleftrightarrow> h = k"
proof -
  assume ok: "header_ok h" "header_ok k"
  then have "enc_header h = enc_header k \<longleftrightarrow> h = k"
    by (auto simp: enc_header_def header_ok_def)
  then show ?thesis
    unfolding marshal_def using print_json_inject [OF enc_header_json(1) enc_header_json(1)] by metis
qed

lemma foldl_len_prefix:
  "foldl (\<lambda>buf tx. let id = tx_ID tx in buf @ be32 (length id) @ id) buf txs =
     buf @ concat (map (len_prefix \<circ> tx_ID) txs)"
  by (induction txs arbitrary: buf) (simp_all add: len_prefix_def Let_def)

lemma tx_root_text_concat:
  "txs \<noteq> [] \<Longrightarrow> tx_root_text txs = concat (map len_prefix (map tx_ID txs))"
  by (simp add: tx_root_text_def foldl_len_prefix comp_def)

lemma concat_len_prefix_not_empty: "\<forall>s\<in>set ss. fits32 s \<Longrightarrow> concat (map len_prefix ss) \<noteq> ''empty''"
proof
  assume fits: "\<forall>s\<in>set ss. fits32 s" and eq: "concat (map len_prefix ss) = ''empty''"
  then obtain s ts where ss: "ss = s # ts" by (cases ss) auto
  with eq have "be32 (length s) @ (s @ concat (map len_prefix ts)) = ''empt'' @ ''y''"
    by (simp add: len_prefix_def)
  then have b: "be32 (length s) = ''empt''" and "s @ concat (map len_prefix ts) = ''y''"
    by (subst (asm) append_eq_append_conv; simp)+
  then have "length s \<le> 1" by (metis append_is_Nil_conv length_append le_add1 length_Cons list.size(3) One_nat_def)
  moreover have "from_be32 (be32 (length s)) = length s"
    using fits ss by (intro from_be32_be32) (simp add: fits32_def)
  ultimately show False unfolding b by (simp add: from_be32_def)
qed

lemma tx_root_text_inject:
  assumes "\<forall>t\<in>set ts. fits32 (tx_ID t)" "\<forall>u\<in>set us. fits32 (tx_ID u)"
    and "tx_root_text ts = tx_root_text us"
  shows "map tx_ID ts = map tx_ID us"
proof (cases "ts = [] \<or> us = []")
  case True
  have e: "tx_root_text [] = ''empty''" by (simp add: tx_root_text_def)
  have n: "xs = []" if "\<forall>t\<in>set xs. fits32 (tx_ID t)" "tx_root_text xs = ''empty''" for xs
    using that concat_len_prefix_not_empty [of "map tx_ID xs"] tx_root_text_concat [of xs] by force
  from True show ?thesis
    using n [OF assms(1)] n [OF assms(2)] assms(3) e by metis
next
  case False
  then show ?thesis
    using assms concat_len_prefix_inject [of "map tx_ID ts" "map tx_ID us"]
    by (simp add: tx_root_text_concat)
qed

lemma VerifyIntegrity_Inr:
  "VerifyIntegrity E b = Inr u \<longleftrightarrow>
     blk_Hash b = ComputeHash E b \<and> hdr_TxRoot (blk_Header b) = ComputeTxRoot E (blk_Transactions b)"
  by (simp add: VerifyIntegrity_def)

lemma blk_Verify_Inr:
  "blk_Verify E pub b = Inr u \<longleftrightarrow>
     blk_Hash b = ComputeHash E b \<and> Verify E pub (blk_Hash b) (blk_Signature b) = Inr u"
  by (simp add: blk_Verify_def)

lemma blk_Sign_simps [simp]:
  "blk_Header (blk_Sign E priv b) = blk_Header b"
  "blk_Transactions (blk_Sign E priv b) = blk_Transactions b"
  "blk_Hash (blk_Sign E priv b) = ComputeHash E b"
  "ComputeHash E (blk_Sign E priv b) = ComputeHash E b"
  "blk_Signature (blk_Sign E priv b) = Sign E priv (ComputeHash E b)"
  by (simp_all add: blk_Sign_def Let_def ComputeHash_def)

end
