(* ===== verification/KVStore.thy ===== *)
theory KVStore
  imports Block
begin

text \<open>
  \<open>storage/db.go\<close>: the key-value interface the node is built on, with the contract its clients rely
  on (locale \<open>kv_db\<close>); the in-memory implementation of \<open>internal/testutil/memdb.go\<close> and the LevelDB
  wrapper of \<open>storage/leveldb.go\<close> as interpretations of it.
\<close>

section \<open>The interface\<close>

datatype batch_op = BatchSet bytes bytes | BatchDelete bytes

text \<open>
  The methods of \<open>DB\<close> over a state \<open>'d\<close>. A batch is the list of its operations, in the order they
  were added; \<open>DB_Write\<close> is \<open>Batch.Write\<close>. An iterator is the list of the pairs it yields
  and what \<open>Error()\<close> then returns.
\<close>

record 'd db_iface =
  DB_Get :: "'d \<Rightarrow> bytes \<Rightarrow> bytes result"
  DB_Set :: "'d \<Rightarrow> bytes \<Rightarrow> bytes \<Rightarrow> 'd \<times> unit result"
  DB_Delete :: "'d \<Rightarrow> bytes \<Rightarrow> 'd \<times> unit result"
  DB_Iter :: "'d \<Rightarrow> bytes \<Rightarrow> (bytes \<times> bytes) list \<times> unit result"
  DB_Write :: "'d \<Rightarrow> batch_op list \<Rightarrow> 'd \<times> unit result"

fun apply_op :: "batch_op \<Rightarrow> (bytes \<rightharpoonup> bytes) \<Rightarrow> (bytes \<rightharpoonup> bytes)" where
  "apply_op (BatchSet k v) m = m(k \<mapsto> v)"
| "apply_op (BatchDelete k) m = m(k := None)"

definition has_prefix :: "bytes \<Rightarrow> bytes \<Rightarrow> bool" where
  "has_prefix p k \<longleftrightarrow> take (length p) k = p"

text \<open>
  The contract. \<open>\<alpha> d\<close> is the map the store holds. A read may fail; when it answers, it answers with
  the entry, and \<open>ErrNotFound\<close> means there is none. A write or a batch takes effect as a whole when it
  succeeds and not at all when it fails. An iterator without error yields the entries with the prefix.
\<close>

locale kv_db =
  fixes I :: "'d db_iface" and \<alpha> :: "'d \<Rightarrow> bytes \<rightharpoonup> bytes"
  assumes finite_store: "finite (dom (\<alpha> d))"
    and get_found: "DB_Get I d k = Inr v \<Longrightarrow> \<alpha> d k = Some v"
    and get_missing: "DB_Get I d k = Inl ErrNotFound \<Longrightarrow> \<alpha> d k = None"
    and set_ok: "DB_Set I d k v = (d', Inr u) \<Longrightarrow> \<alpha> d' = (\<alpha> d)(k \<mapsto> v)"
    and set_error: "DB_Set I d k v = (d', Inl e) \<Longrightarrow> \<alpha> d' = \<alpha> d"
    and delete_ok: "DB_Delete I d k = (d', Inr u) \<Longrightarrow> \<alpha> d' = (\<alpha> d)(k := None)"
    and delete_error: "DB_Delete I d k = (d', Inl e) \<Longrightarrow> \<alpha> d' = \<alpha> d"
    and write_ok: "DB_Write I d ops = (d', Inr u) \<Longrightarrow> \<alpha> d' = fold apply_op ops (\<alpha> d)"
    and write_error: "DB_Write I d ops = (d', Inl e) \<Longrightarrow> \<alpha> d' = \<alpha> d"
    and iter_ok: "DB_Iter I d p = (kvs, Inr u) \<Longrightarrow>
      distinct (map fst kvs) \<and> map_of kvs = (\<alpha> d) |` {k. has_prefix p k}"

text \<open>The reads and iterations of a store that reports no I/O error.\<close>

definition db_healthy :: "'d db_iface \<Rightarrow> 'd \<Rightarrow> bool" where
  "db_healthy I d \<longleftrightarrow>
     (\<forall>k e. DB_Get I d k = Inl e \<longrightarrow> e = ErrNotFound) \<and> (\<forall>p. snd (DB_Iter I d p) = Inr ())"

context kv_db
begin

lemma healthy_get: "db_healthy I d \<Longrightarrow> DB_Get I d k = (case \<alpha> d k of None \<Rightarrow> Inl ErrNotFound | Some v \<Rightarrow> Inr v)"
  using get_found get_missing by (cases "DB_Get I d k") (fastforce simp: db_healthy_def)+

lemma healthy_iter:
  assumes "db_healthy I d"
  shows "distinct (map fst (fst (DB_Iter I d p)))" "map_of (fst (DB_Iter I d p)) = (\<alpha> d) |` {k. has_prefix p k}"
proof -
  have "DB_Iter I d p = (fst (DB_Iter I d p), Inr ())"
    using assms by (metis db_healthy_def surjective_pairing)
  from iter_ok [OF this] show "distinct (map fst (fst (DB_Iter I d p)))"
    "map_of (fst (DB_Iter I d p)) = (\<alpha> d) |` {k. has_prefix p k}"
    by blast+
qed

end

section \<open>The in-memory store\<close>

type_synonym mem_store = "bytes gomap"

definition mem_Get :: "mem_store \<Rightarrow> bytes \<Rightarrow> bytes result" where
  "mem_Get m key = (case fmlookup m key of None \<Rightarrow> Inl ErrNotFound | Some v \<Rightarrow> Inr v)"

definition mem_Set :: "mem_store \<Rightarrow> bytes \<Rightarrow> bytes \<Rightarrow> mem_store \<times> unit result" where
  "mem_Set m key value = (fmupd key value m, Inr ())"

definition mem_Delete :: "mem_store \<Rightarrow> bytes \<Rightarrow> mem_store \<times> unit result" where
  "mem_Delete m key = (fmdrop key m, Inr ())"

definition mem_NewIterator :: "env \<Rightarrow> mem_store \<Rightarrow> bytes \<Rightarrow> (bytes \<times> bytes) list \<times> unit result" where
  "mem_NewIterator E m p = (filter (\<lambda>(k, v). has_prefix p k) (range_map (range_order E 0) m), Inr ())"

fun mem_Write :: "mem_store \<Rightarrow> batch_op list \<Rightarrow> mem_store \<times> unit result" where
  "mem_Write m [] = (m, Inr ())"
| "mem_Write m (BatchSet k v # ops) = mem_Write (fmupd k v m) ops"
| "mem_Write m (BatchDelete k # ops) = mem_Write (fmdrop k m) ops"

definition MemDB :: "env \<Rightarrow> mem_store db_iface" where
  "MemDB E = \<lparr>DB_Get = mem_Get, DB_Set = mem_Set, DB_Delete = mem_Delete,
     DB_Iter = mem_NewIterator E, DB_Write = mem_Write\<rparr>"

lemma fmlookup_upd_drop:
  "fmlookup (fmupd k v m) = (fmlookup m)(k \<mapsto> v)" "fmlookup (fmdrop k m) = (fmlookup m)(k := None)"
  by (auto simp: fun_eq_iff)

lemma mem_Write_spec:
  "snd (mem_Write m ops) = Inr ()" "fmlookup (fst (mem_Write m ops)) = fold apply_op ops (fmlookup m)"
  by (induction m ops rule: mem_Write.induct) (simp_all add: fmlookup_upd_drop)

lemma map_of_filter_fst: "distinct (map fst kvs) \<Longrightarrow> map_of (filter (\<lambda>(k, v). P k) kvs) = map_of kvs |` {k. P k}"
  by (induction kvs) (auto simp: restrict_map_def fun_eq_iff map_of_eq_None_iff)

interpretation mem: kv_db "MemDB E" fmlookup
proof
  fix d :: mem_store and p kvs u
  assume "DB_Iter (MemDB E) d p = (kvs, Inr u)"
  then have "kvs = filter (\<lambda>(k, v). has_prefix p k) (range_map (range_order E 0) d)"
    by (simp add: MemDB_def mem_NewIterator_def)
  then show "distinct (map fst kvs) \<and> map_of kvs = fmlookup d |` {k. has_prefix p k}"
    by (simp add: map_of_filter_fst map_of_range_map distinct_range_map distinct_map_filter)
next
  fix d d' :: mem_store and ops u
  assume "DB_Write (MemDB E) d ops = (d', Inr u)"
  then show "fmlookup d' = fold apply_op ops (fmlookup d)"
    using mem_Write_spec(2) [of d ops] by (simp add: MemDB_def)
next
  fix d d' :: mem_store and ops e
  assume "DB_Write (MemDB E) d ops = (d', Inl e)"
  then show "fmlookup d' = fmlookup d"
    using mem_Write_spec(1) [of d ops] by (simp add: MemDB_def)
qed (auto simp: MemDB_def mem_Get_def mem_Set_def mem_Delete_def fun_eq_iff split: option.splits)

text \<open>A store that never reports an I/O error.\<close>

locale healthy_db = kv_db +
  assumes healthy: "db_healthy I d"

interpretation mem: healthy_db "MemDB E" fmlookup
  by unfold_locales
    (simp add: db_healthy_def MemDB_def mem_Get_def mem_NewIterator_def split: option.splits)

end
