(* ===== verification/JsonSound.thy ===== *)
theory JsonSound
  imports Json
begin

text \<open>
  What the JSON parser accepts: every tree it returns is well formed and within the nesting limit, so
  data that came through the parser can be printed and parsed again; a text nested deeper than the
  limit is rejected.
\<close>

section \<open>Scanned strings and numbers\<close>

lemma scan_str_sound: "scan_str s = Some (r, rest) \<Longrightarrow> raw_ok r"
proof (induction s arbitrary: r rest rule: scan_str.induct)
  case (2 c cs)
  note IH = 2(1-3) and scan = 2(4)
  consider "c = dquote" | "c = bslash" | "c \<noteq> dquote" "c \<noteq> bslash" by blast
  then show ?case
  proof cases
    case 1
    with scan show ?thesis by (simp add: raw_ok_def)
  next
    case 2
    with scan obtain d ds where cs: "cs = d # ds" by (cases cs) auto
    show ?thesis
    proof (cases "d \<in> set (dquote # bslash # ''/bfnrt'')")
      case True
      with 2 cs scan IH(1) [OF _ 2 cs True] show ?thesis by (auto simp: raw_ok_def)
    next
      case False
      with 2 cs scan obtain h1 h2 h3 h4 es where
        "d = CHR ''u''" "ds = h1 # h2 # h3 # h4 # es"
        "is_hex h1 \<and> is_hex h2 \<and> is_hex h3 \<and> is_hex h4"
        by (auto split: if_splits list.splits)
      with 2 cs False scan IH(2) [OF _ 2 cs False, of h1 _ h2 _ h3 _ h4 es] show ?thesis
        by (auto simp: raw_ok_def)
    qed
  next
    case 3
    with scan IH(3) show ?thesis by (auto simp: raw_ok_def split: if_splits)
  qed
qed simp

lemma scan_int_sound: "scan_int s = Some (i, r) \<Longrightarrow> scan_int i = Some (i, []) \<and> i \<noteq> [] \<and> (i = ''0'' \<or> list_all is_digit i)"
  by (auto simp: scan_int_def list_all_iff split: list.splits if_splits dest: set_takeWhileD)

lemma scan_frac_sound:
  "scan_frac s = Some (f, r) \<Longrightarrow> f = [] \<or> (\<exists>ds. f = CHR ''.'' # ds \<and> ds \<noteq> [] \<and> list_all is_digit ds)"
  by (auto simp: scan_frac_def list_all_iff split: list.splits if_splits dest: set_takeWhileD)

lemma scan_sign_sound: "scan_sign s = (g, r) \<Longrightarrow> g \<in> {[], ''+'', ''-''}"
  by (auto simp: scan_sign_def split: list.splits if_splits)

lemma takeWhile_digits_again:
  "takeWhile is_digit (takeWhile is_digit s) = takeWhile is_digit s" "dropWhile is_digit (takeWhile is_digit s) = []"
  using set_takeWhileD [of _ is_digit s] by (auto simp: takeWhile_eq_all_conv dropWhile_eq_Nil_conv)

lemma scan_sign_again:
  assumes "scan_sign s = (g, r)" "ds \<noteq> []" "is_digit (hd ds)"
  shows "scan_sign (g @ ds) = (g, ds)"
  using scan_sign_sound [OF assms(1)] assms(2,3) by (cases ds) (auto simp: scan_sign_def is_digit_def)

lemma hd_takeWhile_digit: "takeWhile is_digit s \<noteq> [] \<Longrightarrow> is_digit (hd (takeWhile is_digit s))"
  by (meson hd_in_set set_takeWhileD)

definition exp_start :: "bytes \<Rightarrow> bool" where
  "exp_start x \<longleftrightarrow> x = [] \<or> hd x = CHR ''e'' \<or> hd x = CHR ''E''"

lemma scan_exp_again:
  assumes "scan_exp s = Some (x, r)"
  shows "scan_exp x = Some (x, []) \<and> exp_start x"
proof (cases "x = []")
  case True
  then show ?thesis by (simp add: scan_exp_def exp_start_def)
next
  case False
  with assms obtain c cs g ds where s: "s = c # cs" "c = CHR ''e'' \<or> c = CHR ''E''" "scan_sign cs = (g, ds)"
    "takeWhile is_digit ds \<noteq> []" "x = c # g @ takeWhile is_digit ds"
    by (auto simp: scan_exp_def Let_def split: list.splits if_splits prod.splits)
  have "scan_sign (g @ takeWhile is_digit ds) = (g, takeWhile is_digit ds)"
    by (rule scan_sign_again [OF s(3,4) hd_takeWhile_digit [OF s(4)]])
  with s(2,4,5) show ?thesis
    by (auto simp: scan_exp_def exp_start_def takeWhile_digits_again Let_def)
qed

definition frac_start :: "bytes \<Rightarrow> bool" where
  "frac_start x \<longleftrightarrow> exp_start x \<or> hd x = CHR ''.''"

lemma digits_start:
  assumes "frac_start t" "list_all is_digit ds"
  shows "takeWhile is_digit (ds @ t) = ds" "dropWhile is_digit (ds @ t) = t"
proof -
  have "t = [] \<or> \<not> is_digit (hd t)" using assms(1) by (auto simp: frac_start_def exp_start_def is_digit_def)
  then have "takeWhile is_digit t = []" "dropWhile is_digit t = t" by (cases t; auto)+
  then show "takeWhile is_digit (ds @ t) = ds" "dropWhile is_digit (ds @ t) = t"
    using assms(2) by (simp_all add: takeWhile_append dropWhile_append list_all_iff)
qed

lemma exp_start_frac: "exp_start t \<Longrightarrow> frac_start t"
  by (simp add: frac_start_def)

lemma scan_frac_again:
  assumes "scan_frac s = Some (f, r)" "exp_start t"
  shows "scan_frac (f @ t) = Some (f, t) \<and> frac_start (f @ t)"
proof (cases "f = []")
  case True
  then show ?thesis using assms(2)
    by (cases t) (auto simp: scan_frac_def exp_start_def frac_start_def)
next
  case False
  with assms obtain ds where f: "f = CHR ''.'' # ds" "ds \<noteq> []" "list_all is_digit ds"
    by (auto dest: scan_frac_sound)
  then show ?thesis
    using digits_start [OF exp_start_frac [OF assms(2)] f(3)] by (simp add: scan_frac_def frac_start_def)
qed

lemma scan_int_again:
  assumes "scan_int s = Some (i, r)" "frac_start t"
  shows "scan_int (i @ t) = Some (i, t)"
  using assms(1)
proof (cases s)
  case (Cons c cs)
  have l: "list_all is_digit (takeWhile is_digit cs)" by (auto simp: list_all_iff dest: set_takeWhileD)
  show ?thesis
    using assms(1) Cons digits_start [OF assms(2) l] by (auto simp: scan_int_def split: if_splits)
qed (simp add: scan_int_def)

lemma scan_num_sound:
  assumes "scan_num s = Some (l, r)"
  shows "num_ok l"
proof -
  obtain g s1 i s2 f s3 x where p: "scan_minus s = (g, s1)" "scan_int s1 = Some (i, s2)" "scan_frac s2 = Some (f, s3)"
    "scan_exp s3 = Some (x, r)" "l = g @ i @ f @ x"
    using assms by (auto simp: scan_num_def split: prod.splits option.splits)
  have x: "scan_exp x = Some (x, [])" "exp_start x" using scan_exp_again [OF p(4)] by blast+
  have f: "scan_frac (f @ x) = Some (f, x)" "frac_start (f @ x)" using scan_frac_again [OF p(3) x(2)] by blast+
  have i: "scan_int (i @ f @ x) = Some (i, f @ x)" by (rule scan_int_again [OF p(2) f(2)])
  have "i \<noteq> []" "hd i \<noteq> CHR ''-''"
    using p(2) by (auto simp: scan_int_def is_digit_def split: list.splits if_splits)
  then have "scan_minus (g @ i @ f @ x) = (g, i @ f @ x)"
    using p(1) by (cases i) (auto simp: scan_minus_def split: list.splits if_splits)
  then show ?thesis using i f(1) x(1) p(5) by (simp add: num_ok_def scan_num_def)
qed

section \<open>Parsed trees\<close>

lemma scan_lit_sound: "scan_lit w v s = Some (j, r) \<Longrightarrow> j = v"
  by (simp add: scan_lit_def split: if_splits)

lemma parse_sound:
  "parse_val n d s = Some (v, r) \<Longrightarrow> json_ok v \<and> jdepth v \<le> d"
  "parse_elems n d s = Some (vs, r) \<Longrightarrow> elems_ok vs \<and> elems_depth vs \<le> d"
  "parse_members n d s = Some (ms, r) \<Longrightarrow> members_ok ms \<and> members_depth ms \<le> d"
proof (induction n d s and n d s and n d s arbitrary: v r and vs r and ms r
    rule: parse_val_parse_elems_parse_members.induct)
  case (2 n d s)
  then obtain c cs where c: "skip_ws s = c # cs"
    by (cases "skip_ws s") auto
  consider "c = CHR ''[''" | "c = CHR ''{''" | "c = dquote"
    | "c \<noteq> CHR ''[''" "c \<noteq> CHR ''{''" "c \<noteq> dquote" by blast
  then show ?case
  proof cases
    case 1
    with 2 c show ?thesis by (fastforce split: if_splits)
  next
    case 2
    with "2.IH" "2.prems" c show ?thesis by (fastforce split: if_splits)
  next
    case 3
    with "2.prems" c show ?thesis by (auto dest: scan_str_sound)
  next
    case 4
    with "2.prems" c show ?thesis by (auto split: if_splits dest!: scan_lit_sound scan_num_sound)
  qed
next
  case (4 n d s)
  then show ?case by (fastforce split: option.splits list.splits if_splits)
next
  case (6 n d s)
  then show ?case by (fastforce split: option.splits list.splits if_splits dest: scan_str_sound)
qed simp_all

lemma parse_json_sound: "parse_json s = Some j \<Longrightarrow> json_ok j \<and> jdepth j \<le> max_nesting"
  using parse_sound(1) [of "2 * length s + 2" max_nesting s j]
  by (auto simp: parse_json_def simp del: parse_val.simps split: option.splits if_splits)

section \<open>Texts nested too deep\<close>

lemma parse_deeper:
  "parse_val n d s = Some (v, r) \<Longrightarrow> d \<le> d' \<Longrightarrow> parse_val n d' s = Some (v, r)"
  "parse_elems n d s = Some (vs, r) \<Longrightarrow> d \<le> d' \<Longrightarrow> parse_elems n d' s = Some (vs, r)"
  "parse_members n d s = Some (ms, r) \<Longrightarrow> d \<le> d' \<Longrightarrow> parse_members n d' s = Some (ms, r)"
proof (induction n d s and n d s and n d s arbitrary: v r d' and vs r d' and ms r d'
    rule: parse_val_parse_elems_parse_members.induct)
  case (2 n d s)
  then obtain c cs where c: "skip_ws s = c # cs"
    by (cases "skip_ws s") auto
  have d': "d \<noteq> 0 \<Longrightarrow> d' \<noteq> 0 \<and> d - 1 \<le> d' - 1" using "2.prems"(2) by auto
  consider "c = CHR ''[''" | "c = CHR ''{''" | "c \<noteq> CHR ''[''" "c \<noteq> CHR ''{''" by blast
  then show ?case
  proof cases
    case 1
    with "2.prems"(1) c have "d \<noteq> 0" by (auto split: if_splits)
    with 1 "2.prems"(1) c d' "2.IH"(1) [OF c 1, of _ r "d' - 1"] show ?thesis
      by (auto split: if_splits)
  next
    case 2
    with "2.prems"(1) c have "d \<noteq> 0" by (auto split: if_splits)
    with 2 "2.prems"(1) c d' "2.IH"(2) [OF c _ 2, of _ r "d' - 1"] show ?thesis
      by (auto split: if_splits)
  next
    case 3
    with "2.prems" c show ?thesis by auto
  qed
next
  case (4 n d s)
  obtain v1 r1 c cs where v: "parse_val n d s = Some (v1, r1)" "skip_ws r1 = c # cs"
    using "4.prems"(1) by (auto split: option.splits list.splits)
  have "parse_val n d' s = Some (v1, r1)" by (rule "4.IH"(1) [OF v(1) "4.prems"(2)])
  with "4.prems"(1) v "4.IH"(2) [OF v(1) refl v(2) _ _ "4.prems"(2)] show ?case
    by (auto split: if_splits)
next
  case (6 n d s)
  obtain q ks k r1 col us where k: "skip_ws s = q # ks" "\<not> q \<noteq> dquote" "scan_str ks = Some (k, r1)"
    "skip_ws r1 = col # us" "\<not> col \<noteq> CHR '':''"
    using "6.prems"(1) by (auto split: option.splits list.splits if_splits)
  obtain v1 r2 c cs where v: "parse_val n d us = Some (v1, r2)" "skip_ws r2 = c # cs"
    using "6.prems"(1) k by (auto split: option.splits list.splits)
  have "parse_val n d' us = Some (v1, r2)" by (rule "6.IH"(1) [OF k(1-3) refl k(4,5) v(1) "6.prems"(2)])
  with "6.prems"(1) k v "6.IH"(2) [OF k(1-3) refl k(4,5) v(1) refl v(2) _ _ "6.prems"(2)] show ?case
    by (auto split: if_splits)
qed simp_all

theorem parse_json_too_deep:
  assumes "json_ok j" "max_nesting < jdepth j"
  shows "parse_json (print_json j) = None"
proof (cases "parse_val (2 * length (print_json j) + 2) max_nesting (print_json j)")
  case (Some vr)
  obtain v r where vr: "vr = (v, r)" by fastforce
  have "parse_val (2 * length (print_json j) + 2) (jdepth j) (print_json j @ []) = Some (j, [])"
    using assms by (intro parse_print_val(1)) simp_all
  moreover have "parse_val (2 * length (print_json j) + 2) (jdepth j) (print_json j) = Some (v, r)"
    using parse_deeper(1) [OF Some [unfolded vr]] assms(2) by simp
  ultimately have "v = j" by simp
  moreover have "jdepth v \<le> max_nesting" using parse_sound(1) Some vr by blast
  ultimately show ?thesis using assms(2) by simp
qed (simp add: parse_json_def)

section \<open>A tree prints no longer than the text it was read from\<close>

lemma scan_str_split: "scan_str s = Some (r, rest) \<Longrightarrow> s = r @ dquote # rest"
proof (induction s arbitrary: r rest rule: scan_str.induct)
  case (2 c cs)
  note IH = 2(1-3) and scan = 2(4)
  consider "c = dquote" | "c = bslash" | "c \<noteq> dquote" "c \<noteq> bslash" by blast
  then show ?case
  proof cases
    case 1
    with scan show ?thesis by simp
  next
    case 2
    with scan obtain d ds where cs: "cs = d # ds" by (cases cs) auto
    show ?thesis
    proof (cases "d \<in> set (dquote # bslash # ''/bfnrt'')")
      case True
      with 2 cs scan IH(1) [OF _ 2 cs True] show ?thesis by fastforce
    next
      case False
      with 2 cs scan obtain h1 h2 h3 h4 es where
        "d = CHR ''u''" "ds = h1 # h2 # h3 # h4 # es"
        "is_hex h1 \<and> is_hex h2 \<and> is_hex h3 \<and> is_hex h4"
        by (auto split: if_splits list.splits)
      with 2 cs False scan IH(2) [OF _ 2 cs False, of h1 _ h2 _ h3 _ h4 es] show ?thesis
        by fastforce
    qed
  next
    case 3
    with scan IH(3) show ?thesis by (fastforce split: if_splits)
  qed
qed simp

lemma scan_num_print:
  assumes "scan_num s = Some (l, r)"
  shows "length l + length r = length s"
proof -
  have i: "scan_int t = Some (a, b) \<Longrightarrow> t = a @ b" for t a b
    by (auto simp: scan_int_def split: list.splits if_splits)
  have f: "scan_frac t = Some (a, b) \<Longrightarrow> t = a @ b" for t a b
    by (auto simp: scan_frac_def split: list.splits if_splits)
  have g: "scan_sign t = (a, b) \<Longrightarrow> t = a @ b" for t a b
    by (auto simp: scan_sign_def split: list.splits if_splits)
  have e: "scan_exp t = Some (a, b) \<Longrightarrow> t = a @ b" for t a b
    using g by (auto simp: scan_exp_def Let_def split: list.splits if_splits prod.splits)
  have m: "scan_minus t = (a, b) \<Longrightarrow> t = a @ b" for t a b
    by (auto simp: scan_minus_def split: list.splits if_splits)
  have "s = l @ r" using assms by (auto simp: scan_num_def split: prod.splits option.splits dest!: i f e m)
  then show ?thesis by simp
qed

lemma scan_lit_print: "scan_lit w v s = Some (j, r) \<Longrightarrow> length (print_json v) = length w \<Longrightarrow> length (print_json j) + length r = length s"
  by (auto simp: scan_lit_def prefix_def split: if_splits)

lemma parse_print_length:
  "parse_val n d s = Some (v, r) \<Longrightarrow> length (print_json v) + length r \<le> length s"
  "parse_elems n d s = Some (vs, r) \<Longrightarrow> Suc (length (print_elems vs) + length r) \<le> length s"
  "parse_members n d s = Some (ms, r) \<Longrightarrow> Suc (length (print_members ms) + length r) \<le> length s"
proof (induction n d s and n d s and n d s arbitrary: v r and vs r and ms r
    rule: parse_val_parse_elems_parse_members.induct)
  case (2 n d s)
  then obtain c cs where c: "skip_ws s = c # cs" by (cases "skip_ws s") auto
  note len = skip_ws_Cons_length [OF c]
  have tl: "prefix [x] (skip_ws cs) \<Longrightarrow> Suc (Suc (length (tl (skip_ws cs)))) \<le> length s" for x
    using len length_skip_ws [of cs] by (cases "skip_ws cs") (auto simp del: length_skip_ws)
  consider "c = CHR ''[''" | "c = CHR ''{''" | "c = dquote"
    | "c \<noteq> CHR ''[''" "c \<noteq> CHR ''{''" "c \<noteq> dquote" by blast
  then show ?case
  proof cases
    case 1
    with 2 c tl len show ?thesis by (fastforce split: if_splits)
  next
    case 2
    with "2.IH" "2.prems" c tl len show ?thesis by (fastforce split: if_splits)
  next
    case 3
    with "2.prems" c len show ?thesis by (auto dest!: scan_str_split)
  next
    case 4
    have "length (print_json v) + length r \<le> length (c # cs)"
      using 4 "2.prems" c by (auto split: if_splits dest!: scan_lit_print scan_num_print)
    then show ?thesis
      using c length_skip_ws [of s] by (simp del: length_skip_ws)
  qed
next
  case (4 n d s)
  then show ?case
    by (fastforce split: option.splits list.splits if_splits dest!: skip_ws_Cons_length)
next
  case (6 n d s)
  then show ?case
    by (fastforce split: option.splits list.splits if_splits dest!: skip_ws_Cons_length scan_str_split)
qed simp_all

end
