(* ===== verification/BlockStore.thy ===== *)
theory BlockStore
  imports KVStore JsonSound
begin

text \<open>
  Blocks at rest: their JSON form, the interface \<open>BlockStore\<close> of \<open>core/blockchain.go\<close>, its LevelDB
  implementation (\<open>storage/leveldb.go\<close>) and the one in memory (\<open>internal/testutil/memdb.go\<close>).
\<close>

section \<open>Blocks as JSON\<close>

text \<open>
  A decoded \<open>*Block\<close> as it lies in memory: the transactions are a slice of pointers, which is nil after
  \<open>null\<close> and may hold nil elements.
\<close>

record stored_block =
  sb_Header :: header
  sb_Transactions :: "transaction option list option"
  sb_Hash :: bytes
  sb_Signature :: bytes

definition enc_ptr :: "('a \<Rightarrow> json) \<Rightarrow> 'a option \<Rightarrow> json" where
  "enc_ptr enc p = (case p of None \<Rightarrow> JNull | Some x \<Rightarrow> enc x)"

definition enc_slice :: "('a \<Rightarrow> json) \<Rightarrow> 'a list option \<Rightarrow> json" where
  "enc_slice enc xs = (case xs of None \<Rightarrow> JNull | Some ys \<Rightarrow> JArr (map enc ys))"

definition dec_ptr :: "('a \<Rightarrow> json \<Rightarrow> 'a result) \<Rightarrow> 'a \<Rightarrow> 'a option \<Rightarrow> json \<Rightarrow> 'a option result" where
  "dec_ptr dec zero old j =
     (if j = JNull then Inr None
      else map_result Some (dec (case old of None \<Rightarrow> zero | Some x \<Rightarrow> x) j))"

fun dec_ptr_elems :: "('a \<Rightarrow> json \<Rightarrow> 'a result) \<Rightarrow> 'a \<Rightarrow> 'a option list \<Rightarrow> json list \<Rightarrow> 'a option list result" where
  "dec_ptr_elems dec zero old [] = Inr []"
| "dec_ptr_elems dec zero old (v # vs) =
     bind_result (dec_ptr dec zero (case old of [] \<Rightarrow> None | x # _ \<Rightarrow> x) v)
       (\<lambda>p. map_result (\<lambda>ps. p # ps) (dec_ptr_elems dec zero (tl old) vs))"

definition dec_ptrs ::
  "('a \<Rightarrow> json \<Rightarrow> 'a result) \<Rightarrow> 'a \<Rightarrow> 'a option list option \<Rightarrow> json \<Rightarrow> 'a option list option result" where
  "dec_ptrs dec zero old j =
     (case j of
        JNull \<Rightarrow> Inr None
      | JArr vs \<Rightarrow> map_result Some (dec_ptr_elems dec zero (case old of None \<Rightarrow> [] | Some xs \<Rightarrow> xs) vs)
      | _ \<Rightarrow> Inl JSONError)"

definition zero_header :: header where
  "zero_header = \<lparr>hdr_ChainID = [], hdr_Height = 0, hdr_PrevHash = [], hdr_StateRoot = [], hdr_TxRoot = [],
     hdr_Timestamp = 0, hdr_Proposer = []\<rparr>"

definition header_field :: "bytes \<Rightarrow> json \<Rightarrow> header \<Rightarrow> header result" where
  "header_field k v h =
     (if k = ''chain_id'' then map_result (\<lambda>x. h\<lparr>hdr_ChainID := x\<rparr>) (dec_string (hdr_ChainID h) v)
      else if k = ''height'' then map_result (\<lambda>x. h\<lparr>hdr_Height := x\<rparr>) (dec_int64 (hdr_Height h) v)
      else if k = ''prev_hash'' then map_result (\<lambda>x. h\<lparr>hdr_PrevHash := x\<rparr>) (dec_string (hdr_PrevHash h) v)
      else if k = ''state_root'' then map_result (\<lambda>x. h\<lparr>hdr_StateRoot := x\<rparr>) (dec_string (hdr_StateRoot h) v)
      else if k = ''tx_root'' then map_result (\<lambda>x. h\<lparr>hdr_TxRoot := x\<rparr>) (dec_string (hdr_TxRoot h) v)
      else if k = ''timestamp'' then map_result (\<lambda>x. h\<lparr>hdr_Timestamp := x\<rparr>) (dec_int64 (hdr_Timestamp h) v)
      else map_result (\<lambda>x. h\<lparr>hdr_Proposer := x\<rparr>) (dec_string (hdr_Proposer h) v))"

definition dec_header_into :: "header \<Rightarrow> json \<Rightarrow> header result" where
  "dec_header_into = decode_struct
     [''chain_id'', ''height'', ''prev_hash'', ''state_root'', ''tx_root'', ''timestamp'', ''proposer''] header_field"

definition enc_block :: "stored_block \<Rightarrow> json" where
  "enc_block b = JObj
     [(''header'', enc_header (sb_Header b)),
      (''transactions'', enc_slice (enc_ptr enc_transaction) (sb_Transactions b)),
      (''hash'', enc_string (sb_Hash b)),
      (''signature'', enc_string (sb_Signature b))]"

definition block_field :: "bytes \<Rightarrow> json \<Rightarrow> stored_block \<Rightarrow> stored_block result" where
  "block_field k v b =
     (if k = ''header'' then map_result (\<lambda>x. b\<lparr>sb_Header := x\<rparr>) (dec_header_into (sb_Header b) v)
      else if k = ''transactions'' then
        map_result (\<lambda>x. b\<lparr>sb_Transactions := x\<rparr>)
          (dec_ptrs dec_transaction_into zero_transaction (sb_Transactions b) v)
      else if k = ''hash'' then map_result (\<lambda>x. b\<lparr>sb_Hash := x\<rparr>) (dec_string (sb_Hash b) v)
      else map_result (\<lambda>x. b\<lparr>sb_Signature := x\<rparr>) (dec_string (sb_Signature b) v))"

definition zero_block :: stored_block where
  "zero_block = \<lparr>sb_Header = zero_header, sb_Transactions = None, sb_Hash = [], sb_Signature = []\<rparr>"

definition dec_block_into :: "stored_block \<Rightarrow> json \<Rightarrow> stored_block result" where
  "dec_block_into = decode_struct [''header'', ''transactions'', ''hash'', ''signature''] block_field"

definition dec_block :: "json \<Rightarrow> stored_block result" where
  "dec_block = dec_block_into zero_block"

text \<open>
  Between the two views of a block. \<open>store_form nil b\<close> is a block as the program built it, \<open>nil\<close> telling
  whether its slice of transactions is nil; \<open>block_of\<close> has no value when an element is a nil pointer.
\<close>

definition store_form :: "bool \<Rightarrow> block \<Rightarrow> stored_block" where
  "store_form isnil b = \<lparr>sb_Header = blk_Header b,
     sb_Transactions = (if isnil then None else Some (map Some (blk_Transactions b))),
     sb_Hash = blk_Hash b, sb_Signature = blk_Signature b\<rparr>"

definition sb_list :: "stored_block \<Rightarrow> transaction option list" where
  "sb_list b = (case sb_Transactions b of None \<Rightarrow> [] | Some ts \<Rightarrow> ts)"

definition block_of :: "stored_block \<Rightarrow> block option" where
  "block_of b =
     (if None \<in> set (sb_list b) then None
      else Some \<lparr>blk_Header = sb_Header b, blk_Transactions = map the (sb_list b),
             blk_Hash = sb_Hash b, blk_Signature = sb_Signature b\<rparr>)"

lemma block_of_store_form: "isnil \<longrightarrow> blk_Transactions b = [] \<Longrightarrow> block_of (store_form isnil b) = Some b"
  by (auto simp: block_of_def store_form_def sb_list_def comp_def)

section \<open>Round trip\<close>

definition wire_block :: "stored_block \<Rightarrow> stored_block" where
  "wire_block b = b\<lparr>sb_Transactions := map_option (map (map_option wire_form)) (sb_Transactions b)\<rparr>"

text \<open>A payload inside a block is nested three levels deeper than alone.\<close>

definition stored_ok :: "stored_block \<Rightarrow> bool" where
  "stored_ok b \<longleftrightarrow> header_ok (sb_Header b) \<and> utf8_ok (sb_Hash b) \<and> utf8_ok (sb_Signature b) \<and>
     (\<forall>tx. Some tx \<in> set (sb_list b) \<longrightarrow> tx_ok tx \<and> jdepth (enc_raw (tx_Payload tx)) + 3 \<le> max_nesting)"

lemma dec_enc_header: "header_ok h \<Longrightarrow> dec_header_into old (enc_header h) = Inr h"
  by (simp add: dec_header_into_def enc_header_def header_field_def header_ok_def decode_struct_def plain_name_def)

lemma dec_enc_ptr_elems:
  assumes "\<forall>p\<in>set ps. \<forall>tx. p = Some tx \<longrightarrow> tx_ok tx"
  shows "dec_ptr_elems dec_transaction_into zero_transaction [] (map (enc_ptr enc_transaction) ps) =
    Inr (map (map_option wire_form) ps)"
  using assms
proof (induction ps)
  case (Cons p ps)
  have "dec_ptr dec_transaction_into zero_transaction None (enc_ptr enc_transaction p) = Inr (map_option wire_form p)"
    using Cons.prems dec_enc_transaction [unfolded dec_transaction_def]
    by (cases p) (simp_all add: dec_ptr_def enc_ptr_def enc_transaction_def)
  with Cons show ?case by simp
qed simp

lemma dec_enc_block:
  assumes "stored_ok b"
  shows "dec_block (enc_block b) = Inr (wire_block b)"
proof -
  have "dec_ptrs dec_transaction_into zero_transaction None (enc_slice (enc_ptr enc_transaction) (sb_Transactions b)) =
      Inr (map_option (map (map_option wire_form)) (sb_Transactions b))"
  proof (cases "sb_Transactions b")
    case (Some ps)
    then have "\<forall>p\<in>set ps. \<forall>tx. p = Some tx \<longrightarrow> tx_ok tx" using assms by (auto simp: stored_ok_def sb_list_def)
    then show ?thesis using Some dec_enc_ptr_elems [of ps] by (simp add: dec_ptrs_def enc_slice_def)
  qed (simp add: dec_ptrs_def enc_slice_def)
  then show ?thesis
    using assms by (simp add: dec_block_def dec_block_into_def zero_block_def enc_block_def block_field_def
        stored_ok_def dec_enc_header wire_block_def decode_struct_def plain_name_def)
qed

lemma members_of_list: "elems_ok (map f xs) \<longleftrightarrow> (\<forall>x\<in>set xs. json_ok (f x))"
  "elems_depth (map f xs) \<le> n \<longleftrightarrow> (\<forall>x\<in>set xs. jdepth (f x) \<le> n)"
  by (induction xs) auto

lemma enc_block_json_ok:
  assumes "\<And>tx. Some tx \<in> set (sb_list b) \<Longrightarrow> tx_ok tx"
  shows "json_ok (enc_block b)"
proof -
  have "json_ok (enc_ptr enc_transaction p)" if "p \<in> set (sb_list b)" for p
    using assms that enc_transaction_ok(1) by (cases p) (simp_all add: enc_ptr_def)
  then have "json_ok (enc_slice (enc_ptr enc_transaction) (sb_Transactions b))"
    by (cases "sb_Transactions b") (auto simp: enc_slice_def sb_list_def members_of_list)
  then show ?thesis by (simp add: enc_block_def plain_name_def raw_ok_plain)
qed

lemma enc_ptr_depth:
  "jdepth (enc_ptr enc_transaction p) = (case p of None \<Rightarrow> 0 | Some tx \<Rightarrow> Suc (jdepth (enc_raw (tx_Payload tx))))"
  by (cases p) (simp_all add: enc_ptr_def enc_transaction_def)

lemma enc_block_ok:
  assumes "stored_ok b"
  shows "json_ok (enc_block b)" "jdepth (enc_block b) \<le> max_nesting"
proof -
  show "json_ok (enc_block b)" using assms by (intro enc_block_json_ok) (simp add: stored_ok_def)
  have p: "jdepth (enc_ptr enc_transaction p) \<le> Suc (max_nesting - 3)" if "p \<in> set (sb_list b)" for p
    using assms that by (cases p) (auto simp: stored_ok_def enc_ptr_depth)
  then have "jdepth (enc_slice (enc_ptr enc_transaction) (sb_Transactions b)) \<le> Suc (Suc (max_nesting - 3))"
    by (cases "sb_Transactions b") (auto simp: enc_slice_def sb_list_def members_of_list)
  then show "jdepth (enc_block b) \<le> max_nesting"
    by (simp add: enc_block_def max_nesting_def)
qed

lemma unmarshal_block: "stored_ok b \<Longrightarrow> unmarshal dec_block (marshal enc_block b) = Inr (wire_block b)"
  by (simp add: unmarshal_def marshal_def parse_print_json enc_block_ok dec_enc_block)

text \<open>
  The limit is real: a transaction that is accepted alone can make a block that cannot be read back.
\<close>

lemma elems_depth_member: "x \<in> set xs \<Longrightarrow> jdepth (f x) \<le> elems_depth (map f xs)"
  by (induction xs) auto

lemma deep_block_unreadable:
  assumes "Some tx \<in> set (sb_list b)" "max_nesting < jdepth (enc_raw (tx_Payload tx)) + 3"
    and "\<And>tx. Some tx \<in> set (sb_list b) \<Longrightarrow> tx_ok tx"
  shows "unmarshal dec_block (marshal enc_block b) = Inl JSONError"
proof -
  obtain ps where ps: "sb_Transactions b = Some ps" "Some tx \<in> set ps"
    using assms(1) by (cases "sb_Transactions b") (auto simp: sb_list_def)
  have "Suc (jdepth (enc_raw (tx_Payload tx))) \<le> elems_depth (map (enc_ptr enc_transaction) ps)"
    using elems_depth_member [OF ps(2), of "enc_ptr enc_transaction"] by (simp add: enc_ptr_depth)
  then have "max_nesting < jdepth (enc_block b)"
    using assms(2) by (simp add: enc_block_def enc_slice_def ps(1))
  then show ?thesis
    using parse_json_too_deep enc_block_json_ok [OF assms(3)] by (simp add: unmarshal_def marshal_def)
qed

section \<open>The interface\<close>

record 'b block_db =
  BS_GetBlock :: "'b \<Rightarrow> bytes \<Rightarrow> stored_block result"
  BS_PutBlock :: "'b \<Rightarrow> stored_block \<Rightarrow> 'b \<times> unit result"
  BS_GetBlockByHeight :: "'b \<Rightarrow> int64 \<Rightarrow> stored_block result"
  BS_PutBlockByHeight :: "'b \<Rightarrow> int64 \<Rightarrow> bytes \<Rightarrow> 'b \<times> unit result"
  BS_GetTip :: "'b \<Rightarrow> bytes result"
  BS_SetTip :: "'b \<Rightarrow> bytes \<Rightarrow> 'b \<times> unit result"
  BS_CommitBlock :: "'b \<Rightarrow> stored_block \<Rightarrow> 'b \<times> unit result"

text \<open>
  The contract. A store holds blocks by hash, hashes by height and a tip. \<open>ok\<close> are the blocks it can give
  back, \<open>norm\<close> what they come back as. \<open>CommitBlock\<close> changes all three at once or nothing.
\<close>

locale block_store =
  fixes B :: "'b block_db" and blocks :: "'b \<Rightarrow> bytes \<rightharpoonup> stored_block" and heights :: "'b \<Rightarrow> int64 \<rightharpoonup> bytes"
    and tip :: "'b \<Rightarrow> bytes" and ok :: "stored_block \<Rightarrow> bool" and norm :: "stored_block \<Rightarrow> stored_block"
  assumes get_block: "BS_GetBlock B d h = Inr b \<Longrightarrow> blocks d h = Some b"
    and get_block_missing: "BS_GetBlock B d h = Inl ErrNotFound \<Longrightarrow> blocks d h = None"
    and get_height: "BS_GetBlockByHeight B d n = Inr b \<Longrightarrow> \<exists>h. heights d n = Some h \<and> blocks d h = Some b"
    and get_tip: "BS_GetTip B d = Inr t \<Longrightarrow> tip d = t"
    and commit_ok: "BS_CommitBlock B d b = (d', Inr u) \<Longrightarrow> ok b \<Longrightarrow>
      blocks d' = (blocks d)(sb_Hash b \<mapsto> norm b) \<and> heights d' = (heights d)(hdr_Height (sb_Header b) \<mapsto> sb_Hash b) \<and>
      tip d' = sb_Hash b"
    and commit_error: "BS_CommitBlock B d b = (d', Inl e) \<Longrightarrow>
      blocks d' = blocks d \<and> heights d' = heights d \<and> tip d' = tip d"
    and norm_keeps: "sb_Header (norm b) = sb_Header b" "sb_Hash (norm b) = sb_Hash b"

section \<open>The store in memory\<close>

record mem_blocks =
  mbs_blocks :: "stored_block gomap"
  mbs_byH :: "(int64, bytes) fmap"
  mbs_tip :: bytes

definition NewMemBlockStore :: mem_blocks where
  "NewMemBlockStore = \<lparr>mbs_blocks = fmempty, mbs_byH = fmempty, mbs_tip = []\<rparr>"

definition mbs_PutBlock :: "mem_blocks \<Rightarrow> stored_block \<Rightarrow> mem_blocks \<times> unit result" where
  "mbs_PutBlock s b = (s\<lparr>mbs_blocks := fmupd (sb_Hash b) b (mbs_blocks s)\<rparr>, Inr ())"

definition mbs_GetBlock :: "mem_blocks \<Rightarrow> bytes \<Rightarrow> stored_block result" where
  "mbs_GetBlock s hash = (case fmlookup (mbs_blocks s) hash of None \<Rightarrow> Inl ErrNotFound | Some b \<Rightarrow> Inr b)"

definition mbs_PutBlockByHeight :: "mem_blocks \<Rightarrow> int64 \<Rightarrow> bytes \<Rightarrow> mem_blocks \<times> unit result" where
  "mbs_PutBlockByHeight s height hash = (s\<lparr>mbs_byH := fmupd height hash (mbs_byH s)\<rparr>, Inr ())"

definition mbs_GetBlockByHeight :: "mem_blocks \<Rightarrow> int64 \<Rightarrow> stored_block result" where
  "mbs_GetBlockByHeight s height =
     (case fmlookup (mbs_byH s) height of None \<Rightarrow> Inl ErrNotFound | Some h \<Rightarrow> mbs_GetBlock s h)"

definition mbs_GetTip :: "mem_blocks \<Rightarrow> bytes result" where
  "mbs_GetTip s = Inr (mbs_tip s)"

definition mbs_SetTip :: "mem_blocks \<Rightarrow> bytes \<Rightarrow> mem_blocks \<times> unit result" where
  "mbs_SetTip s hash = (s\<lparr>mbs_tip := hash\<rparr>, Inr ())"

definition mbs_CommitBlock :: "mem_blocks \<Rightarrow> stored_block \<Rightarrow> mem_blocks \<times> unit result" where
  "mbs_CommitBlock s b =
     (s\<lparr>mbs_blocks := fmupd (sb_Hash b) b (mbs_blocks s),
        mbs_byH := fmupd (hdr_Height (sb_Header b)) (sb_Hash b) (mbs_byH s), mbs_tip := sb_Hash b\<rparr>, Inr ())"

definition MemBlockStore :: "mem_blocks block_db" where
  "MemBlockStore = \<lparr>BS_GetBlock = mbs_GetBlock, BS_PutBlock = mbs_PutBlock,
     BS_GetBlockByHeight = mbs_GetBlockByHeight, BS_PutBlockByHeight = mbs_PutBlockByHeight,
     BS_GetTip = mbs_GetTip, BS_SetTip = mbs_SetTip, BS_CommitBlock = mbs_CommitBlock\<rparr>"

lemmas mbs_defs = MemBlockStore_def mbs_GetBlock_def mbs_GetBlockByHeight_def mbs_GetTip_def mbs_CommitBlock_def

interpretation mbs: block_store MemBlockStore "\<lambda>s. fmlookup (mbs_blocks s)" "\<lambda>s. fmlookup (mbs_byH s)" mbs_tip
    "\<lambda>b. True" "\<lambda>b. b"
  by unfold_locales (auto simp: mbs_defs fun_eq_iff split: option.splits)

end
