(* ===== verification/Files.thy ===== *)
theory Files
  imports Prelude
begin

text \<open>
  What the program uses of \<open>os\<close> and \<open>path/filepath\<close>: whole-file reads and writes, files written through a
  handle, and cleaned paths.
\<close>

section \<open>Files\<close>

text \<open>
  \<open>fs_Create\<close> opens with \<open>O_WRONLY|O_CREATE|O_TRUNC\<close>; \<open>fs_Append\<close> and \<open>fs_Sync\<close> act through the handle
  of the file at the path. New files always have the mode 0600.
\<close>

record 'f fs_iface =
  fs_ReadFile :: "'f \<Rightarrow> bytes \<Rightarrow> bytes result"
  fs_WriteFile :: "'f \<Rightarrow> bytes \<Rightarrow> bytes \<Rightarrow> 'f \<times> unit result"
  fs_MkdirAll :: "'f \<Rightarrow> bytes \<Rightarrow> 'f \<times> unit result"
  fs_Create :: "'f \<Rightarrow> bytes \<Rightarrow> 'f \<times> unit result"
  fs_Append :: "'f \<Rightarrow> bytes \<Rightarrow> bytes \<Rightarrow> 'f \<times> unit result"
  fs_Sync :: "'f \<Rightarrow> bytes \<Rightarrow> 'f \<times> unit result"

text \<open>
  Documented: a successful write is what is read afterwards, and operations on a file leave the files at
  other cleaned paths alone (the paths are not links to each other).
\<close>

definition fs_ok :: "'f fs_iface \<Rightarrow> bool" where
  "fs_ok F \<longleftrightarrow>
     (\<forall>f f' path d. fs_WriteFile F f path d = (f', Inr ()) \<longrightarrow> fs_ReadFile F f' path = Inr d) \<and>
     (\<forall>f f' path. fs_Create F f path = (f', Inr ()) \<longrightarrow> fs_ReadFile F f' = (fs_ReadFile F f)(path := Inr [])) \<and>
     (\<forall>f f' path c d. fs_Append F f path d = (f', Inr ()) \<longrightarrow> fs_ReadFile F f path = Inr c \<longrightarrow>
        fs_ReadFile F f' = (fs_ReadFile F f)(path := Inr (c @ d))) \<and>
     (\<forall>f f' path. fs_Sync F f path = (f', Inr ()) \<longrightarrow> fs_ReadFile F f' = fs_ReadFile F f)"

section \<open>Paths\<close>

fun split_path :: "bytes \<Rightarrow> bytes list" where
  "split_path [] = [[]]"
| "split_path (c # cs) =
     (if c = CHR ''/'' then [] # split_path cs
      else case split_path cs of [] \<Rightarrow> [[c]] | e # es \<Rightarrow> (c # e) # es)"

fun join_path :: "bytes list \<Rightarrow> bytes" where
  "join_path [] = []"
| "join_path (e # es) = (if es = [] then e else e @ CHR ''/'' # join_path es)"

text \<open>The elements of the cleaned path, kept in reverse while the given path is read.\<close>

fun clean_elems :: "bool \<Rightarrow> bytes list \<Rightarrow> bytes list \<Rightarrow> bytes list" where
  "clean_elems rooted out [] = rev out"
| "clean_elems rooted out (e # es) =
     (if e = [] \<or> e = ''.'' then clean_elems rooted out es
      else if e = ''..'' then
        (case out of
           [] \<Rightarrow> if rooted then clean_elems rooted out es else clean_elems rooted [e] es
         | p # ps \<Rightarrow> if p = ''..'' then clean_elems rooted (e # out) es else clean_elems rooted ps es)
      else clean_elems rooted (e # out) es)"

definition filepath_Clean :: "bytes \<Rightarrow> bytes" where
  "filepath_Clean path =
     (let rooted = prefix ''/'' path;
          out = (if rooted then ''/'' else []) @ join_path (clean_elems rooted [] (split_path path))
      in if out = [] then ''.'' else out)"

text \<open>\<open>filepath.Join\<close> of a directory and a file name, which is never empty here.\<close>

definition filepath_Join :: "bytes \<Rightarrow> bytes \<Rightarrow> bytes" where
  "filepath_Join dir name = filepath_Clean (if dir = [] then name else dir @ CHR ''/'' # name)"

text \<open>A plain file name is the last element of the joined path, so different names give different paths.\<close>

definition plain_file :: "bytes \<Rightarrow> bool" where
  "plain_file name \<longleftrightarrow> name \<noteq> [] \<and> name \<noteq> ''.'' \<and> name \<noteq> ''..'' \<and> CHR ''/'' \<notin> set name"

lemma split_path_plain: "CHR ''/'' \<notin> set name \<Longrightarrow> split_path name = [name]"
  by (induction name) auto

lemma split_path_nonempty [simp]: "split_path p \<noteq> []"
  by (cases p) (auto split: list.splits)

lemma split_path_join: "split_path (p @ CHR ''/'' # q) = split_path p @ split_path q"
  by (induction p) (auto split: list.splits)

lemma clean_elems_last: "plain_file name \<Longrightarrow> \<exists>es'. clean_elems rooted out (es @ [name]) = es' @ [name]"
  by (induction rooted out es rule: clean_elems.induct) (auto simp: plain_file_def split: list.splits)

lemma join_path_last: "join_path (es @ [name]) = (if es = [] then name else join_path es @ CHR ''/'' # name)"
  by (induction es) auto

lemma split_at_slash:
  assumes "a @ CHR ''/'' # x = b @ CHR ''/'' # y" "CHR ''/'' \<notin> set x" "CHR ''/'' \<notin> set y"
  shows "x = y"
proof -
  have "takeWhile (\<lambda>c. c \<noteq> CHR ''/'') (rev (a @ CHR ''/'' # x)) = rev x"
    using assms(2) by (subst rev_append, simp, subst takeWhile_append2) auto
  moreover have "takeWhile (\<lambda>c. c \<noteq> CHR ''/'') (rev (b @ CHR ''/'' # y)) = rev y"
    using assms(3) by (subst rev_append, simp, subst takeWhile_append2) auto
  ultimately show ?thesis using assms(1) by (metis rev_rev_ident)
qed

lemma filepath_Clean_last:
  assumes "split_path path = es @ [name]" "plain_file name"
  shows "filepath_Clean path = name \<or> (\<exists>p. filepath_Clean path = p @ CHR ''/'' # name)"
proof -
  define r where "r = prefix ''/'' path"
  obtain es' where c: "clean_elems r [] (split_path path) = es' @ [name]"
    using clean_elems_last [OF assms(2)] assms(1) by metis
  have "name \<noteq> []" using assms(2) by (simp add: plain_file_def)
  then have "filepath_Clean path = (if r then ''/'' else []) @ (if es' = [] then name else join_path es' @ CHR ''/'' # name)"
    unfolding filepath_Clean_def r_def [symmetric] c join_path_last Let_def by simp
  then have "filepath_Clean path = name \<or> filepath_Clean path = [] @ CHR ''/'' # name \<or>
      filepath_Clean path = join_path es' @ CHR ''/'' # name \<or> filepath_Clean path = (CHR ''/'' # join_path es') @ CHR ''/'' # name"
    by (cases r; cases "es' = []") simp_all
  then show ?thesis by blast
qed

lemma filepath_Join_last:
  assumes "plain_file name"
  shows "filepath_Join dir name = name \<or> (\<exists>p. filepath_Join dir name = p @ CHR ''/'' # name)"
proof -
  have s: "split_path name = [name]" using assms split_path_plain by (simp add: plain_file_def)
  then have "split_path (if dir = [] then name else dir @ CHR ''/'' # name) = (if dir = [] then [] else split_path dir) @ [name]"
    by (simp add: split_path_join)
  from filepath_Clean_last [OF this assms] show ?thesis unfolding filepath_Join_def .
qed

lemma filepath_Join_inject:
  assumes "plain_file a" "plain_file b" "filepath_Join dir a = filepath_Join dir b"
  shows "a = b"
proof -
  have n: "CHR ''/'' \<notin> set a" "CHR ''/'' \<notin> set b" using assms by (simp_all add: plain_file_def)
  consider p where "a = p @ CHR ''/'' # b" | p where "p @ CHR ''/'' # a = b" | p q where "p @ CHR ''/'' # a = q @ CHR ''/'' # b" | "a = b"
    using filepath_Join_last [OF assms(1), of dir] filepath_Join_last [OF assms(2), of dir] assms(3) by metis
  then show ?thesis
  proof cases
    case 3
    then show ?thesis using n by (rule split_at_slash)
  qed (use n in auto)
qed

end
