(* ===== verification/JsonIndent.thy ===== *)
theory JsonIndent
  imports Transaction
begin

text \<open>
  \<open>json.MarshalIndent(v, "", "  ")\<close>: the indented text of a value, which the scanner reads back as the
  same value.
\<close>

section \<open>The indented text\<close>

definition newline :: "nat \<Rightarrow> bytes" where
  "newline k = CHR 0x0A # replicate (2 * k) (CHR '' '')"

fun indent_json :: "nat \<Rightarrow> json \<Rightarrow> bytes"
  and indent_elems :: "nat \<Rightarrow> json list \<Rightarrow> bytes"
  and indent_members :: "nat \<Rightarrow> (bytes \<times> json) list \<Rightarrow> bytes" where
  "indent_json k JNull = ''null''"
| "indent_json k (JBool b) = (if b then ''true'' else ''false'')"
| "indent_json k (JNum l) = l"
| "indent_json k (JStr r) = dquote # r @ [dquote]"
| "indent_json k (JArr vs) =
     (if vs = [] then ''[]'' else CHR ''['' # newline (Suc k) @ indent_elems (Suc k) vs @ newline k @ '']'')"
| "indent_json k (JObj ms) =
     (if ms = [] then ''{}'' else CHR ''{'' # newline (Suc k) @ indent_members (Suc k) ms @ newline k @ ''}'')"
| "indent_elems k [] = []"
| "indent_elems k (v # vs) = indent_json k v @ (if vs = [] then [] else CHR '','' # newline k @ indent_elems k vs)"
| "indent_members k [] = []"
| "indent_members k (m # ms) = dquote # fst m @ dquote # CHR '':'' # CHR '' '' # indent_json k (snd m)
     @ (if ms = [] then [] else CHR '','' # newline k @ indent_members k ms)"

definition MarshalIndent :: "('a \<Rightarrow> json) \<Rightarrow> 'a \<Rightarrow> bytes" where
  "MarshalIndent enc a = indent_json 0 (enc a)"

section \<open>Reading it back\<close>

lemma is_space_simps [simp]: "is_space (CHR 0x0A)" "is_space (CHR '' '')"
  by (simp_all add: is_space_def)

lemma skip_ws_space [simp]: "is_space c \<Longrightarrow> skip_ws (c # s) = skip_ws s"
  by (simp add: skip_ws_def)

lemma skip_ws_newline [simp]: "skip_ws (newline k @ s) = skip_ws s"
  by (induction k) (simp_all add: newline_def)

lemma value_end_newline [simp]: "value_end (newline k @ t)"
  by (simp add: newline_def)

lemma parse_val_newline: "parse_val n d (newline k @ s) = parse_val n d s"
  by (cases n) simp_all

lemma parse_val_space: "parse_val n d (CHR '' '' # s) = parse_val n d s"
  by (cases n) simp_all

lemma parse_elems_newline: "parse_elems n d (newline k @ s) = parse_elems n d s"
  by (cases n) (simp_all add: parse_val_newline)

lemma parse_members_newline: "parse_members n d (newline k @ s) = parse_members n d s"
  by (cases n) simp_all

lemma indent_json_first:
  assumes "json_ok j"
  obtains c cs where "indent_json k j = c # cs" "\<not> is_space c" "c \<noteq> CHR '']''" "c \<noteq> CHR ''}''"
proof -
  obtain c cs where c: "print_json j = c # cs" "\<not> is_space c" "c \<noteq> CHR '']''" "c \<noteq> CHR ''}''"
    using print_json_first [OF assms] by blast
  then have "\<exists>cs'. indent_json k j = c # cs'" by (cases j) auto
  with c that show thesis by blast
qed

lemma indent_elems_first:
  assumes "elems_ok vs" "vs \<noteq> []"
  obtains c cs where "indent_elems k vs = c # cs" "\<not> is_space c" "c \<noteq> CHR '']''"
  using assms by (cases vs) (auto elim: indent_json_first [where k = k])

lemma parse_indent_val:
  "json_ok j \<Longrightarrow> jdepth j \<le> d \<Longrightarrow> 2 * length (indent_json k j) \<le> n \<Longrightarrow> value_end t \<Longrightarrow>
     parse_val n d (indent_json k j @ t) = Some (j, t)"
  "elems_ok vs \<Longrightarrow> elems_depth vs \<le> d \<Longrightarrow> 2 * length (indent_elems k vs) < n \<Longrightarrow> vs \<noteq> [] \<Longrightarrow>
     parse_elems n d (indent_elems k vs @ newline i @ CHR '']'' # t) = Some (vs, t)"
  "members_ok ms \<Longrightarrow> members_depth ms \<le> d \<Longrightarrow> 2 * length (indent_members k ms) < n \<Longrightarrow> ms \<noteq> [] \<Longrightarrow>
     parse_members n d (indent_members k ms @ newline i @ CHR ''}'' # t) = Some (ms, t)"
proof (induction k j and k vs and k ms arbitrary: d n t and d n t i and d n t i
    rule: indent_json_indent_elems_indent_members.induct)
  case (1 k)
  then show ?case by (cases n) (auto simp: scan_lit_def)
next
  case (2 k b)
  then show ?case by (cases n; cases b) (auto simp: scan_lit_def)
next
  case (3 k l)
  then show ?case using parse_print_val(1) [of "JNum l" d n t] by simp
next
  case (4 k r)
  then show ?case by (cases n) (auto simp: scan_str_raw)
next
  case (5 k vs)
  then obtain n' where n: "n = Suc n'" by (cases n) (auto split: if_splits)
  show ?case
  proof (cases "vs = []")
    case True
    with 5 n show ?thesis by simp
  next
    case False
    have "elems_ok vs" using 5 by simp
    then obtain c cs where c: "indent_elems (Suc k) vs = c # cs" "\<not> is_space c" "c \<noteq> CHR '']''"
      using False by (rule indent_elems_first)
    obtain d' where d: "d = Suc d'" using 5 by (cases d) auto
    have "parse_elems n' d' (indent_elems (Suc k) vs @ newline k @ CHR '']'' # t) = Some (vs, t)"
      using 5 False n d by (intro 5(1)) auto
    with c n d False show ?thesis by (simp add: parse_elems_newline)
  qed
next
  case (6 k ms)
  then obtain n' where n: "n = Suc n'" by (cases n) (auto split: if_splits)
  show ?case
  proof (cases ms)
    case Nil
    with 6 n show ?thesis by simp
  next
    case (Cons m ms')
    obtain d' where d: "d = Suc d'" using 6 by (cases d) auto
    have "parse_members n' d' (indent_members (Suc k) ms @ newline k @ CHR ''}'' # t) = Some (ms, t)"
      using 6 Cons n d by (intro 6(1)) auto
    with n d Cons show ?thesis by (simp add: parse_members_newline del: parse_members.simps)
  qed
next
  case (7 k)
  then show ?case by simp
next
  case (8 k v vs)
  then obtain n' where n: "n = Suc n'" by (cases n) auto
  show ?case
  proof (cases "vs = []")
    case True
    with 8 n show ?thesis by (simp del: parse_val.simps)
  next
    case False
    with 8 n show ?thesis by (simp add: parse_elems_newline del: parse_val.simps parse_elems.simps(2) add: parse_elems.simps(2) [of n'])
  qed
next
  case (9 k)
  then show ?case by simp
next
  case (10 k m ms)
  then obtain n' where n: "n = Suc n'" by (cases n) auto
  show ?case
  proof (cases "ms = []")
    case True
    with 10 n show ?thesis by (cases m) (simp add: scan_str_raw parse_val_space del: parse_val.simps)
  next
    case False
    with 10 n show ?thesis
      by (cases m) (simp add: scan_str_raw parse_val_space parse_members_newline parse_members.simps(2) [of n']
          del: parse_val.simps parse_members.simps(2))
  qed
qed

lemma parse_MarshalIndent:
  assumes "json_ok (enc a)" "jdepth (enc a) \<le> max_nesting"
  shows "parse_json (MarshalIndent enc a) = Some (enc a)"
  using parse_indent_val(1) [OF assms, of 0 "2 * length (indent_json 0 (enc a)) + 2" "[]"]
  by (simp add: parse_json_def MarshalIndent_def del: parse_val.simps)

context json_codec
begin

lemma unmarshal_MarshalIndent: "ok a \<Longrightarrow> unmarshal dec (MarshalIndent enc a) = Inr a"
  by (simp add: unmarshal_def parse_MarshalIndent dec_enc enc_json_ok enc_depth)

end

end
