(* ===== verification/Config.thy ===== *)
theory Config
  imports BlockStore Files JsonIndent
begin

text \<open>
  \<open>config/config.go\<close>: the node's configuration, its defaults, loading from JSON over the defaults,
  validation, and saving.
\<close>

section \<open>The configuration\<close>

record tls_config =
  tls_CACert :: bytes
  tls_NodeCert :: bytes
  tls_NodeKey :: bytes

record seed_peer =
  seed_ID :: bytes
  seed_Addr :: bytes

record genesis_config =
  gen_ChainID :: bytes
  gen_Alloc :: "uint64 gomap option"

record config =
  cfg_NodeID :: bytes
  cfg_DataDir :: bytes
  cfg_RPCPort :: int64
  cfg_P2PPort :: int64
  cfg_MaxBlockTxs :: int64
  cfg_Validators :: "bytes list"
  cfg_Genesis :: genesis_config
  cfg_SeedPeers :: "seed_peer list"
  cfg_TLS :: "tls_config option"
  cfg_RPCAuthToken :: bytes

definition DefaultConfig :: config where
  "DefaultConfig =
     \<lparr>cfg_NodeID = ''node0'', cfg_DataDir = ''./data'', cfg_RPCPort = 8545, cfg_P2PPort = 30303,
      cfg_MaxBlockTxs = 500, cfg_Validators = [],
      cfg_Genesis = \<lparr>gen_ChainID = ''tolchain-dev'', gen_Alloc = Some fmempty\<rparr>,
      cfg_SeedPeers = [], cfg_TLS = None, cfg_RPCAuthToken = []\<rparr>"

section \<open>Validation\<close>

text \<open>The loop over the validators with its set of keys seen.\<close>

fun validate_keys :: "bool gomap \<Rightarrow> bytes list \<Rightarrow> unit result" where
  "validate_keys seen [] = Inr ()"
| "validate_keys seen (v # vs) =
     (case hex_decode v of
        None \<Rightarrow> Inl (Errorf ''validators: must be 64-char hex (32 bytes ed25519 pubkey)'')
      | Some b \<Rightarrow>
      if length b \<noteq> 32 then Inl (Errorf ''validators: must be 64-char hex (32 bytes ed25519 pubkey)'')
      else if fmlookup seen v = Some True then Inl (Errorf ''validators: duplicate pubkey'')
      else validate_keys (fmupd v True seen) vs)"

definition cfg_Validate :: "config \<Rightarrow> unit result" where
  "cfg_Validate c =
     (if cfg_NodeID c = [] then Inl (Errorf ''node_id must not be empty'')
      else if cfg_DataDir c = [] then Inl (Errorf ''data_dir must not be empty'')
      else if gen_ChainID (cfg_Genesis c) = [] then Inl (Errorf ''genesis.chain_id must not be empty'')
      else if cfg_RPCPort c \<le> 0 \<or> 65535 < cfg_RPCPort c then Inl (Errorf ''rpc_port must be 1-65535'')
      else if cfg_P2PPort c \<le> 0 \<or> 65535 < cfg_P2PPort c then Inl (Errorf ''p2p_port must be 1-65535'')
      else if cfg_RPCPort c = cfg_P2PPort c then Inl (Errorf ''rpc_port and p2p_port must not be the same'')
      else if cfg_Validators c = [] then Inl (Errorf ''validators list must not be empty'')
      else case validate_keys fmempty (cfg_Validators c) of
        Inl e \<Rightarrow> Inl e
      | Inr _ \<Rightarrow>
      case cfg_TLS c of
        None \<Rightarrow> Inr ()
      | Some t \<Rightarrow>
          let allSet = tls_CACert t \<noteq> [] \<and> tls_NodeCert t \<noteq> [] \<and> tls_NodeKey t \<noteq> [];
              allEmpty = tls_CACert t = [] \<and> tls_NodeCert t = [] \<and> tls_NodeKey t = []
          in if \<not> allSet \<and> \<not> allEmpty then Inl (Errorf ''tls: all three paths must be set or all empty'') else Inr ())"

section \<open>Loading\<close>

definition tls_field :: "bytes \<Rightarrow> json \<Rightarrow> tls_config \<Rightarrow> tls_config result" where
  "tls_field k v t =
     (if k = ''ca_cert'' then map_result (\<lambda>x. t\<lparr>tls_CACert := x\<rparr>) (dec_string (tls_CACert t) v)
      else if k = ''node_cert'' then map_result (\<lambda>x. t\<lparr>tls_NodeCert := x\<rparr>) (dec_string (tls_NodeCert t) v)
      else map_result (\<lambda>x. t\<lparr>tls_NodeKey := x\<rparr>) (dec_string (tls_NodeKey t) v))"

definition seed_field :: "bytes \<Rightarrow> json \<Rightarrow> seed_peer \<Rightarrow> seed_peer result" where
  "seed_field k v p =
     (if k = ''id'' then map_result (\<lambda>x. p\<lparr>seed_ID := x\<rparr>) (dec_string (seed_ID p) v)
      else map_result (\<lambda>x. p\<lparr>seed_Addr := x\<rparr>) (dec_string (seed_Addr p) v))"

definition genesis_field :: "bytes \<Rightarrow> json \<Rightarrow> genesis_config \<Rightarrow> genesis_config result" where
  "genesis_field k v g =
     (if k = ''chain_id'' then map_result (\<lambda>x. g\<lparr>gen_ChainID := x\<rparr>) (dec_string (gen_ChainID g) v)
      else map_result (\<lambda>x. g\<lparr>gen_Alloc := x\<rparr>) (dec_u64_map (gen_Alloc g) v))"

fun dec_seed_elems :: "seed_peer list \<Rightarrow> json list \<Rightarrow> seed_peer list result" where
  "dec_seed_elems old [] = Inr []"
| "dec_seed_elems old (v # vs) =
     bind_result
       (decode_struct [''id'', ''addr''] seed_field (case old of [] \<Rightarrow> \<lparr>seed_ID = [], seed_Addr = []\<rparr> | p # _ \<Rightarrow> p) v)
       (\<lambda>p. map_result (\<lambda>ps. p # ps) (dec_seed_elems (tl old) vs))"

definition dec_seeds :: "seed_peer list \<Rightarrow> json \<Rightarrow> seed_peer list result" where
  "dec_seeds old j = (case j of JNull \<Rightarrow> Inr [] | JArr vs \<Rightarrow> dec_seed_elems old vs | _ \<Rightarrow> Inl JSONError)"

definition config_field :: "bytes \<Rightarrow> json \<Rightarrow> config \<Rightarrow> config result" where
  "config_field k v c =
     (if k = ''node_id'' then map_result (\<lambda>x. c\<lparr>cfg_NodeID := x\<rparr>) (dec_string (cfg_NodeID c) v)
      else if k = ''data_dir'' then map_result (\<lambda>x. c\<lparr>cfg_DataDir := x\<rparr>) (dec_string (cfg_DataDir c) v)
      else if k = ''rpc_port'' then map_result (\<lambda>x. c\<lparr>cfg_RPCPort := x\<rparr>) (dec_int64 (cfg_RPCPort c) v)
      else if k = ''p2p_port'' then map_result (\<lambda>x. c\<lparr>cfg_P2PPort := x\<rparr>) (dec_int64 (cfg_P2PPort c) v)
      else if k = ''max_block_txs'' then map_result (\<lambda>x. c\<lparr>cfg_MaxBlockTxs := x\<rparr>) (dec_int64 (cfg_MaxBlockTxs c) v)
      else if k = ''validators'' then map_result (\<lambda>x. c\<lparr>cfg_Validators := x\<rparr>) (dec_strings (cfg_Validators c) v)
      else if k = ''genesis'' then
        map_result (\<lambda>x. c\<lparr>cfg_Genesis := x\<rparr>) (decode_struct [''chain_id'', ''alloc''] genesis_field (cfg_Genesis c) v)
      else if k = ''seed_peers'' then map_result (\<lambda>x. c\<lparr>cfg_SeedPeers := x\<rparr>) (dec_seeds (cfg_SeedPeers c) v)
      else if k = ''tls'' then
        map_result (\<lambda>x. c\<lparr>cfg_TLS := x\<rparr>)
          (dec_ptr (decode_struct [''ca_cert'', ''node_cert'', ''node_key''] tls_field)
             \<lparr>tls_CACert = [], tls_NodeCert = [], tls_NodeKey = []\<rparr> (cfg_TLS c) v)
      else map_result (\<lambda>x. c\<lparr>cfg_RPCAuthToken := x\<rparr>) (dec_string (cfg_RPCAuthToken c) v))"

definition dec_config :: "json \<Rightarrow> config result" where
  "dec_config = decode_struct
     [''node_id'', ''data_dir'', ''rpc_port'', ''p2p_port'', ''max_block_txs'', ''validators'', ''genesis'',
      ''seed_peers'', ''tls'', ''rpc_auth_token''] config_field DefaultConfig"

text \<open>\<open>data\<close> is what \<open>os.ReadFile\<close> returned.\<close>

definition cfg_Load :: "bytes result \<Rightarrow> config result" where
  "cfg_Load data =
     (case data of
        Inl e \<Rightarrow> Inl e
      | Inr text \<Rightarrow>
      case unmarshal dec_config text of
        Inl e \<Rightarrow> Inl e
      | Inr cfg \<Rightarrow>
      case cfg_Validate cfg of Inl e \<Rightarrow> Inl (Wrapf ''config validation'' e) | Inr _ \<Rightarrow> Inr cfg)"

section \<open>What validation guarantees\<close>

definition config_ok :: "config \<Rightarrow> bool" where
  "config_ok c \<longleftrightarrow>
     cfg_NodeID c \<noteq> [] \<and> cfg_DataDir c \<noteq> [] \<and> gen_ChainID (cfg_Genesis c) \<noteq> [] \<and>
     0 < cfg_RPCPort c \<and> cfg_RPCPort c < 2 ^ 16 \<and> 0 < cfg_P2PPort c \<and> cfg_P2PPort c < 2 ^ 16 \<and>
     cfg_RPCPort c \<noteq> cfg_P2PPort c \<and>
     cfg_Validators c \<noteq> [] \<and> distinct (cfg_Validators c) \<and> (\<forall>v\<in>set (cfg_Validators c). is_ok (PubKeyFromHex v)) \<and>
     (\<forall>t. cfg_TLS c = Some t \<longrightarrow> (tls_CACert t = [] \<longleftrightarrow> tls_NodeCert t = []) \<and> (tls_NodeCert t = [] \<longleftrightarrow> tls_NodeKey t = []))"

lemma validate_keys_Inr:
  "validate_keys seen vs = Inr u \<longleftrightarrow>
     distinct vs \<and> (\<forall>v\<in>set vs. is_ok (PubKeyFromHex v) \<and> fmlookup seen v \<noteq> Some True)"
proof (induction vs arbitrary: seen)
  case (Cons v vs)
  then show ?case
    by (cases "hex_decode v") (auto simp: PubKeyFromHex_def public_key_size_def)
qed simp

lemma cfg_Validate_Inr: "cfg_Validate c = Inr u \<longleftrightarrow> config_ok c"
  using validate_keys_Inr [of fmempty "cfg_Validators c" "()"]
  by (cases "cfg_TLS c")
    (auto simp: cfg_Validate_def config_ok_def Let_def not_le not_less split: sum.splits if_splits)

lemma cfg_Load_Inr: "cfg_Load data = Inr c \<longleftrightarrow> (\<exists>text. data = Inr text \<and> unmarshal dec_config text = Inr c \<and> config_ok c)"
  using cfg_Validate_Inr [of _ "()"]
  by (auto simp: cfg_Load_def split: sum.splits) (metis cfg_Validate_Inr sum.distinct(1))+

lemma default_invalid: "\<not> config_ok DefaultConfig"
  by (simp add: config_ok_def DefaultConfig_def)

section \<open>Saving\<close>

definition enc_tls :: "tls_config \<Rightarrow> json" where
  "enc_tls t = JObj [(''ca_cert'', enc_string (tls_CACert t)), (''node_cert'', enc_string (tls_NodeCert t)),
     (''node_key'', enc_string (tls_NodeKey t))]"

definition enc_seed :: "seed_peer \<Rightarrow> json" where
  "enc_seed p = JObj [(''id'', enc_string (seed_ID p)), (''addr'', enc_string (seed_Addr p))]"

definition enc_genesis :: "genesis_config \<Rightarrow> json" where
  "enc_genesis g = JObj [(''chain_id'', enc_string (gen_ChainID g)), (''alloc'', enc_u64_map (gen_Alloc g))]"

text \<open>\<open>nilv\<close> says that an empty list of validators is a nil slice; seed peers, TLS and token are omitted when empty.\<close>

definition enc_validators :: "bool \<Rightarrow> bytes list \<Rightarrow> json" where
  "enc_validators nilv ss = (if ss = [] \<and> nilv then JNull else JArr (map enc_string ss))"

definition enc_config :: "bool \<Rightarrow> config \<Rightarrow> json" where
  "enc_config nilv c = JObj
     ([(''node_id'', enc_string (cfg_NodeID c)), (''data_dir'', enc_string (cfg_DataDir c)),
       (''rpc_port'', enc_int64 (cfg_RPCPort c)), (''p2p_port'', enc_int64 (cfg_P2PPort c)),
       (''max_block_txs'', enc_int64 (cfg_MaxBlockTxs c)),
       (''validators'', enc_validators nilv (cfg_Validators c)),
       (''genesis'', enc_genesis (cfg_Genesis c))] @
      (if cfg_SeedPeers c = [] then [] else [(''seed_peers'', JArr (map enc_seed (cfg_SeedPeers c)))]) @
      (case cfg_TLS c of None \<Rightarrow> [] | Some t \<Rightarrow> [(''tls'', enc_tls t)]) @
      (if cfg_RPCAuthToken c = [] then [] else [(''rpc_auth_token'', enc_string (cfg_RPCAuthToken c))]))"

definition cfg_Save :: "'f fs_iface \<Rightarrow> bool \<Rightarrow> config \<Rightarrow> bytes \<Rightarrow> 'f \<Rightarrow> 'f \<times> unit result" where
  "cfg_Save F nilv cfg path f = fs_WriteFile F f path (MarshalIndent (enc_config nilv) cfg)"

text \<open>A configuration that its JSON form determines: text in UTF-8 and numbers of 64 bits.\<close>

definition config_text :: "config \<Rightarrow> bool" where
  "config_text c \<longleftrightarrow>
     (\<forall>s\<in>{cfg_NodeID c, cfg_DataDir c, cfg_RPCAuthToken c, gen_ChainID (cfg_Genesis c)} \<union> set (cfg_Validators c). utf8_ok s) \<and>
     in_int64 (cfg_RPCPort c) \<and> in_int64 (cfg_P2PPort c) \<and> in_int64 (cfg_MaxBlockTxs c) \<and>
     map_utf8 (gen_Alloc (cfg_Genesis c)) \<and>
     (\<forall>p\<in>set (cfg_SeedPeers c). utf8_ok (seed_ID p) \<and> utf8_ok (seed_Addr p)) \<and>
     (\<forall>t. cfg_TLS c = Some t \<longrightarrow> utf8_ok (tls_CACert t) \<and> utf8_ok (tls_NodeCert t) \<and> utf8_ok (tls_NodeKey t))"

lemma decode_struct_obj: "decode_struct names f a (JObj ms) = decode_fields names f ms a"
  by (simp add: decode_struct_def)

lemma tls_not_null: "enc_tls t \<noteq> JNull"
  by (simp add: enc_tls_def)

lemma dec_enc_tls:
  "utf8_ok (tls_CACert t) \<Longrightarrow> utf8_ok (tls_NodeCert t) \<Longrightarrow> utf8_ok (tls_NodeKey t) \<Longrightarrow>
     decode_struct [''ca_cert'', ''node_cert'', ''node_key''] tls_field t0 (enc_tls t) = Inr t"
  by (simp add: enc_tls_def tls_field_def struct_simps)

lemma dec_enc_seeds:
  "\<forall>p\<in>set ps. utf8_ok (seed_ID p) \<and> utf8_ok (seed_Addr p) \<Longrightarrow> dec_seed_elems old (map enc_seed ps) = Inr ps"
  by (induction ps arbitrary: old) (simp_all add: enc_seed_def seed_field_def struct_simps)

lemma dec_enc_genesis:
  assumes "utf8_ok (gen_ChainID g)" "map_utf8 (gen_Alloc g)" "map_or_empty (gen_Alloc g0) = fmempty"
  shows "decode_struct [''chain_id'', ''alloc''] genesis_field g0 (enc_genesis g) = Inr g"
proof -
  have "dec_u64_map (gen_Alloc g0) (enc_u64_map (gen_Alloc g)) = dec_u64_map None (enc_u64_map (gen_Alloc g))"
    using assms(3) by (simp add: dec_u64_map_def split: json.splits)
  then show ?thesis using assms(1,2) by (simp add: enc_genesis_def genesis_field_def struct_simps)
qed

lemma dec_enc_validators: "\<forall>s\<in>set ss. utf8_ok s \<Longrightarrow> dec_strings old (enc_validators nilv ss) = Inr ss"
  by (simp add: dec_strings_def enc_validators_def dec_enc_str_elems)

lemma config_parts_ok: "json_ok (enc_validators nilv ss)" "jdepth (enc_validators nilv ss) \<le> 1" "json_ok (enc_tls t)" "jdepth (enc_tls t) = 1" "json_ok (enc_seed p)" "jdepth (enc_seed p) = 1"
  "json_ok (enc_genesis g)" "jdepth (enc_genesis g) \<le> 2"
  using enc_u64_map_ok(2) [of "gen_Alloc g"]
  by (simp_all add: enc_validators_def enc_tls_def enc_seed_def enc_genesis_def raw_ok_plain plain_name_def)

interpretation config_codec: json_codec "enc_config nilv" dec_config config_text for nilv
proof
  fix c :: config
  assume c: "config_text c"
  show "dec_config (enc_config nilv c) = Inr c"
    using c
    by (cases "cfg_TLS c"; cases "cfg_SeedPeers c = []"; cases "cfg_RPCAuthToken c = []")
      (simp_all add: config_text_def dec_config_def enc_config_def config_field_def plain_name_def dec_enc_genesis
        dec_enc_seeds dec_seeds_def dec_enc_tls dec_enc_validators dec_ptr_def DefaultConfig_def decode_struct_obj tls_not_null)
  have d: "jdepth (enc_validators nilv ss) \<le> 9999" "jdepth (enc_genesis g) \<le> 9999" for ss g
    by (rule order.trans [OF config_parts_ok(2)], simp) (rule order.trans [OF config_parts_ok(8)], simp)
  show "json_ok (enc_config nilv c)" "jdepth (enc_config nilv c) \<le> max_nesting"
    by (simp_all add: d enc_config_def config_parts_ok members_of_list raw_ok_plain plain_name_def max_nesting_def
        split: option.splits)
qed

lemma saved_config:
  assumes "cfg_Save F nilv c path f = (f', Inr u)" "fs_ok F" "config_text c"
  shows "cfg_Load (fs_ReadFile F f' path) = (case cfg_Validate c of Inl e \<Rightarrow> Inl (Wrapf ''config validation'' e) | Inr _ \<Rightarrow> Inr c)"
  using assms config_codec.unmarshal_MarshalIndent [OF assms(3), of nilv] by (simp add: cfg_Save_def fs_ok_def cfg_Load_def)

end
