(* ===== verification/StateDB.thy ===== *)
theory StateDB
  imports KVStore
begin

text \<open>
  \<open>storage/statedb.go\<close>: the world state as a write buffer (\<open>dirty\<close>, \<open>deleted\<close>) over a key-value
  store, with typed accessors, snapshots, the state root and the commit. The mutex of the Go type
  makes each method one step; a method is one function here.
\<close>

section \<open>The buffer\<close>

record snapshot =
  snap_dirty :: "bytes gomap"
  snap_deleted :: "bool gomap"

record 'd statedb =
  sdb_db :: 'd
  sdb_dirty :: "bytes gomap"
  sdb_deleted :: "bool gomap"
  sdb_snapshots :: "snapshot list"

definition NewStateDB :: "'d \<Rightarrow> 'd statedb" where
  "NewStateDB d = \<lparr>sdb_db = d, sdb_dirty = fmempty, sdb_deleted = fmempty, sdb_snapshots = []\<rparr>"

definition sdb_get :: "'d db_iface \<Rightarrow> 'd statedb \<Rightarrow> bytes \<Rightarrow> bytes result" where
  "sdb_get I s key =
     (if fmlookup (sdb_deleted s) key = Some True then Inl ErrNotFound
      else case fmlookup (sdb_dirty s) key of
        Some v \<Rightarrow> Inr v
      | None \<Rightarrow> DB_Get I (sdb_db s) key)"

definition sdb_set :: "'d statedb \<Rightarrow> bytes \<Rightarrow> bytes \<Rightarrow> 'd statedb" where
  "sdb_set s key val =
     s\<lparr>sdb_deleted := fmdrop key (sdb_deleted s), sdb_dirty := fmupd key val (sdb_dirty s)\<rparr>"

definition sdb_del :: "'d statedb \<Rightarrow> bytes \<Rightarrow> 'd statedb" where
  "sdb_del s key =
     s\<lparr>sdb_dirty := fmdrop key (sdb_dirty s), sdb_deleted := fmupd key True (sdb_deleted s)\<rparr>"

definition prefixAccount :: bytes where "prefixAccount = ''acct:''"

definition prefixAsset :: bytes where "prefixAsset = ''asset:''"

definition prefixTemplate :: bytes where "prefixTemplate = ''tmpl:''"

definition prefixSession :: bytes where "prefixSession = ''sess:''"

definition prefixListing :: bytes where "prefixListing = ''list:''"

definition statePrefixes :: "bytes list" where
  "statePrefixes = [prefixAccount, prefixAsset, prefixTemplate, prefixSession, prefixListing]"

section \<open>Typed accessors\<close>

text \<open>
  Marshalling these structs cannot fail, so the setters, which only return that error, are total.
\<close>

definition GetAccount :: "'d db_iface \<Rightarrow> 'd statedb \<Rightarrow> bytes \<Rightarrow> account result" where
  "GetAccount I s address =
     (case sdb_get I s (prefixAccount @ address) of
        Inl e \<Rightarrow> if is_not_found e then Inr (new_account address) else Inl e
      | Inr data \<Rightarrow> unmarshal dec_account data)"

definition SetAccount :: "'d statedb \<Rightarrow> account \<Rightarrow> 'd statedb" where
  "SetAccount s acc = sdb_set s (prefixAccount @ acc_Address acc) (marshal enc_account acc)"

definition GetAsset :: "env \<Rightarrow> 'd db_iface \<Rightarrow> 'd statedb \<Rightarrow> bytes \<Rightarrow> asset result" where
  "GetAsset E I s aid =
     (case sdb_get I s (prefixAsset @ aid) of
        Inl e \<Rightarrow> Inl e
      | Inr data \<Rightarrow> unmarshal (dec_asset (float_norm E)) data)"

definition SetAsset :: "'d statedb \<Rightarrow> asset \<Rightarrow> 'd statedb" where
  "SetAsset s a = sdb_set s (prefixAsset @ ast_ID a) (marshal enc_asset a)"

definition DeleteAsset :: "'d statedb \<Rightarrow> bytes \<Rightarrow> 'd statedb" where
  "DeleteAsset s aid = sdb_del s (prefixAsset @ aid)"

definition GetTemplate :: "env \<Rightarrow> 'd db_iface \<Rightarrow> 'd statedb \<Rightarrow> bytes \<Rightarrow> asset_template result" where
  "GetTemplate E I s tid =
     (case sdb_get I s (prefixTemplate @ tid) of
        Inl e \<Rightarrow> Inl e
      | Inr data \<Rightarrow> unmarshal (dec_template (float_norm E)) data)"

definition SetTemplate :: "'d statedb \<Rightarrow> asset_template \<Rightarrow> 'd statedb" where
  "SetTemplate s t = sdb_set s (prefixTemplate @ tpl_ID t) (marshal enc_template t)"

definition GetSession :: "'d db_iface \<Rightarrow> 'd statedb \<Rightarrow> bytes \<Rightarrow> session result" where
  "GetSession I s sid =
     (case sdb_get I s (prefixSession @ sid) of
        Inl e \<Rightarrow> Inl e
      | Inr data \<Rightarrow> unmarshal dec_session data)"

definition SetSession :: "'d statedb \<Rightarrow> session \<Rightarrow> 'd statedb" where
  "SetSession s sess = sdb_set s (prefixSession @ ses_ID sess) (marshal enc_session sess)"

definition GetListing :: "'d db_iface \<Rightarrow> 'd statedb \<Rightarrow> bytes \<Rightarrow> listing result" where
  "GetListing I s lid =
     (case sdb_get I s (prefixListing @ lid) of
        Inl e \<Rightarrow> Inl e
      | Inr data \<Rightarrow> unmarshal dec_listing data)"

definition SetListing :: "'d statedb \<Rightarrow> listing \<Rightarrow> 'd statedb" where
  "SetListing s l = sdb_set s (prefixListing @ lst_ID l) (marshal enc_listing l)"

section \<open>Snapshots, root and commit\<close>

definition Snapshot :: "'d statedb \<Rightarrow> 'd statedb \<times> nat" where
  "Snapshot s =
     (let snap = \<lparr>snap_dirty = sdb_dirty s, snap_deleted = sdb_deleted s\<rparr>;
          snaps = sdb_snapshots s @ [snap]
      in (s\<lparr>sdb_snapshots := snaps\<rparr>, length snaps - 1))"

definition RevertToSnapshot :: "'d statedb \<Rightarrow> int \<Rightarrow> 'd statedb \<times> unit result" where
  "RevertToSnapshot s sid =
     (if sid < 0 \<or> int (length (sdb_snapshots s)) \<le> sid then (s, Inl (Errorf ''invalid snapshot id''))
      else let snap = sdb_snapshots s ! nat sid in
        (s\<lparr>sdb_dirty := snap_dirty snap, sdb_deleted := snap_deleted snap,
           sdb_snapshots := take (nat sid) (sdb_snapshots s)\<rparr>, Inr ()))"

text \<open>The five steps of \<open>ComputeRoot\<close>; the iterator's error is not read.\<close>

definition root_merged :: "env \<Rightarrow> 'd db_iface \<Rightarrow> 'd statedb \<Rightarrow> bytes gomap" where
  "root_merged E I s =
     (let persisted = fold (\<lambda>p m. fold (\<lambda>(k, v). fmupd k v) (fst (DB_Iter I (sdb_db s) p)) m) statePrefixes fmempty;
          buffered = fold (\<lambda>(k, v). fmupd k v) (range_map (range_order E 1) (sdb_dirty s)) persisted
      in fold (\<lambda>(k, b). fmdrop k) (range_map (range_order E 2) (sdb_deleted s)) buffered)"

definition root_text :: "env \<Rightarrow> bytes gomap \<Rightarrow> bytes" where
  "root_text E merged =
     (let keys = sort (map fst (range_map (range_order E 3) merged))
      in foldl (\<lambda>buf k. let v = the (fmlookup merged k)
                        in buf @ be32 (length k) @ k @ be32 (length v) @ v) [] keys)"

definition ComputeRoot :: "env \<Rightarrow> 'd db_iface \<Rightarrow> 'd statedb \<Rightarrow> bytes" where
  "ComputeRoot E I s = Hash E (root_text E (root_merged E I s))"

definition commit_ops :: "env \<Rightarrow> 'd statedb \<Rightarrow> batch_op list" where
  "commit_ops E s =
     map (\<lambda>(k, v). BatchSet k v) (range_map (range_order E 4) (sdb_dirty s)) @
     map (\<lambda>(k, b). BatchDelete k) (range_map (range_order E 5) (sdb_deleted s))"

definition Commit :: "env \<Rightarrow> 'd db_iface \<Rightarrow> 'd statedb \<Rightarrow> 'd statedb \<times> unit result" where
  "Commit E I s =
     (case DB_Write I (sdb_db s) (commit_ops E s) of
        (d, Inl e) \<Rightarrow> (s\<lparr>sdb_db := d\<rparr>, Inl e)
      | (d, Inr u) \<Rightarrow>
          (s\<lparr>sdb_db := d, sdb_dirty := fmempty, sdb_deleted := fmempty, sdb_snapshots := []\<rparr>, Inr ()))"

section \<open>Reading after writing\<close>

lemma sdb_get_set: "sdb_get I (sdb_set s k v) k' = (if k' = k then Inr v else sdb_get I s k')"
  by (simp add: sdb_get_def sdb_set_def split: option.split)

lemma sdb_get_del: "sdb_get I (sdb_del s k) k' = (if k' = k then Inl ErrNotFound else sdb_get I s k')"
  by (simp add: sdb_get_def sdb_del_def split: option.split)

lemmas prefix_defs = prefixAccount_def prefixAsset_def prefixTemplate_def prefixSession_def prefixListing_def

text \<open>No prefix is a prefix of another one, so keys of different kinds never meet.\<close>

lemma prefix_disjoint:
  assumes "p \<in> set statePrefixes" "q \<in> set statePrefixes" "p @ a = q @ b"
  shows "p = q \<and> a = b"
  using assms by (auto simp: statePrefixes_def prefix_defs)

lemma prefix_neq [simp]:
  "prefixAccount @ a \<noteq> prefixAsset @ b" "prefixAccount @ a \<noteq> prefixTemplate @ b"
  "prefixAccount @ a \<noteq> prefixSession @ b" "prefixAccount @ a \<noteq> prefixListing @ b"
  "prefixAsset @ a \<noteq> prefixAccount @ b" "prefixAsset @ a \<noteq> prefixTemplate @ b"
  "prefixAsset @ a \<noteq> prefixSession @ b" "prefixAsset @ a \<noteq> prefixListing @ b"
  "prefixTemplate @ a \<noteq> prefixAccount @ b" "prefixTemplate @ a \<noteq> prefixAsset @ b"
  "prefixTemplate @ a \<noteq> prefixSession @ b" "prefixTemplate @ a \<noteq> prefixListing @ b"
  "prefixSession @ a \<noteq> prefixAccount @ b" "prefixSession @ a \<noteq> prefixAsset @ b"
  "prefixSession @ a \<noteq> prefixTemplate @ b" "prefixSession @ a \<noteq> prefixListing @ b"
  "prefixListing @ a \<noteq> prefixAccount @ b" "prefixListing @ a \<noteq> prefixAsset @ b"
  "prefixListing @ a \<noteq> prefixTemplate @ b" "prefixListing @ a \<noteq> prefixSession @ b"
  by (simp_all add: prefix_defs)

lemmas accessor_defs =
  GetAccount_def SetAccount_def GetAsset_def SetAsset_def DeleteAsset_def GetTemplate_def SetTemplate_def
  GetSession_def SetSession_def GetListing_def SetListing_def

lemma get_set_same [simp]:
  "account_ok acc \<Longrightarrow> GetAccount I (SetAccount s acc) a = (if a = acc_Address acc then Inr acc else GetAccount I s a)"
  "asset_ok (float_norm E) x \<Longrightarrow> GetAsset E I (SetAsset s x) b = (if b = ast_ID x then Inr x else GetAsset E I s b)"
  "GetAsset E I (DeleteAsset s c) b = (if b = c then Inl ErrNotFound else GetAsset E I s b)"
  "template_ok (float_norm E) t \<Longrightarrow>
     GetTemplate E I (SetTemplate s t) c = (if c = tpl_ID t then Inr t else GetTemplate E I s c)"
  "session_ok q \<Longrightarrow> GetSession I (SetSession s q) d = (if d = ses_ID q then Inr q else GetSession I s d)"
  "listing_ok l \<Longrightarrow> GetListing I (SetListing s l) e = (if e = lst_ID l then Inr l else GetListing I s e)"
  by (simp_all add: accessor_defs sdb_get_set sdb_get_del account_codec.unmarshal_marshal
      asset_codec.unmarshal_marshal template_codec.unmarshal_marshal session_codec.unmarshal_marshal
      listing_codec.unmarshal_marshal)

lemma get_set_other [simp]:
  "GetAccount I (SetAsset s x) a = GetAccount I s a" "GetAccount I (DeleteAsset s b) a = GetAccount I s a"
  "GetAccount I (SetTemplate s t) a = GetAccount I s a" "GetAccount I (SetSession s q) a = GetAccount I s a"
  "GetAccount I (SetListing s l) a = GetAccount I s a"
  "GetAsset E I (SetAccount s acc) b = GetAsset E I s b" "GetAsset E I (SetTemplate s t) b = GetAsset E I s b"
  "GetAsset E I (SetSession s q) b = GetAsset E I s b" "GetAsset E I (SetListing s l) b = GetAsset E I s b"
  "GetTemplate E I (SetAccount s acc) c = GetTemplate E I s c" "GetTemplate E I (SetAsset s x) c = GetTemplate E I s c"
  "GetTemplate E I (DeleteAsset s b) c = GetTemplate E I s c"
  "GetTemplate E I (SetSession s q) c = GetTemplate E I s c" "GetTemplate E I (SetListing s l) c = GetTemplate E I s c"
  "GetSession I (SetAccount s acc) d = GetSession I s d" "GetSession I (SetAsset s x) d = GetSession I s d"
  "GetSession I (DeleteAsset s b) d = GetSession I s d" "GetSession I (SetTemplate s t) d = GetSession I s d"
  "GetSession I (SetListing s l) d = GetSession I s d"
  "GetListing I (SetAccount s acc) e = GetListing I s e" "GetListing I (SetAsset s x) e = GetListing I s e"
  "GetListing I (DeleteAsset s b) e = GetListing I s e" "GetListing I (SetTemplate s t) e = GetListing I s e"
  "GetListing I (SetSession s q) e = GetListing I s e"
  by (simp_all add: accessor_defs sdb_get_set sdb_get_del)

lemma accessor_frame [simp]:
  "sdb_db (SetAccount s acc) = sdb_db s" "sdb_snapshots (SetAccount s acc) = sdb_snapshots s"
  "sdb_db (SetAsset s x) = sdb_db s" "sdb_snapshots (SetAsset s x) = sdb_snapshots s"
  "sdb_db (DeleteAsset s b) = sdb_db s" "sdb_snapshots (DeleteAsset s b) = sdb_snapshots s"
  "sdb_db (SetTemplate s t) = sdb_db s" "sdb_snapshots (SetTemplate s t) = sdb_snapshots s"
  "sdb_db (SetSession s q) = sdb_db s" "sdb_snapshots (SetSession s q) = sdb_snapshots s"
  "sdb_db (SetListing s l) = sdb_db s" "sdb_snapshots (SetListing s l) = sdb_snapshots s"
  by (simp_all add: accessor_defs sdb_set_def sdb_del_def)

end
