(* ===== verification/StateView.thy ===== *)
theory StateView
  imports StateDB
begin

text \<open>
  The contract of the world state: a map from keys to values (\<open>view\<close>), of which the write buffer
  over the store is a refinement. Reads, writes and deletes act on the map; a revert restores it
  exactly; a commit keeps it and moves it into the store; the root is a function of it, independent of
  the order of map iteration, and determines it unless SHA-256 collides.
\<close>

section \<open>The map a state stands for\<close>

definition view :: "('d \<Rightarrow> bytes \<rightharpoonup> bytes) \<Rightarrow> 'd statedb \<Rightarrow> bytes \<rightharpoonup> bytes" where
  "view \<alpha> s k =
     (if fmlookup (sdb_deleted s) k = Some True then None
      else case fmlookup (sdb_dirty s) k of Some v \<Rightarrow> Some v | None \<Rightarrow> \<alpha> (sdb_db s) k)"

lemma view_set: "view \<alpha> (sdb_set s k v) = (view \<alpha> s)(k \<mapsto> v)"
  by (auto simp: view_def sdb_set_def fun_eq_iff split: option.split)

lemma view_del: "view \<alpha> (sdb_del s k) = (view \<alpha> s)(k := None)"
  by (auto simp: view_def sdb_del_def fun_eq_iff split: option.split)

lemma view_NewStateDB: "view \<alpha> (NewStateDB d) = \<alpha> d"
  by (simp add: view_def NewStateDB_def fun_eq_iff)

text \<open>
  The buffer's invariant: a key is never both written and deleted, and \<open>deleted\<close> holds only true.
\<close>

definition buffer_ok :: "bytes gomap \<Rightarrow> bool gomap \<Rightarrow> bool" where
  "buffer_ok dirty deleted \<longleftrightarrow>
     fmdom dirty |\<inter>| fmdom deleted = {||} \<and> (\<forall>k b. fmlookup deleted k = Some b \<longrightarrow> b)"

definition sdb_ok :: "'d statedb \<Rightarrow> bool" where
  "sdb_ok s \<longleftrightarrow> buffer_ok (sdb_dirty s) (sdb_deleted s) \<and>
     (\<forall>n\<in>set (sdb_snapshots s). buffer_ok (snap_dirty n) (snap_deleted n))"

lemma buffer_ok_disjoint: "buffer_ok w x \<Longrightarrow> fmlookup w k = Some v \<Longrightarrow> fmlookup x k = None"
  by (auto simp: buffer_ok_def fset_eq_iff fmdom_notD fmdomI)

lemma buffer_ok_deleted: "buffer_ok w x \<Longrightarrow> fmlookup x k = Some b \<Longrightarrow> b"
  by (auto simp: buffer_ok_def)

lemma buffer_ok_set: "buffer_ok w x \<Longrightarrow> buffer_ok (fmupd k v w) (fmdrop k x)"
  by (auto simp: buffer_ok_def fset_eq_iff)

lemma buffer_ok_del: "buffer_ok w x \<Longrightarrow> buffer_ok (fmdrop k w) (fmupd k True x)"
  by (auto simp: buffer_ok_def fset_eq_iff)

lemma buffer_ok_empty [simp]: "buffer_ok fmempty fmempty"
  by (simp add: buffer_ok_def)

lemma sdb_ok_new: "sdb_ok (NewStateDB d)"
  by (simp add: sdb_ok_def NewStateDB_def)

lemma sdb_ok_set: "sdb_ok s \<Longrightarrow> sdb_ok (sdb_set s k v)"
  by (simp add: sdb_ok_def sdb_set_def buffer_ok_set)

lemma sdb_ok_del: "sdb_ok s \<Longrightarrow> sdb_ok (sdb_del s k)"
  by (simp add: sdb_ok_def sdb_del_def buffer_ok_del)

lemma sdb_ok_Snapshot: "sdb_ok s \<Longrightarrow> sdb_ok (fst (Snapshot s))"
  by (simp add: sdb_ok_def Snapshot_def Let_def)

lemma sdb_ok_Revert: "sdb_ok s \<Longrightarrow> sdb_ok (fst (RevertToSnapshot s sid))"
  by (auto simp: sdb_ok_def RevertToSnapshot_def Let_def dest: in_set_takeD)

lemma sdb_ok_Commit: "sdb_ok s \<Longrightarrow> sdb_ok (fst (Commit E I s))"
  by (auto simp: sdb_ok_def Commit_def split: prod.splits sum.splits)

section \<open>Sequences of buffer operations\<close>

datatype sdb_op = OpSet bytes bytes | OpDel bytes | OpSnapshot | OpRevert int

fun run_op :: "sdb_op \<Rightarrow> 'd statedb \<Rightarrow> 'd statedb" where
  "run_op (OpSet k v) s = sdb_set s k v"
| "run_op (OpDel k) s = sdb_del s k"
| "run_op OpSnapshot s = fst (Snapshot s)"
| "run_op (OpRevert sid) s = fst (RevertToSnapshot s sid)"

definition run_ops :: "sdb_op list \<Rightarrow> 'd statedb \<Rightarrow> 'd statedb" where
  "run_ops ops s = fold run_op ops s"

text \<open>Operations that do not revert to \<open>sid\<close> or to an earlier snapshot.\<close>

fun above :: "nat \<Rightarrow> sdb_op \<Rightarrow> bool" where
  "above sid (OpRevert i) \<longleftrightarrow> int sid < i"
| "above sid _ \<longleftrightarrow> True"

lemma run_op_sdb_ok: "sdb_ok s \<Longrightarrow> sdb_ok (run_op op s)"
  by (cases op) (simp_all add: sdb_ok_set sdb_ok_del sdb_ok_Snapshot sdb_ok_Revert)

lemma run_ops_sdb_ok: "sdb_ok s \<Longrightarrow> sdb_ok (run_ops ops s)"
  by (induction ops arbitrary: s) (simp_all add: run_ops_def run_op_sdb_ok)

lemma run_op_keeps:
  assumes "above sid op" "sid < length (sdb_snapshots s)"
  shows "sid < length (sdb_snapshots (run_op op s)) \<and>
    take (Suc sid) (sdb_snapshots (run_op op s)) = take (Suc sid) (sdb_snapshots s) \<and>
    sdb_db (run_op op s) = sdb_db s"
  using assms
  by (cases op) (auto simp: sdb_set_def sdb_del_def Snapshot_def RevertToSnapshot_def Let_def min_def)

lemma run_ops_keeps:
  assumes "\<forall>op\<in>set ops. above sid op" "sid < length (sdb_snapshots s)"
  shows "sid < length (sdb_snapshots (run_ops ops s)) \<and>
    take (Suc sid) (sdb_snapshots (run_ops ops s)) = take (Suc sid) (sdb_snapshots s) \<and>
    sdb_db (run_ops ops s) = sdb_db s"
  using assms
proof (induction ops arbitrary: s)
  case (Cons op ops)
  from Cons.prems run_op_keeps [of sid op s] have
    op: "sid < length (sdb_snapshots (run_op op s))"
      "take (Suc sid) (sdb_snapshots (run_op op s)) = take (Suc sid) (sdb_snapshots s)"
      "sdb_db (run_op op s) = sdb_db s"
    by simp_all
  with Cons.IH [of "run_op op s"] Cons.prems(1) show ?case
    by (simp add: run_ops_def)
qed (simp add: run_ops_def)

text \<open>A revert restores the state at the snapshot, whatever was done in between.\<close>

lemma revert_restores:
  fixes s :: "'d statedb"
  assumes "Snapshot s = (s1, sid)" "\<forall>op\<in>set ops. above sid op"
  shows "RevertToSnapshot (run_ops ops s1) (int sid) = (s, Inr ())"
proof -
  have s1: "s1 = s\<lparr>sdb_snapshots := sdb_snapshots s @
      [\<lparr>snap_dirty = sdb_dirty s, snap_deleted = sdb_deleted s\<rparr>]\<rparr>" "sid = length (sdb_snapshots s)"
    using assms(1) by (auto simp: Snapshot_def Let_def)
  define s2 where "s2 = run_ops ops s1"
  have k: "sid < length (sdb_snapshots s2)" "take (Suc sid) (sdb_snapshots s2) = sdb_snapshots s1"
    "sdb_db s2 = sdb_db s"
    using run_ops_keeps [OF assms(2), of s1] s1 by (simp_all add: s2_def)
  have "sdb_snapshots s2 ! sid = \<lparr>snap_dirty = sdb_dirty s, snap_deleted = sdb_deleted s\<rparr>"
    using k(1,2) s1 nth_take [of sid "Suc sid" "sdb_snapshots s2"] by (simp add: nth_append)
  moreover have "take sid (sdb_snapshots s2) = sdb_snapshots s"
    using arg_cong [OF k(2), of "take sid"] s1 by (simp add: min_def)
  ultimately show ?thesis
    using k(1,3) by (simp add: RevertToSnapshot_def s2_def [symmetric])
qed

section \<open>Commit\<close>

lemma fold_BatchSet:
  "distinct (map fst kvs) \<Longrightarrow>
     fold apply_op (map (\<lambda>(k, v). BatchSet k v) kvs) m k =
     (case map_of kvs k of None \<Rightarrow> m k | Some v \<Rightarrow> Some v)"
  by (induction kvs arbitrary: m) (auto split: option.splits dest: map_of_SomeD simp: rev_image_eqI)

lemma fold_BatchDelete:
  "fold apply_op (map (\<lambda>(k, b). BatchDelete k) kvs) m k = (if k \<in> fst ` set kvs then None else m k)"
  by (induction kvs arbitrary: m) auto

lemma commit_ops_view:
  assumes "sdb_ok s"
  shows "fold apply_op (commit_ops E s) (\<alpha> (sdb_db s)) = view \<alpha> s"
proof
  fix k
  have "fmlookup (sdb_deleted s) k = Some True \<longleftrightarrow> k \<in> fset (fmdom (sdb_deleted s))"
    using assms by (auto simp: sdb_ok_def fmlookup_dom_iff dest: buffer_ok_deleted)
  then show "fold apply_op (commit_ops E s) (\<alpha> (sdb_db s)) k = view \<alpha> s k"
    by (simp add: commit_ops_def fold_BatchSet fold_BatchDelete fst_range_map distinct_range_map
        map_of_range_map view_def)
qed

context kv_db
begin

lemma get_view_found: "sdb_get I s k = Inr v \<Longrightarrow> view \<alpha> s k = Some v"
  by (auto simp: sdb_get_def view_def get_found split: if_splits option.splits)

lemma get_view_missing: "sdb_get I s k = Inl ErrNotFound \<Longrightarrow> view \<alpha> s k = None"
  by (auto simp: sdb_get_def view_def get_missing split: if_splits option.splits)

lemma healthy_get_view:
  "db_healthy I (sdb_db s) \<Longrightarrow>
     sdb_get I s k = (case view \<alpha> s k of None \<Rightarrow> Inl ErrNotFound | Some v \<Rightarrow> Inr v)"
  by (simp add: sdb_get_def view_def healthy_get split: option.split)

lemma Commit_ok:
  assumes "sdb_ok s" "Commit E I s = (s', Inr u)"
  shows "s' = NewStateDB (sdb_db s')" "\<alpha> (sdb_db s') = view \<alpha> s" "view \<alpha> s' = view \<alpha> s"
proof -
  obtain d where d: "DB_Write I (sdb_db s) (commit_ops E s) = (d, Inr ())"
    and s': "s' = s\<lparr>sdb_db := d, sdb_dirty := fmempty, sdb_deleted := fmempty, sdb_snapshots := []\<rparr>"
    using assms(2) by (auto simp: Commit_def split: prod.splits sum.splits)
  show n: "s' = NewStateDB (sdb_db s')"
    by (simp add: s' NewStateDB_def)
  show "\<alpha> (sdb_db s') = view \<alpha> s"
    using write_ok [OF d] by (simp add: s' commit_ops_view [OF assms(1)])
  then show "view \<alpha> s' = view \<alpha> s"
    by (subst n) (simp add: view_NewStateDB)
qed

lemma Commit_error:
  assumes "Commit E I s = (s', Inl e)"
  shows "view \<alpha> s' = view \<alpha> s" "sdb_dirty s' = sdb_dirty s" "sdb_deleted s' = sdb_deleted s"
    "sdb_snapshots s' = sdb_snapshots s"
  using assms write_error
  by (auto simp: Commit_def view_def fun_eq_iff split: prod.splits sum.splits option.split)

end

section \<open>The state root\<close>

definition state_key :: "bytes \<Rightarrow> bool" where
  "state_key k \<longleftrightarrow> (\<exists>p\<in>set statePrefixes. has_prefix p k)"

lemma fold_fmupd_list:
  "distinct (map fst kvs) \<Longrightarrow>
     fmlookup (fold (\<lambda>(k, v). fmupd k v) kvs m) k = (case map_of kvs k of None \<Rightarrow> fmlookup m k | Some v \<Rightarrow> Some v)"
  by (rule fold_fmupd_lookup)

lemma fold_fmdrop_list:
  "fmlookup (fold (\<lambda>(k, b). fmdrop k) kvs m) k = (if k \<in> fst ` set kvs then None else fmlookup m k)"
  by (induction kvs arbitrary: m) auto

context kv_db
begin

lemma persisted_lookup:
  assumes "db_healthy I d"
  shows "fmlookup (fold (\<lambda>p m. fold (\<lambda>(k, v). fmupd k v) (fst (DB_Iter I d p)) m) ps m0) k =
    (if (\<exists>p\<in>set ps. has_prefix p k) \<and> \<alpha> d k \<noteq> None then \<alpha> d k else fmlookup m0 k)"
  by (induction ps arbitrary: m0)
    (auto simp: fold_fmupd_list healthy_iter [OF assms] restrict_map_def split: option.splits)

lemma root_merged_lookup:
  assumes "db_healthy I (sdb_db s)" "sdb_ok s" "\<forall>k\<in>fset (fmdom (sdb_dirty s)). state_key k"
  shows "fmlookup (root_merged E I s) = view \<alpha> s |` {k. state_key k}"
proof
  fix k
  have del: "fmlookup (sdb_deleted s) k = Some True \<longleftrightarrow> k \<in> fset (fmdom (sdb_deleted s))"
    using assms(2) by (auto simp: sdb_ok_def fmlookup_dom_iff dest: buffer_ok_deleted)
  have "fmlookup (sdb_dirty s) k = Some v \<Longrightarrow> state_key k" for v
    using assms(3) by (meson fmdomI)
  then show "fmlookup (root_merged E I s) k = (view \<alpha> s |` {k. state_key k}) k"
    by (auto simp: root_merged_def Let_def fold_fmdrop_list fold_fmupd_list distinct_range_map
        map_of_range_map fst_range_map persisted_lookup [OF assms(1)] view_def del restrict_map_def
        state_key_def split: option.splits)
qed

end

lemma sorted_range_keys: "sort (map fst (range_map ord m)) = sorted_list_of_fset (fmdom m)"
proof -
  have "set (map fst (range_map ord m)) = fset (fmdom m)" by (simp add: fst_range_map)
  then show ?thesis
    by (metis distinct_range_map sorted_list_of_fset.rep_eq sorted_list_of_set_sort_remdups remdups_id_iff_distinct)
qed

text \<open>The key and value texts in the order they are hashed.\<close>

definition root_items :: "bytes gomap \<Rightarrow> bytes list" where
  "root_items m = concat (map (\<lambda>k. [k, the (fmlookup m k)]) (sorted_list_of_fset (fmdom m)))"

lemma root_text_items: "root_text E m = concat (map len_prefix (root_items m))"
proof -
  have "foldl (\<lambda>buf k. let v = the (fmlookup m k) in buf @ be32 (length k) @ k @ be32 (length v) @ v) buf ks =
      buf @ concat (map len_prefix (concat (map (\<lambda>k. [k, the (fmlookup m k)]) ks)))" for buf ks
    by (induction ks arbitrary: buf) (simp_all add: len_prefix_def Let_def)
  then show ?thesis by (simp add: root_text_def sorted_range_keys root_items_def)
qed

lemma interleave_inject:
  "concat (map (\<lambda>k. [k, f k]) ks) = concat (map (\<lambda>k. [k, g k]) js) \<Longrightarrow> ks = js \<and> (\<forall>k\<in>set ks. f k = g k)"
proof (induction ks arbitrary: js)
  case (Cons k ks)
  from Cons.prems obtain j js' where "js = j # js'" by (cases js) simp_all
  with Cons.prems Cons.IH [of js'] show ?case by auto
qed (cases js; simp)

lemma root_items_inject:
  assumes "root_items m = root_items n"
  shows "m = n"
proof (rule fmap_ext)
  fix k
  have i: "sorted_list_of_fset (fmdom m) = sorted_list_of_fset (fmdom n) \<and>
      (\<forall>k\<in>set (sorted_list_of_fset (fmdom m)). the (fmlookup m k) = the (fmlookup n k))"
    by (rule interleave_inject [OF assms [unfolded root_items_def]])
  then have "set (sorted_list_of_fset (fmdom m)) = set (sorted_list_of_fset (fmdom n))" by simp
  then have d: "fmdom m = fmdom n" by (simp add: fset_inject)
  show "fmlookup m k = fmlookup n k"
  proof (cases "k |\<in>| fmdom m")
    case True
    then have "k \<in> set (sorted_list_of_fset (fmdom m))" by simp
    with i have "the (fmlookup m k) = the (fmlookup n k)" by blast
    moreover obtain v w where "fmlookup m k = Some v" "fmlookup n k = Some w"
      using True d by (metis fmlookup_dom_iff)
    ultimately show ?thesis by simp
  next
    case False
    with d show ?thesis by (metis fmdom_notD)
  qed
qed

definition entries_fit :: "bytes gomap \<Rightarrow> bool" where
  "entries_fit m \<longleftrightarrow> (\<forall>k v. fmlookup m k = Some v \<longrightarrow> fits32 k \<and> fits32 v)"

lemma root_text_inject:
  assumes "entries_fit m" "entries_fit n" "root_text E m = root_text F n"
  shows "m = n"
proof -
  have "\<forall>s\<in>set (root_items m). fits32 s" if "entries_fit m" for m
    using that by (auto simp: root_items_def entries_fit_def fmlookup_dom_iff)
  with assms show ?thesis
    using concat_len_prefix_inject [of "root_items m" "root_items n"] root_items_inject
    by (simp add: root_text_items)
qed

end
