(* ===== verification/Events.thy ===== *)
theory Events
  imports StateView
begin

text \<open>
  \<open>events/emitter.go\<close>: events with a dynamically typed payload, and the broker that calls the
  subscribers of an event type one after another. Subscribers act on the key-value store; a panic of one
  of them is recovered and logged, so it does not stop the others.
\<close>

section \<open>Events\<close>

text \<open>
  Values of \<open>map[string]any\<close> with their dynamic type: a string, a \<open>uint64\<close>, an \<open>int\<close>, a \<open>[]string\<close>
  or a \<open>[]any\<close>.
\<close>

datatype dyn = DStr bytes | DU64 uint64 | DInt int | DStrs "bytes list" | DAnys "dyn list"

record event =
  ev_Type :: bytes
  ev_TxID :: bytes
  ev_BlockHeight :: int64
  ev_Data :: "(bytes \<times> dyn) list"

definition EventBlockCommit :: bytes where "EventBlockCommit = ''block_commit''"
definition EventTxExecuted :: bytes where "EventTxExecuted = ''tx_executed''"
definition EventTokenTransfer :: bytes where "EventTokenTransfer = ''token_transfer''"
definition EventAssetMinted :: bytes where "EventAssetMinted = ''asset_minted''"
definition EventAssetBurned :: bytes where "EventAssetBurned = ''asset_burned''"
definition EventAssetTransfer :: bytes where "EventAssetTransfer = ''asset_transfer''"
definition EventTemplateReg :: bytes where "EventTemplateReg = ''template_registered''"
definition EventSessionOpen :: bytes where "EventSessionOpen = ''session_open''"
definition EventSessionClose :: bytes where "EventSessionClose = ''session_close''"
definition EventMarketList :: bytes where "EventMarketList = ''market_list''"
definition EventMarketBuy :: bytes where "EventMarketBuy = ''market_buy''"

lemmas event_type_defs =
  EventBlockCommit_def EventTxExecuted_def EventTokenTransfer_def EventAssetMinted_def EventAssetBurned_def
  EventAssetTransfer_def EventTemplateReg_def EventSessionOpen_def EventSessionClose_def
  EventMarketList_def EventMarketBuy_def

text \<open>A type assertion \<open>v, _ := ev.Data[k].(string)\<close>: the zero value when the key or the type is not there.\<close>

definition data_string :: "event \<Rightarrow> bytes \<Rightarrow> bytes" where
  "data_string ev k = (case map_of (ev_Data ev) k of Some (DStr s) \<Rightarrow> s | _ \<Rightarrow> [])"

definition data_anys :: "event \<Rightarrow> bytes \<Rightarrow> dyn list" where
  "data_anys ev k = (case map_of (ev_Data ev) k of Some (DAnys vs) \<Rightarrow> vs | _ \<Rightarrow> [])"

section \<open>The emitter\<close>

text \<open>A subscriber maps the store to the store it leaves and whether it panicked.\<close>

type_synonym 'd subscriber = "event \<Rightarrow> 'd \<Rightarrow> 'd \<times> bool"

record 'd emitter =
  em_handlers :: "(bytes, 'd subscriber list) fmap"

definition NewEmitter :: "'d emitter" where
  "NewEmitter = \<lparr>em_handlers = fmempty\<rparr>"

definition handlers_of :: "'d emitter \<Rightarrow> bytes \<Rightarrow> 'd subscriber list" where
  "handlers_of em typ = (case fmlookup (em_handlers em) typ of None \<Rightarrow> [] | Some hs \<Rightarrow> hs)"

definition Subscribe :: "bytes \<Rightarrow> 'd subscriber \<Rightarrow> 'd emitter \<Rightarrow> 'd emitter" where
  "Subscribe typ h em = em\<lparr>em_handlers := fmupd typ (handlers_of em typ @ [h]) (em_handlers em)\<rparr>"

definition Emit :: "'d emitter \<Rightarrow> event \<Rightarrow> 'd \<Rightarrow> 'd" where
  "Emit em ev d = foldl (\<lambda>d h. fst (h ev d)) d (handlers_of em (ev_Type ev))"

lemma handlers_of_Subscribe [simp]:
  "handlers_of (Subscribe typ h em) t = (if t = typ then handlers_of em typ @ [h] else handlers_of em t)"
  by (simp add: handlers_of_def Subscribe_def)

lemma handlers_of_New [simp]: "handlers_of NewEmitter t = []"
  by (simp add: handlers_of_def NewEmitter_def)

section \<open>Emitters that leave the world state alone\<close>

text \<open>Reads of world-state keys are the same before and after.\<close>

definition db_keeps :: "'d db_iface \<Rightarrow> 'd \<Rightarrow> 'd \<Rightarrow> bool" where
  "db_keeps I d d' \<longleftrightarrow> (\<forall>k. state_key k \<longrightarrow> DB_Get I d' k = DB_Get I d k)"

definition subscriber_ok :: "'d db_iface \<Rightarrow> 'd subscriber \<Rightarrow> bool" where
  "subscriber_ok I h \<longleftrightarrow> (\<forall>ev d. db_keeps I d (fst (h ev d)))"

definition emitter_ok :: "'d db_iface \<Rightarrow> 'd emitter \<Rightarrow> bool" where
  "emitter_ok I em \<longleftrightarrow> (\<forall>typ. \<forall>h\<in>set (handlers_of em typ). subscriber_ok I h)"

lemma db_keeps_refl [simp]: "db_keeps I d d"
  by (simp add: db_keeps_def)

lemma db_keeps_trans: "db_keeps I d e \<Longrightarrow> db_keeps I e f \<Longrightarrow> db_keeps I d f"
  by (simp add: db_keeps_def)

lemma emitter_ok_New [simp]: "emitter_ok I NewEmitter"
  by (simp add: emitter_ok_def)

lemma emitter_ok_Subscribe: "emitter_ok I em \<Longrightarrow> subscriber_ok I h \<Longrightarrow> emitter_ok I (Subscribe typ h em)"
  by (auto simp: emitter_ok_def)

lemma Emit_keeps:
  assumes "emitter_ok I em"
  shows "db_keeps I d (Emit em ev d)"
proof -
  have "db_keeps I d (foldl (\<lambda>d h. fst (h ev d)) d hs)" if "\<forall>h\<in>set hs. subscriber_ok I h" for hs
    using that
  proof (induction hs arbitrary: d)
    case (Cons h hs)
    have "db_keeps I d (fst (h ev d))" using Cons.prems by (simp add: subscriber_ok_def)
    moreover have "db_keeps I (fst (h ev d)) (foldl (\<lambda>d h. fst (h ev d)) (fst (h ev d)) hs)"
      using Cons.prems by (intro Cons.IH) simp
    ultimately show ?case by (simp add: db_keeps_trans)
  qed simp
  with assms show ?thesis by (simp add: Emit_def emitter_ok_def)
qed

text \<open>The typed accessors read world-state keys only.\<close>

lemma state_key_prefix [simp]:
  "state_key (prefixAccount @ k)" "state_key (prefixAsset @ k)" "state_key (prefixTemplate @ k)"
  "state_key (prefixSession @ k)" "state_key (prefixListing @ k)"
  by (simp_all add: state_key_def statePrefixes_def has_prefix_def)

lemma sdb_get_keeps:
  "db_keeps I (sdb_db s) d \<Longrightarrow> state_key k \<Longrightarrow> sdb_get I (s\<lparr>sdb_db := d\<rparr>) k = sdb_get I s k"
  by (simp add: sdb_get_def db_keeps_def split: option.split)

lemma get_keeps [simp]:
  assumes "db_keeps I (sdb_db s) d"
  shows "GetAccount I (s\<lparr>sdb_db := d\<rparr>) a = GetAccount I s a"
    "GetAsset E I (s\<lparr>sdb_db := d\<rparr>) b = GetAsset E I s b"
    "GetTemplate E I (s\<lparr>sdb_db := d\<rparr>) c = GetTemplate E I s c"
    "GetSession I (s\<lparr>sdb_db := d\<rparr>) e = GetSession I s e"
    "GetListing I (s\<lparr>sdb_db := d\<rparr>) f = GetListing I s f"
  by (simp_all add: accessor_defs sdb_get_keeps [OF assms])

end
