(* ===== verification/Modules.thy ===== *)
theory Modules
  imports Events
begin

text \<open>
  The transaction modules under \<open>vm/modules\<close>: token transfers, asset templates and assets, game
  sessions and the market. A handler takes the context of \<open>vm/executor.go\<close>, the payload and the
  state, and returns the state it leaves together with its error; a failing handler may leave a
  partly changed buffer, which the executor reverts.
\<close>

section \<open>The context of a handler\<close>

record 'd vm_context =
  ctx_Env :: env
  ctx_DB :: "'d db_iface"
  ctx_Block :: block
  ctx_Tx :: transaction
  ctx_Emitter :: "'d emitter option"

type_synonym 'd handler = "'d vm_context \<Rightarrow> json option \<Rightarrow> 'd statedb \<Rightarrow> 'd statedb \<times> unit result"

text \<open>\<open>if ctx.Emitter != nil { ctx.Emitter.Emit(...) }\<close>\<close>

definition emit_event :: "'d emitter option \<Rightarrow> event \<Rightarrow> 'd statedb \<Rightarrow> 'd statedb" where
  "emit_event oem ev s = (case oem of None \<Rightarrow> s | Some em \<Rightarrow> s\<lparr>sdb_db := Emit em ev (sdb_db s)\<rparr>)"

definition ctx_emit :: "'d vm_context \<Rightarrow> bytes \<Rightarrow> (bytes \<times> dyn) list \<Rightarrow> 'd statedb \<Rightarrow> 'd statedb" where
  "ctx_emit ctx typ data s =
     emit_event (ctx_Emitter ctx)
       \<lparr>ev_Type = typ, ev_TxID = tx_ID (ctx_Tx ctx),
        ev_BlockHeight = hdr_Height (blk_Header (ctx_Block ctx)), ev_Data = data\<rparr> s"

section \<open>Token transfers\<close>

definition handleTransfer :: "'d handler" where
  "handleTransfer ctx payload s =
     (let I = ctx_DB ctx; tx = ctx_Tx ctx in
      case unmarshal_raw dec_transfer payload of
        Inl e \<Rightarrow> (s, Inl (Wrapf ''decode transfer payload'' e))
      | Inr p \<Rightarrow>
      if tp_Amount p = 0 then (s, Inl (Errorf ''transfer amount must be > 0''))
      else if tp_To p = [] then (s, Inl (Errorf ''transfer to address required''))
      else case PubKeyFromHex (tp_To p) of
        Inl e \<Rightarrow> (s, Inl (Wrapf ''invalid to address'' e))
      | Inr _ \<Rightarrow>
      case GetAccount I s (tx_From tx) of
        Inl e \<Rightarrow> (s, Inl e)
      | Inr sender \<Rightarrow>
      if acc_Balance sender < tp_Amount p then (s, Inl (Errorf ''insufficient balance''))
      else
      let s1 = SetAccount s (sender\<lparr>acc_Balance := acc_Balance sender - tp_Amount p\<rparr>) in
      case GetAccount I s1 (tp_To p) of
        Inl e \<Rightarrow> (s1, Inl e)
      | Inr recipient \<Rightarrow>
      if max_uint64 - tp_Amount p < acc_Balance recipient then (s1, Inl (Errorf ''recipient balance overflow''))
      else
      let s2 = SetAccount s1 (recipient\<lparr>acc_Balance := acc_Balance recipient + tp_Amount p\<rparr>) in
      (ctx_emit ctx EventTokenTransfer
         [(''from'', DStr (tx_From tx)), (''to'', DStr (tp_To p)), (''amount'', DU64 (tp_Amount p))] s2,
       Inr ()))"

section \<open>Assets\<close>

definition asset_id :: "env \<Rightarrow> transaction \<Rightarrow> bytes \<Rightarrow> bytes" where
  "asset_id E tx templateID = Hash E (tx_ID tx @ '':asset:'' @ templateID)"

definition handleMintAsset :: "'d handler" where
  "handleMintAsset ctx payload s =
     (let E = ctx_Env ctx; I = ctx_DB ctx; tx = ctx_Tx ctx in
      case unmarshal_raw (dec_mint (float_norm E)) payload of
        Inl e \<Rightarrow> (s, Inl (Wrapf ''decode mint_asset payload'' e))
      | Inr p \<Rightarrow>
      if mp_TemplateID p = [] then (s, Inl (Errorf ''template_id required''))
      else case GetTemplate E I s (mp_TemplateID p) of
        Inl e \<Rightarrow> (s, Inl (Wrapf ''template not found'' e))
      | Inr tmpl \<Rightarrow>
      case (if mp_Owner p = [] then Inr (tx_From tx)
            else case PubKeyFromHex (mp_Owner p) of
              Inl e \<Rightarrow> Inl (Wrapf ''invalid owner pubkey'' e)
            | Inr _ \<Rightarrow> Inr (mp_Owner p)) of
        Inl e \<Rightarrow> (s, Inl e)
      | Inr owner \<Rightarrow>
      let assetID = asset_id E tx (mp_TemplateID p);
          a = \<lparr>ast_ID = assetID, ast_TemplateID = mp_TemplateID p, ast_Owner = owner,
               ast_Properties = mp_Properties p, ast_Tradeable = tpl_Tradeable tmpl,
               ast_MintedAt = hdr_Timestamp (blk_Header (ctx_Block ctx)), ast_ActiveListingID = []\<rparr>;
          s1 = SetAsset s a in
      (ctx_emit ctx EventAssetMinted
         [(''asset_id'', DStr assetID), (''template_id'', DStr (mp_TemplateID p)), (''owner'', DStr owner)] s1,
       Inr ()))"

definition handleBurnAsset :: "'d handler" where
  "handleBurnAsset ctx payload s =
     (let E = ctx_Env ctx; I = ctx_DB ctx; tx = ctx_Tx ctx in
      case unmarshal_raw dec_burn payload of
        Inl e \<Rightarrow> (s, Inl (Wrapf ''decode burn_asset payload'' e))
      | Inr p \<Rightarrow>
      case GetAsset E I s (bp_AssetID p) of
        Inl e \<Rightarrow> (s, Inl (Wrapf ''asset not found'' e))
      | Inr a \<Rightarrow>
      if ast_Owner a \<noteq> tx_From tx then (s, Inl (Errorf ''only the asset owner can burn it''))
      else if ast_ActiveListingID a \<noteq> [] then
        (s, Inl (Errorf ''asset has an active listing; cancel it before burning''))
      else
      let s1 = DeleteAsset s (bp_AssetID p) in
      (ctx_emit ctx EventAssetBurned
         [(''asset_id'', DStr (bp_AssetID p)), (''owner'', DStr (ast_Owner a))] s1,
       Inr ()))"

definition handleTransferAsset :: "'d handler" where
  "handleTransferAsset ctx payload s =
     (let E = ctx_Env ctx; I = ctx_DB ctx; tx = ctx_Tx ctx in
      case unmarshal_raw dec_transfer_asset payload of
        Inl e \<Rightarrow> (s, Inl (Wrapf ''decode transfer_asset payload'' e))
      | Inr p \<Rightarrow>
      if ap_To p = [] then (s, Inl (Errorf ''to address required''))
      else case PubKeyFromHex (ap_To p) of
        Inl e \<Rightarrow> (s, Inl (Wrapf ''invalid to pubkey'' e))
      | Inr _ \<Rightarrow>
      case GetAsset E I s (ap_AssetID p) of
        Inl e \<Rightarrow> (s, Inl (Wrapf ''asset not found'' e))
      | Inr a \<Rightarrow>
      if ast_Owner a \<noteq> tx_From tx then (s, Inl (Errorf ''only the asset owner can transfer it''))
      else if \<not> ast_Tradeable a then (s, Inl (Errorf ''asset is not tradeable''))
      else if ast_ActiveListingID a \<noteq> [] then
        (s, Inl (Errorf ''asset has an active listing; cancel it before transferring''))
      else
      let s1 = SetAsset s (a\<lparr>ast_Owner := ap_To p\<rparr>) in
      (ctx_emit ctx EventAssetTransfer
         [(''asset_id'', DStr (ap_AssetID p)), (''from'', DStr (tx_From tx)), (''to'', DStr (ap_To p))] s1,
       Inr ()))"

definition handleRegisterTemplate :: "'d handler" where
  "handleRegisterTemplate ctx payload s =
     (let E = ctx_Env ctx; I = ctx_DB ctx; tx = ctx_Tx ctx in
      case unmarshal_raw (dec_register (float_norm E)) payload of
        Inl e \<Rightarrow> (s, Inl (Wrapf ''decode register_template payload'' e))
      | Inr p \<Rightarrow>
      if rp_ID p = [] then (s, Inl (Errorf ''template id required''))
      else case GetTemplate E I s (rp_ID p) of
        Inr _ \<Rightarrow> (s, Inl (Errorf ''template already exists''))
      | Inl e \<Rightarrow>
      if \<not> is_not_found e then (s, Inl (Wrapf ''check template'' e))
      else
      let t = \<lparr>tpl_ID = rp_ID p, tpl_Name = rp_Name p, tpl_Schema = rp_Schema p,
               tpl_Tradeable = rp_Tradeable p, tpl_Creator = tx_From tx\<rparr>;
          s1 = SetTemplate s t in
      (ctx_emit ctx EventTemplateReg [(''template_id'', DStr (rp_ID p)), (''name'', DStr (rp_Name p))] s1,
       Inr ()))"

section \<open>Sessions\<close>

text \<open>The loop that locks the stakes of the players, in the order of the payload.\<close>

fun lock_stakes :: "'d db_iface \<Rightarrow> uint64 \<Rightarrow> bytes list \<Rightarrow> 'd statedb \<Rightarrow> 'd statedb \<times> unit result" where
  "lock_stakes I stakes [] s = (s, Inr ())"
| "lock_stakes I stakes (player # ps) s =
     (case GetAccount I s player of
        Inl e \<Rightarrow> (s, Inl (Wrapf ''player account'' e))
      | Inr acc \<Rightarrow>
      if acc_Balance acc < stakes then (s, Inl (Errorf ''player insufficient balance for stakes''))
      else lock_stakes I stakes ps (SetAccount s (acc\<lparr>acc_Balance := acc_Balance acc - stakes\<rparr>)))"

definition handleSessionOpen :: "'d handler" where
  "handleSessionOpen ctx payload s =
     (let I = ctx_DB ctx; tx = ctx_Tx ctx in
      case unmarshal_raw dec_session_open payload of
        Inl e \<Rightarrow> (s, Inl (Wrapf ''decode session_open payload'' e))
      | Inr p \<Rightarrow>
      if sp_SessionID p = [] then (s, Inl (Errorf ''session_id required''))
      else if sp_Players p = [] then (s, Inl (Errorf ''at least one player required''))
      else case GetSession I s (sp_SessionID p) of
        Inr _ \<Rightarrow> (s, Inl (Errorf ''session already exists''))
      | Inl e \<Rightarrow>
      if \<not> is_not_found e then (s, Inl (Wrapf ''checking session'' e))
      else case (if 0 < sp_Stakes p then lock_stakes I (sp_Stakes p) (sp_Players p) s else (s, Inr ())) of
        (s1, Inl e) \<Rightarrow> (s1, Inl e)
      | (s1, Inr _) \<Rightarrow>
      let sess = \<lparr>ses_ID = sp_SessionID p, ses_GameID = sp_GameID p, ses_Creator = tx_From tx,
                  ses_Players = sp_Players p, ses_Stakes = sp_Stakes p, ses_Status = ''open'',
                  ses_Outcome = Some fmempty,
                  ses_CreatedAt = hdr_Timestamp (blk_Header (ctx_Block ctx)), ses_ClosedAt = 0\<rparr>;
          s2 = SetSession s1 sess in
      (ctx_emit ctx EventSessionOpen
         [(''session_id'', DStr (sp_SessionID p)), (''game_id'', DStr (sp_GameID p)),
          (''players'', DStrs (sp_Players p))] s2,
       Inr ()))"

text \<open>The loop that sums the rewards, with its check before each addition.\<close>

fun sum_rewards :: "uint64 \<Rightarrow> uint64 \<Rightarrow> (bytes \<times> uint64) list \<Rightarrow> uint64 result" where
  "sum_rewards totalStakes totalRewards [] = Inr totalRewards"
| "sum_rewards totalStakes totalRewards (kr # krs) =
     (if totalStakes - totalRewards < snd kr then Inl (Errorf ''rewards exceed total stakes'')
      else sum_rewards totalStakes (totalRewards + snd kr) krs)"

fun pay_rewards :: "'d db_iface \<Rightarrow> (bytes \<times> uint64) list \<Rightarrow> 'd statedb \<Rightarrow> 'd statedb \<times> unit result" where
  "pay_rewards I [] s = (s, Inr ())"
| "pay_rewards I (kr # krs) s =
     (case GetAccount I s (fst kr) of
        Inl e \<Rightarrow> (s, Inl (Wrapf ''outcome account'' e))
      | Inr acc \<Rightarrow>
      if max_uint64 - snd kr < acc_Balance acc then (s, Inl (Errorf ''reward overflow for player''))
      else pay_rewards I krs (SetAccount s (acc\<lparr>acc_Balance := acc_Balance acc + snd kr\<rparr>)))"

definition handleSessionResult :: "'d handler" where
  "handleSessionResult ctx payload s =
     (let E = ctx_Env ctx; I = ctx_DB ctx; tx = ctx_Tx ctx in
      case unmarshal_raw dec_session_result payload of
        Inl e \<Rightarrow> (s, Inl (Wrapf ''decode session_result payload'' e))
      | Inr p \<Rightarrow>
      case GetSession I s (sr_SessionID p) of
        Inl e \<Rightarrow> (s, Inl (Wrapf ''session not found'' e))
      | Inr sess \<Rightarrow>
      if ses_Status sess \<noteq> ''open'' then (s, Inl (Errorf ''session already closed''))
      else if tx_From tx \<noteq> ses_Creator sess then (s, Inl (Errorf ''only the session creator can submit results''))
      else
      let outcome = map_or_empty (sr_Outcome p);
          playerSet = foldl (\<lambda>m player. fmupd player True m) fmempty (ses_Players sess) in
      if \<exists>kr\<in>set (range_map (range_order E 6) outcome). fmlookup playerSet (fst kr) \<noteq> Some True
      then (s, Inl (Errorf ''outcome recipient is not a session player''))
      else
      let nPlayers = word_of_nat (length (ses_Players sess)) in
      if 0 < ses_Stakes sess \<and> max_uint64 div ses_Stakes sess < nPlayers
      then (s, Inl (Errorf ''total stakes overflow''))
      else
      let totalStakes = ses_Stakes sess * nPlayers in
      case sum_rewards totalStakes 0 (range_map (range_order E 7) outcome) of
        Inl e \<Rightarrow> (s, Inl e)
      | Inr totalRewards \<Rightarrow>
      if totalRewards \<noteq> totalStakes then (s, Inl (Errorf ''rewards must equal total stakes''))
      else case pay_rewards I (range_map (range_order E 8) outcome) s of
        (s1, Inl e) \<Rightarrow> (s1, Inl e)
      | (s1, Inr _) \<Rightarrow>
      let s2 = SetSession s1 (sess\<lparr>ses_Status := ''closed'', ses_Outcome := sr_Outcome p,
                 ses_ClosedAt := hdr_Timestamp (blk_Header (ctx_Block ctx))\<rparr>) in
      (ctx_emit ctx EventSessionClose [(''session_id'', DStr (sr_SessionID p))] s2, Inr ()))"

section \<open>The market\<close>

definition listing_id :: "env \<Rightarrow> transaction \<Rightarrow> bytes \<Rightarrow> bytes" where
  "listing_id E tx assetID = Hash E (tx_ID tx @ '':listing:'' @ assetID)"

definition handleListMarket :: "'d handler" where
  "handleListMarket ctx payload s =
     (let E = ctx_Env ctx; I = ctx_DB ctx; tx = ctx_Tx ctx in
      case unmarshal_raw dec_list_market payload of
        Inl e \<Rightarrow> (s, Inl (Wrapf ''decode list_market payload'' e))
      | Inr p \<Rightarrow>
      if lp_Price p = 0 then (s, Inl (Errorf ''price must be > 0''))
      else case GetAsset E I s (lp_AssetID p) of
        Inl e \<Rightarrow> (s, Inl (Wrapf ''asset not found'' e))
      | Inr a \<Rightarrow>
      if ast_Owner a \<noteq> tx_From tx then (s, Inl (Errorf ''only the asset owner can list it''))
      else if \<not> ast_Tradeable a then (s, Inl (Errorf ''asset is not tradeable''))
      else if ast_ActiveListingID a \<noteq> [] then (s, Inl (Errorf ''asset is already listed''))
      else
      let listingID = listing_id E tx (lp_AssetID p);
          l = \<lparr>lst_ID = listingID, lst_AssetID = lp_AssetID p, lst_Seller = tx_From tx, lst_Price = lp_Price p,
               lst_Active = True, lst_CreatedAt = hdr_Timestamp (blk_Header (ctx_Block ctx))\<rparr>;
          s1 = SetListing s l;
          s2 = SetAsset s1 (a\<lparr>ast_ActiveListingID := listingID\<rparr>) in
      (ctx_emit ctx EventMarketList
         [(''listing_id'', DStr listingID), (''asset_id'', DStr (lp_AssetID p)), (''price'', DU64 (lp_Price p))] s2,
       Inr ()))"

definition handleBuyMarket :: "'d handler" where
  "handleBuyMarket ctx payload s =
     (let E = ctx_Env ctx; I = ctx_DB ctx; tx = ctx_Tx ctx in
      case unmarshal_raw dec_buy_market payload of
        Inl e \<Rightarrow> (s, Inl (Wrapf ''decode buy_market payload'' e))
      | Inr p \<Rightarrow>
      case GetListing I s (up_ListingID p) of
        Inl e \<Rightarrow> (s, Inl (Wrapf ''listing not found'' e))
      | Inr l \<Rightarrow>
      if \<not> lst_Active l then (s, Inl (Errorf ''listing is no longer active''))
      else if lst_Seller l = tx_From tx then (s, Inl (Errorf ''seller cannot buy their own listing''))
      else case GetAccount I s (tx_From tx) of
        Inl e \<Rightarrow> (s, Inl e)
      | Inr buyer \<Rightarrow>
      if acc_Balance buyer < lst_Price l then (s, Inl (Errorf ''insufficient balance''))
      else
      let s1 = SetAccount s (buyer\<lparr>acc_Balance := acc_Balance buyer - lst_Price l\<rparr>) in
      case GetAccount I s1 (lst_Seller l) of
        Inl e \<Rightarrow> (s1, Inl e)
      | Inr seller \<Rightarrow>
      if max_uint64 - lst_Price l < acc_Balance seller then (s1, Inl (Errorf ''seller balance overflow''))
      else
      let s2 = SetAccount s1 (seller\<lparr>acc_Balance := acc_Balance seller + lst_Price l\<rparr>) in
      case GetAsset E I s2 (lst_AssetID l) of
        Inl e \<Rightarrow> (s2, Inl (Wrapf ''asset not found'' e))
      | Inr a \<Rightarrow>
      let s3 = SetAsset s2 (a\<lparr>ast_Owner := tx_From tx, ast_ActiveListingID := []\<rparr>);
          s4 = SetListing s3 (l\<lparr>lst_Active := False\<rparr>) in
      (ctx_emit ctx EventMarketBuy
         [(''listing_id'', DStr (up_ListingID p)), (''asset_id'', DStr (lst_AssetID l)),
          (''buyer'', DStr (tx_From tx)), (''seller'', DStr (lst_Seller l)), (''price'', DU64 (lst_Price l))] s4,
       Inr ()))"

end
