(* ===== verification/Executor.thy ===== *)
theory Executor
  imports Modules
begin

text \<open>
  \<open>vm/registry.go\<close> and \<open>vm/executor.go\<close>: the registry the modules register into, and the execution
  of transactions and blocks with a snapshot before and a revert after a failure.
\<close>

section \<open>The registry\<close>

record 'd registry =
  reg_handlers :: "(bytes, 'd handler) fmap"

definition NewRegistry :: "'d registry" where
  "NewRegistry = \<lparr>reg_handlers = fmempty\<rparr>"

text \<open>A duplicate registration panics.\<close>

definition Register :: "bytes \<Rightarrow> 'd handler \<Rightarrow> 'd registry \<Rightarrow> 'd registry result" where
  "Register typ h r =
     (case fmlookup (reg_handlers r) typ of
        Some _ \<Rightarrow> Inl (Errorf ''vm: handler already registered for TxType'')
      | None \<Rightarrow> Inr (r\<lparr>reg_handlers := fmupd typ h (reg_handlers r)\<rparr>))"

definition reg_Execute :: "'d registry \<Rightarrow> bytes \<Rightarrow> 'd handler" where
  "reg_Execute r typ ctx payload s =
     (case fmlookup (reg_handlers r) typ of
        None \<Rightarrow> (s, Inl (Errorf ''vm: no handler registered for TxType''))
      | Some h \<Rightarrow> h ctx payload s)"

definition TxTransfer :: bytes where "TxTransfer = ''transfer''"
definition TxMintAsset :: bytes where "TxMintAsset = ''mint_asset''"
definition TxBurnAsset :: bytes where "TxBurnAsset = ''burn_asset''"
definition TxTransferAsset :: bytes where "TxTransferAsset = ''transfer_asset''"
definition TxRegisterTemplate :: bytes where "TxRegisterTemplate = ''register_template''"
definition TxSessionOpen :: bytes where "TxSessionOpen = ''session_open''"
definition TxSessionResult :: bytes where "TxSessionResult = ''session_result''"
definition TxListMarket :: bytes where "TxListMarket = ''list_market''"
definition TxBuyMarket :: bytes where "TxBuyMarket = ''buy_market''"

lemmas tx_type_defs =
  TxTransfer_def TxMintAsset_def TxBurnAsset_def TxTransferAsset_def TxRegisterTemplate_def
  TxSessionOpen_def TxSessionResult_def TxListMarket_def TxBuyMarket_def

text \<open>The \<open>init\<close> functions of the modules.\<close>

definition module_inits :: "(bytes \<times> 'd handler) list" where
  "module_inits =
     [(TxMintAsset, handleMintAsset), (TxBurnAsset, handleBurnAsset), (TxTransferAsset, handleTransferAsset),
      (TxRegisterTemplate, handleRegisterTemplate), (TxTransfer, handleTransfer),
      (TxListMarket, handleListMarket), (TxBuyMarket, handleBuyMarket),
      (TxSessionOpen, handleSessionOpen), (TxSessionResult, handleSessionResult)]"

fun register_all :: "(bytes \<times> 'd handler) list \<Rightarrow> 'd registry \<Rightarrow> 'd registry result" where
  "register_all [] r = Inr r"
| "register_all (th # ths) r = bind_result (Register (fst th) (snd th) r) (register_all ths)"

definition globalRegistry :: "'d registry" where
  "globalRegistry = projr (register_all module_inits NewRegistry)"

section \<open>Transactions and blocks\<close>

text \<open>The first part of \<open>applyTx\<close>: nonce and fee, up to the dispatch.\<close>

definition charge_fee :: "'d db_iface \<Rightarrow> block \<Rightarrow> transaction \<Rightarrow> 'd statedb \<Rightarrow> 'd statedb \<times> unit result" where
  "charge_fee I block tx s =
     (case GetAccount I s (tx_From tx) of
        Inl e \<Rightarrow> (s, Inl (Wrapf ''get account'' e))
      | Inr acc \<Rightarrow>
      if acc_Nonce acc \<noteq> tx_Nonce tx then (s, Inl (Errorf ''invalid nonce''))
      else if acc_Balance acc < tx_Fee tx then (s, Inl (Errorf ''insufficient balance for fee''))
      else if acc_Nonce acc = max_uint64 then (s, Inl (Errorf ''nonce overflow for account''))
      else
      let acc1 = acc\<lparr>acc_Balance := acc_Balance acc - tx_Fee tx, acc_Nonce := acc_Nonce acc + 1\<rparr>;
          proposer = hdr_Proposer (blk_Header block) in
      if 0 < tx_Fee tx \<and> proposer \<noteq> [] \<and> tx_From tx \<noteq> proposer then
        let s1 = SetAccount s acc1 in
        case GetAccount I s1 proposer of
          Inl e \<Rightarrow> (s1, Inl (Wrapf ''get proposer account'' e))
        | Inr pacc \<Rightarrow>
        if max_uint64 - tx_Fee tx < acc_Balance pacc then (s1, Inl (Errorf ''proposer balance overflow''))
        else (SetAccount s1 (pacc\<lparr>acc_Balance := acc_Balance pacc + tx_Fee tx\<rparr>), Inr ())
      else
        let acc2 = (if 0 < tx_Fee tx \<and> tx_From tx = proposer
                    then acc1\<lparr>acc_Balance := acc_Balance acc1 + tx_Fee tx\<rparr> else acc1)
        in (SetAccount s acc2, Inr ()))"

definition applyTx ::
  "env \<Rightarrow> 'd db_iface \<Rightarrow> 'd emitter option \<Rightarrow> block \<Rightarrow> transaction \<Rightarrow> 'd statedb \<Rightarrow> 'd statedb \<times> unit result" where
  "applyTx E I em block tx s =
     (case charge_fee I block tx s of
        (s1, Inl e) \<Rightarrow> (s1, Inl e)
      | (s1, Inr _) \<Rightarrow>
          reg_Execute globalRegistry (tx_Type tx)
            \<lparr>ctx_Env = E, ctx_DB = I, ctx_Block = block, ctx_Tx = tx, ctx_Emitter = em\<rparr> (tx_Payload tx) s1)"

definition ExecuteTx ::
  "env \<Rightarrow> 'd db_iface \<Rightarrow> 'd emitter option \<Rightarrow> block \<Rightarrow> transaction \<Rightarrow> 'd statedb \<Rightarrow> 'd statedb \<times> unit result" where
  "ExecuteTx E I em block tx s =
     (case tx_Verify E tx of
        Inl e \<Rightarrow> (s, Inl (Wrapf ''signature'' e))
      | Inr _ \<Rightarrow>
      case Snapshot s of
        (s1, snapID) \<Rightarrow>
      case applyTx E I em block tx s1 of
        (s2, Inl e) \<Rightarrow>
          (case RevertToSnapshot s2 (int snapID) of
             (s3, Inl e') \<Rightarrow> (s3, Inl (Wrapf ''revert snapshot after tx failure'' e))
           | (s3, Inr _) \<Rightarrow> (s3, Inl e))
      | (s2, Inr _) \<Rightarrow>
          (emit_event em
             \<lparr>ev_Type = EventTxExecuted, ev_TxID = tx_ID tx, ev_BlockHeight = hdr_Height (blk_Header block),
              ev_Data = [(''type'', DStr (tx_Type tx)), (''from'', DStr (tx_From tx))]\<rparr> s2,
           Inr ()))"

fun execute_txs ::
  "env \<Rightarrow> 'd db_iface \<Rightarrow> 'd emitter option \<Rightarrow> block \<Rightarrow> transaction list \<Rightarrow> 'd statedb \<Rightarrow> 'd statedb \<times> unit result" where
  "execute_txs E I em block [] s = (s, Inr ())"
| "execute_txs E I em block (tx # txs) s =
     (case ExecuteTx E I em block tx s of
        (s1, Inl e) \<Rightarrow> (s1, Inl (Wrapf ''tx failed'' e))
      | (s1, Inr _) \<Rightarrow> execute_txs E I em block txs s1)"

definition ExecuteBlock ::
  "env \<Rightarrow> 'd db_iface \<Rightarrow> 'd emitter option \<Rightarrow> block \<Rightarrow> 'd statedb \<Rightarrow> 'd statedb \<times> unit result" where
  "ExecuteBlock E I em block s = execute_txs E I em block (blk_Transactions block) s"

section \<open>Dispatch\<close>

lemma register_all_ok: "register_all module_inits NewRegistry = Inr globalRegistry"
  by (simp add: globalRegistry_def module_inits_def Register_def NewRegistry_def tx_type_defs)

lemma globalRegistry_lookup:
  "fmlookup (reg_handlers globalRegistry) typ = map_of module_inits typ"
  by (simp add: globalRegistry_def module_inits_def Register_def NewRegistry_def tx_type_defs)

lemma reg_Execute_module:
  "reg_Execute globalRegistry typ =
     (case map_of module_inits typ of
        None \<Rightarrow> \<lambda>ctx payload s. (s, Inl (Errorf ''vm: no handler registered for TxType''))
      | Some h \<Rightarrow> h)"
  by (auto simp: reg_Execute_def globalRegistry_lookup fun_eq_iff split: option.split)

lemma reg_Execute_simps [simp]:
  "reg_Execute globalRegistry TxTransfer = handleTransfer"
  "reg_Execute globalRegistry TxMintAsset = handleMintAsset"
  "reg_Execute globalRegistry TxBurnAsset = handleBurnAsset"
  "reg_Execute globalRegistry TxTransferAsset = handleTransferAsset"
  "reg_Execute globalRegistry TxRegisterTemplate = handleRegisterTemplate"
  "reg_Execute globalRegistry TxSessionOpen = handleSessionOpen"
  "reg_Execute globalRegistry TxSessionResult = handleSessionResult"
  "reg_Execute globalRegistry TxListMarket = handleListMarket"
  "reg_Execute globalRegistry TxBuyMarket = handleBuyMarket"
  by (simp_all add: reg_Execute_module module_inits_def tx_type_defs)

lemma reg_Execute_cases:
  assumes "reg_Execute globalRegistry t ctx p s = r"
  obtains (transfer) "t = TxTransfer" "handleTransfer ctx p s = r"
  | (mint) "t = TxMintAsset" "handleMintAsset ctx p s = r"
  | (burn) "t = TxBurnAsset" "handleBurnAsset ctx p s = r"
  | (transfer_asset) "t = TxTransferAsset" "handleTransferAsset ctx p s = r"
  | (register) "t = TxRegisterTemplate" "handleRegisterTemplate ctx p s = r"
  | (session_open) "t = TxSessionOpen" "handleSessionOpen ctx p s = r"
  | (session_result) "t = TxSessionResult" "handleSessionResult ctx p s = r"
  | (list_market) "t = TxListMarket" "handleListMarket ctx p s = r"
  | (buy_market) "t = TxBuyMarket" "handleBuyMarket ctx p s = r"
  | (unknown) "t \<notin> {TxTransfer, TxMintAsset, TxBurnAsset, TxTransferAsset, TxRegisterTemplate, TxSessionOpen, TxSessionResult, TxListMarket, TxBuyMarket}" "r = (s, Inl (Errorf ''vm: no handler registered for TxType''))"
proof -
  consider "t = TxTransfer" | "t = TxMintAsset" | "t = TxBurnAsset" | "t = TxTransferAsset" | "t = TxRegisterTemplate" | "t = TxSessionOpen" | "t = TxSessionResult" | "t = TxListMarket" | "t = TxBuyMarket" | "t \<notin> {TxTransfer, TxMintAsset, TxBurnAsset, TxTransferAsset, TxRegisterTemplate, TxSessionOpen, TxSessionResult, TxListMarket, TxBuyMarket}"
    by blast
  then show thesis
  proof cases
    case 10
    then show ?thesis using assms by (intro unknown) (auto simp: reg_Execute_module module_inits_def)
  qed (metis assms reg_Execute_simps that)+
qed

end
