(* ===== verification/ModuleFacts.thy ===== *)
theory ModuleFacts
  imports Executor
begin

text \<open>
  What a handler does, in the form the properties use: a frame lemma per handler (a failing
  handler leaves the store and the snapshots alone) and an elimination rule per handler for its only
  successful path.
\<close>

section \<open>Frames\<close>

definition frame :: "'d statedb \<Rightarrow> 'd statedb \<times> 'a result \<Rightarrow> bool" where
  "frame s r \<longleftrightarrow> sdb_snapshots (fst r) = sdb_snapshots s \<and> (is_ok (snd r) \<or> sdb_db (fst r) = sdb_db s)"

lemma emit_event_frame [simp]:
  "sdb_snapshots (emit_event oem ev s) = sdb_snapshots s" "sdb_dirty (emit_event oem ev s) = sdb_dirty s"
  "sdb_deleted (emit_event oem ev s) = sdb_deleted s"
  by (simp_all add: emit_event_def split: option.split)

lemma ctx_emit_frame [simp]:
  "sdb_snapshots (ctx_emit ctx typ data s) = sdb_snapshots s" "sdb_dirty (ctx_emit ctx typ data s) = sdb_dirty s"
  "sdb_deleted (ctx_emit ctx typ data s) = sdb_deleted s"
  by (simp_all add: ctx_emit_def)

lemma frame_error [simp]: "frame s (s, r)"
  by (simp add: frame_def)

lemma frame_set [simp]:
  "frame s (SetAccount t a, r) = frame s (t, r)" "frame s (SetAsset t x, r) = frame s (t, r)"
  "frame s (DeleteAsset t i, r) = frame s (t, r)" "frame s (SetTemplate t q, r) = frame s (t, r)"
  "frame s (SetSession t z, r) = frame s (t, r)" "frame s (SetListing t l, r) = frame s (t, r)"
  "frame s (ctx_emit ctx typ data t, Inr u) = frame s (t, Inr u)"
  by (simp_all add: frame_def)

lemma frame_case_sum:
  "(\<And>e. r = Inl e \<Longrightarrow> frame s (f e)) \<Longrightarrow> (\<And>v. r = Inr v \<Longrightarrow> frame s (g v)) \<Longrightarrow>
     frame s (case r of Inl e \<Rightarrow> f e | Inr v \<Rightarrow> g v)"
  by (cases r) simp_all

lemma frame_if: "(b \<Longrightarrow> frame s x) \<Longrightarrow> (\<not> b \<Longrightarrow> frame s y) \<Longrightarrow> frame s (if b then x else y)"
  by simp

lemma lock_stakes_keeps:
  "sdb_snapshots (fst (lock_stakes I stakes ps s)) = sdb_snapshots s"
  "sdb_db (fst (lock_stakes I stakes ps s)) = sdb_db s"
  by (induction ps arbitrary: s) (auto split: sum.split)

lemma pay_rewards_keeps:
  "sdb_snapshots (fst (pay_rewards I krs s)) = sdb_snapshots s" "sdb_db (fst (pay_rewards I krs s)) = sdb_db s"
  by (induction krs arbitrary: s) (auto split: sum.split)

lemma frame_case_pair:
  assumes "sdb_snapshots (fst x) = sdb_snapshots s" "sdb_db (fst x) = sdb_db s"
    and "\<And>t v. x = (t, Inr v) \<Longrightarrow> sdb_snapshots t = sdb_snapshots s \<Longrightarrow> sdb_db t = sdb_db s \<Longrightarrow> frame s (g t v)"
  shows "frame s (case x of (t, Inl e) \<Rightarrow> (t, Inl e) | (t, Inr v) \<Rightarrow> g t v)"
  using assms by (cases x; cases "snd x") (auto simp: frame_def)

lemmas handler_defs =
  handleTransfer_def handleMintAsset_def handleBurnAsset_def handleTransferAsset_def
  handleRegisterTemplate_def handleListMarket_def handleBuyMarket_def

lemma simple_handler_frame:
  "frame s (handleTransfer ctx p s)" "frame s (handleMintAsset ctx p s)" "frame s (handleBurnAsset ctx p s)"
  "frame s (handleTransferAsset ctx p s)" "frame s (handleRegisterTemplate ctx p s)"
  "frame s (handleListMarket ctx p s)" "frame s (handleBuyMarket ctx p s)"
  unfolding handler_defs Let_def
  by (intro frame_case_sum frame_if; simp)+

lemma session_handler_frame:
  "frame s (handleSessionOpen ctx p s)" "frame s (handleSessionResult ctx p s)"
  unfolding handleSessionOpen_def handleSessionResult_def Let_def
  by (intro frame_case_sum frame_if frame_case_pair;
      simp add: lock_stakes_keeps pay_rewards_keeps frame_def is_ok_def)+

lemma reg_Execute_frame: "frame s (reg_Execute globalRegistry t ctx p s)"
  by (cases rule: reg_Execute_cases [OF refl, of t ctx p s])
    (metis simple_handler_frame session_handler_frame frame_error)+

lemma charge_fee_keeps:
  "sdb_snapshots (fst (charge_fee I block tx s)) = sdb_snapshots s"
  "sdb_db (fst (charge_fee I block tx s)) = sdb_db s"
  by (simp_all add: charge_fee_def Let_def split: sum.split)

lemma applyTx_frame: "frame s (applyTx E I em block tx s)"
proof -
  have "frame s (reg_Execute globalRegistry ty ctx p t)"
    if "sdb_snapshots t = sdb_snapshots s" "sdb_db t = sdb_db s" for t ty ctx p
    using reg_Execute_frame [of t ty ctx p] that by (simp add: frame_def)
  then show ?thesis
    unfolding applyTx_def by (intro frame_case_pair) (simp_all add: charge_fee_keeps)
qed

text \<open>
  A handler writes the buffer only through the accessors, which never touch the snapshots, so the revert
  after a failed transaction restores the state exactly, and its error is the handler's.
\<close>

lemma Snapshot_simps: "Snapshot s = (s\<lparr>sdb_snapshots := sdb_snapshots s @
    [\<lparr>snap_dirty = sdb_dirty s, snap_deleted = sdb_deleted s\<rparr>]\<rparr>, length (sdb_snapshots s))"
  by (simp add: Snapshot_def)

lemma ExecuteTx_cases:
  obtains (signature) e where "tx_Verify E tx = Inl e" "ExecuteTx E I em block tx s = (s, Inl (Wrapf ''signature'' e))"
  | (failed) e s2 where "tx_Verify E tx = Inr ()" "applyTx E I em block tx (fst (Snapshot s)) = (s2, Inl e)"
      "ExecuteTx E I em block tx s = (s, Inl e)"
  | (done_ok) s2 where "tx_Verify E tx = Inr ()" "applyTx E I em block tx (fst (Snapshot s)) = (s2, Inr ())"
      "ExecuteTx E I em block tx s =
        (emit_event em \<lparr>ev_Type = EventTxExecuted, ev_TxID = tx_ID tx,
           ev_BlockHeight = hdr_Height (blk_Header block),
           ev_Data = [(''type'', DStr (tx_Type tx)), (''from'', DStr (tx_From tx))]\<rparr> s2, Inr ())"
proof -
  obtain s2 r where a: "applyTx E I em block tx (fst (Snapshot s)) = (s2, r)" by fastforce
  have "sdb_snapshots s2 = sdb_snapshots (fst (Snapshot s))" "is_ok r \<or> sdb_db s2 = sdb_db s"
    using applyTx_frame [of "fst (Snapshot s)" E I em block tx] a by (auto simp: frame_def Snapshot_simps)
  then have rev: "RevertToSnapshot s2 (int (length (sdb_snapshots s))) = (s, Inr ())" if "\<not> is_ok r"
    using that by (simp add: RevertToSnapshot_def Snapshot_simps Let_def)
  show thesis
  proof (cases "tx_Verify E tx")
    case (Inl e)
    then show ?thesis by (intro signature) (simp_all add: ExecuteTx_def)
  next
    case (Inr u)
    show ?thesis
    proof (cases r)
      case (Inl e)
      then show ?thesis
        using a rev Inr by (intro failed) (auto simp: ExecuteTx_def Snapshot_simps)
    next
      case (Inr v)
      then show ?thesis
        using a \<open>tx_Verify E tx = Inr u\<close> by (intro done_ok) (auto simp: ExecuteTx_def Snapshot_simps)
    qed
  qed
qed

section \<open>The successful path of each handler\<close>

lemma handleTransfer_ok:
  assumes "handleTransfer ctx payload s = (s', Inr u)"
  obtains p pk sender recipient s1 where
    "unmarshal_raw dec_transfer payload = Inr p" "0 < tp_Amount p" "PubKeyFromHex (tp_To p) = Inr pk"
    "GetAccount (ctx_DB ctx) s (tx_From (ctx_Tx ctx)) = Inr sender" "tp_Amount p \<le> acc_Balance sender"
    "s1 = SetAccount s (sender\<lparr>acc_Balance := acc_Balance sender - tp_Amount p\<rparr>)"
    "GetAccount (ctx_DB ctx) s1 (tp_To p) = Inr recipient" "acc_Balance recipient \<le> max_uint64 - tp_Amount p"
    "s' = ctx_emit ctx EventTokenTransfer
       [(''from'', DStr (tx_From (ctx_Tx ctx))), (''to'', DStr (tp_To p)), (''amount'', DU64 (tp_Amount p))]
       (SetAccount s1 (recipient\<lparr>acc_Balance := acc_Balance recipient + tp_Amount p\<rparr>))"
  using assms by (auto simp: handleTransfer_def Let_def word_gt_0 not_less split: sum.splits if_splits)

lemma handleMintAsset_ok:
  assumes "handleMintAsset ctx payload s = (s', Inr u)"
  obtains p tmpl owner where
    "unmarshal_raw (dec_mint (float_norm (ctx_Env ctx))) payload = Inr p" "mp_TemplateID p \<noteq> []"
    "GetTemplate (ctx_Env ctx) (ctx_DB ctx) s (mp_TemplateID p) = Inr tmpl"
    "owner = (if mp_Owner p = [] then tx_From (ctx_Tx ctx) else mp_Owner p)"
    "mp_Owner p = [] \<or> is_ok (PubKeyFromHex (mp_Owner p))"
    "s' = ctx_emit ctx EventAssetMinted
       [(''asset_id'', DStr (asset_id (ctx_Env ctx) (ctx_Tx ctx) (mp_TemplateID p))),
        (''template_id'', DStr (mp_TemplateID p)), (''owner'', DStr owner)]
       (SetAsset s \<lparr>ast_ID = asset_id (ctx_Env ctx) (ctx_Tx ctx) (mp_TemplateID p),
          ast_TemplateID = mp_TemplateID p, ast_Owner = owner, ast_Properties = mp_Properties p,
          ast_Tradeable = tpl_Tradeable tmpl, ast_MintedAt = hdr_Timestamp (blk_Header (ctx_Block ctx)),
          ast_ActiveListingID = []\<rparr>)"
  using assms by (auto simp: handleMintAsset_def Let_def split: sum.splits if_splits)

lemma handleBurnAsset_ok:
  assumes "handleBurnAsset ctx payload s = (s', Inr u)"
  obtains p a where
    "unmarshal_raw dec_burn payload = Inr p" "GetAsset (ctx_Env ctx) (ctx_DB ctx) s (bp_AssetID p) = Inr a"
    "ast_Owner a = tx_From (ctx_Tx ctx)" "ast_ActiveListingID a = []"
    "s' = ctx_emit ctx EventAssetBurned [(''asset_id'', DStr (bp_AssetID p)), (''owner'', DStr (ast_Owner a))]
       (DeleteAsset s (bp_AssetID p))"
  using assms by (auto simp: handleBurnAsset_def Let_def split: sum.splits if_splits)

lemma handleTransferAsset_ok:
  assumes "handleTransferAsset ctx payload s = (s', Inr u)"
  obtains p pk a where
    "unmarshal_raw dec_transfer_asset payload = Inr p" "PubKeyFromHex (ap_To p) = Inr pk"
    "GetAsset (ctx_Env ctx) (ctx_DB ctx) s (ap_AssetID p) = Inr a"
    "ast_Owner a = tx_From (ctx_Tx ctx)" "ast_Tradeable a" "ast_ActiveListingID a = []"
    "s' = ctx_emit ctx EventAssetTransfer
       [(''asset_id'', DStr (ap_AssetID p)), (''from'', DStr (tx_From (ctx_Tx ctx))), (''to'', DStr (ap_To p))]
       (SetAsset s (a\<lparr>ast_Owner := ap_To p\<rparr>))"
  using assms by (auto simp: handleTransferAsset_def Let_def split: sum.splits if_splits)

lemma handleRegisterTemplate_ok:
  assumes "handleRegisterTemplate ctx payload s = (s', Inr u)"
  obtains p e where
    "unmarshal_raw (dec_register (float_norm (ctx_Env ctx))) payload = Inr p" "rp_ID p \<noteq> []"
    "GetTemplate (ctx_Env ctx) (ctx_DB ctx) s (rp_ID p) = Inl e" "is_not_found e"
    "s' = ctx_emit ctx EventTemplateReg [(''template_id'', DStr (rp_ID p)), (''name'', DStr (rp_Name p))]
       (SetTemplate s \<lparr>tpl_ID = rp_ID p, tpl_Name = rp_Name p, tpl_Schema = rp_Schema p,
          tpl_Tradeable = rp_Tradeable p, tpl_Creator = tx_From (ctx_Tx ctx)\<rparr>)"
  using assms by (auto simp: handleRegisterTemplate_def Let_def split: sum.splits if_splits)

lemma handleSessionOpen_ok:
  assumes "handleSessionOpen ctx payload s = (s', Inr u)"
  obtains p e s1 where
    "unmarshal_raw dec_session_open payload = Inr p" "sp_SessionID p \<noteq> []" "sp_Players p \<noteq> []"
    "GetSession (ctx_DB ctx) s (sp_SessionID p) = Inl e" "is_not_found e"
    "(if 0 < sp_Stakes p then lock_stakes (ctx_DB ctx) (sp_Stakes p) (sp_Players p) s else (s, Inr ())) = (s1, Inr ())"
    "s' = ctx_emit ctx EventSessionOpen
       [(''session_id'', DStr (sp_SessionID p)), (''game_id'', DStr (sp_GameID p)), (''players'', DStrs (sp_Players p))]
       (SetSession s1 \<lparr>ses_ID = sp_SessionID p, ses_GameID = sp_GameID p, ses_Creator = tx_From (ctx_Tx ctx),
          ses_Players = sp_Players p, ses_Stakes = sp_Stakes p, ses_Status = ''open'', ses_Outcome = Some fmempty,
          ses_CreatedAt = hdr_Timestamp (blk_Header (ctx_Block ctx)), ses_ClosedAt = 0\<rparr>)"
  using assms
  by (auto simp: handleSessionOpen_def Let_def split: sum.splits if_splits prod.splits)

definition player_set :: "bytes list \<Rightarrow> bool gomap" where
  "player_set ps = foldl (\<lambda>m player. fmupd player True m) fmempty ps"

lemma player_set_lookup: "fmlookup (player_set ps) k = Some True \<longleftrightarrow> k \<in> set ps"
proof -
  have "fmlookup (foldl (\<lambda>m player. fmupd player True m) m ps) k =
      (if k \<in> set ps then Some True else fmlookup m k)" for m
    by (induction ps arbitrary: m) auto
  then show ?thesis by (simp add: player_set_def)
qed

lemma handleSessionResult_ok:
  assumes "handleSessionResult ctx payload s = (s', Inr u)"
  obtains p sess s1 where
    "unmarshal_raw dec_session_result payload = Inr p"
    "GetSession (ctx_DB ctx) s (sr_SessionID p) = Inr sess" "ses_Status sess = ''open''"
    "ses_Creator sess = tx_From (ctx_Tx ctx)"
    "fset (fmdom (map_or_empty (sr_Outcome p))) \<subseteq> set (ses_Players sess)"
    "\<not> (0 < ses_Stakes sess \<and> max_uint64 div ses_Stakes sess < word_of_nat (length (ses_Players sess)))"
    "sum_rewards (ses_Stakes sess * word_of_nat (length (ses_Players sess))) 0
       (range_map (range_order (ctx_Env ctx) 7) (map_or_empty (sr_Outcome p))) =
     Inr (ses_Stakes sess * word_of_nat (length (ses_Players sess)))"
    "pay_rewards (ctx_DB ctx) (range_map (range_order (ctx_Env ctx) 8) (map_or_empty (sr_Outcome p))) s = (s1, Inr ())"
    "s' = ctx_emit ctx EventSessionClose [(''session_id'', DStr (sr_SessionID p))]
       (SetSession s1 (sess\<lparr>ses_Status := ''closed'', ses_Outcome := sr_Outcome p,
          ses_ClosedAt := hdr_Timestamp (blk_Header (ctx_Block ctx))\<rparr>))"
proof -
  obtain p where p: "unmarshal_raw dec_session_result payload = Inr p"
    using assms by (auto simp: handleSessionResult_def Let_def split: sum.splits)
  obtain sess where sess: "GetSession (ctx_DB ctx) s (sr_SessionID p) = Inr sess"
    using assms p by (auto simp: handleSessionResult_def Let_def split: sum.splits)
  note eq = assms [unfolded handleSessionResult_def Let_def p sess sum.case player_set_def [symmetric]]
  from eq have g: "ses_Status sess = ''open''" "ses_Creator sess = tx_From (ctx_Tx ctx)"
    "\<forall>kr\<in>set (range_map (range_order (ctx_Env ctx) 6) (map_or_empty (sr_Outcome p))). fst kr \<in> set (ses_Players sess)"
    "\<not> (0 < ses_Stakes sess \<and> max_uint64 div ses_Stakes sess < word_of_nat (length (ses_Players sess)))"
    by (auto simp: player_set_lookup split: if_splits)
  have "fset (fmdom (map_or_empty (sr_Outcome p))) \<subseteq> set (ses_Players sess)"
    unfolding fst_range_map [of "range_order (ctx_Env ctx) 6", symmetric] using g(3) by blast
  with p sess g that eq show thesis
    by (auto simp: player_set_lookup split: if_splits sum.splits prod.splits)
qed

lemma handleListMarket_ok:
  assumes "handleListMarket ctx payload s = (s', Inr u)"
  obtains p a lid where
    "unmarshal_raw dec_list_market payload = Inr p" "lp_Price p \<noteq> 0"
    "GetAsset (ctx_Env ctx) (ctx_DB ctx) s (lp_AssetID p) = Inr a"
    "ast_Owner a = tx_From (ctx_Tx ctx)" "ast_Tradeable a" "ast_ActiveListingID a = []"
    "lid = listing_id (ctx_Env ctx) (ctx_Tx ctx) (lp_AssetID p)"
    "s' = ctx_emit ctx EventMarketList
       [(''listing_id'', DStr lid), (''asset_id'', DStr (lp_AssetID p)), (''price'', DU64 (lp_Price p))]
       (SetAsset (SetListing s \<lparr>lst_ID = lid, lst_AssetID = lp_AssetID p, lst_Seller = tx_From (ctx_Tx ctx),
            lst_Price = lp_Price p, lst_Active = True,
            lst_CreatedAt = hdr_Timestamp (blk_Header (ctx_Block ctx))\<rparr>)
          (a\<lparr>ast_ActiveListingID := lid\<rparr>))"
  using assms by (auto simp: handleListMarket_def Let_def split: sum.splits if_splits)

lemma handleBuyMarket_ok:
  assumes "handleBuyMarket ctx payload s = (s', Inr u)"
  obtains p l buyer seller a s1 s2 where
    "unmarshal_raw dec_buy_market payload = Inr p" "GetListing (ctx_DB ctx) s (up_ListingID p) = Inr l"
    "lst_Active l" "lst_Seller l \<noteq> tx_From (ctx_Tx ctx)"
    "GetAccount (ctx_DB ctx) s (tx_From (ctx_Tx ctx)) = Inr buyer" "lst_Price l \<le> acc_Balance buyer"
    "s1 = SetAccount s (buyer\<lparr>acc_Balance := acc_Balance buyer - lst_Price l\<rparr>)"
    "GetAccount (ctx_DB ctx) s1 (lst_Seller l) = Inr seller" "acc_Balance seller \<le> max_uint64 - lst_Price l"
    "s2 = SetAccount s1 (seller\<lparr>acc_Balance := acc_Balance seller + lst_Price l\<rparr>)"
    "GetAsset (ctx_Env ctx) (ctx_DB ctx) s2 (lst_AssetID l) = Inr a"
    "s' = ctx_emit ctx EventMarketBuy
       [(''listing_id'', DStr (up_ListingID p)), (''asset_id'', DStr (lst_AssetID l)),
        (''buyer'', DStr (tx_From (ctx_Tx ctx))), (''seller'', DStr (lst_Seller l)), (''price'', DU64 (lst_Price l))]
       (SetListing (SetAsset s2 (a\<lparr>ast_Owner := tx_From (ctx_Tx ctx), ast_ActiveListingID := []\<rparr>))
          (l\<lparr>lst_Active := False\<rparr>))"
proof -
  obtain p l buyer where p: "unmarshal_raw dec_buy_market payload = Inr p"
      "GetListing (ctx_DB ctx) s (up_ListingID p) = Inr l"
      "GetAccount (ctx_DB ctx) s (tx_From (ctx_Tx ctx)) = Inr buyer"
    using assms by (auto simp: handleBuyMarket_def Let_def split: sum.splits if_splits)
  note eq = assms [unfolded handleBuyMarket_def Let_def p sum.case]
  from eq p that show thesis
    by (auto simp: not_less split: sum.splits if_splits)
qed

lemma charge_fee_ok:
  assumes "charge_fee I block tx s = (s', Inr u)"
  obtains acc acc1 where "GetAccount I s (tx_From tx) = Inr acc" "acc_Nonce acc = tx_Nonce tx"
    "tx_Fee tx \<le> acc_Balance acc" "acc_Nonce acc \<noteq> max_uint64"
    "acc1 = acc\<lparr>acc_Balance := acc_Balance acc - tx_Fee tx, acc_Nonce := acc_Nonce acc + 1\<rparr>"
    "(\<exists>pacc. 0 < tx_Fee tx \<and> hdr_Proposer (blk_Header block) \<noteq> [] \<and> tx_From tx \<noteq> hdr_Proposer (blk_Header block) \<and>
        GetAccount I (SetAccount s acc1) (hdr_Proposer (blk_Header block)) = Inr pacc \<and>
        acc_Balance pacc \<le> max_uint64 - tx_Fee tx \<and>
        s' = SetAccount (SetAccount s acc1) (pacc\<lparr>acc_Balance := acc_Balance pacc + tx_Fee tx\<rparr>)) \<or>
     0 < tx_Fee tx \<and> tx_From tx = hdr_Proposer (blk_Header block) \<and>
        s' = SetAccount s (acc1\<lparr>acc_Balance := acc_Balance acc\<rparr>) \<or>
     (tx_Fee tx = 0 \<or> hdr_Proposer (blk_Header block) = [] \<and> tx_From tx \<noteq> []) \<and> s' = SetAccount s acc1"
proof -
  obtain acc where acc: "GetAccount I s (tx_From tx) = Inr acc"
    using assms by (auto simp: charge_fee_def split: sum.splits)
  note eq = assms [unfolded charge_fee_def Let_def acc sum.case]
  from eq have "acc_Nonce acc = tx_Nonce tx" "tx_Fee tx \<le> acc_Balance acc" "acc_Nonce acc \<noteq> max_uint64"
    by (auto split: if_splits)
  with eq acc show thesis
    by (intro that [OF acc _ _ _ refl]) (auto simp: word_gt_0 not_less split: sum.splits if_splits)
qed

end
