(* ===== verification/StateInv.thy ===== *)
theory StateInv
  imports ModuleFacts
begin

text \<open>
  The well-formedness of the world state (every object is stored under its own ID and survives a round
  trip through its JSON form) and that every handler, transaction and block keeps it.
\<close>

section \<open>The size of a decoded list\<close>

text \<open>A payload is a Go byte slice, so its length fits an \<open>int\<close>.\<close>

definition payload_fits :: "json option \<Rightarrow> bool" where
  "payload_fits p \<longleftrightarrow> (case p of None \<Rightarrow> True | Some j \<Rightarrow> length (print_json j) < 2 ^ 63)"

lemma print_elems_length: "length vs \<le> Suc (length (print_elems vs))"
  by (induction vs rule: induct_list012) auto

lemma print_members_length: "m \<in> set ms \<Longrightarrow> length (print_json (snd m)) \<le> length (print_members ms)"
  by (induction ms rule: induct_list012) auto

lemma dec_strings_length:
  assumes "dec_strings old j = Inr ss"
  shows "length ss \<le> length (print_json j)"
proof -
  have l: "dec_str_elems old vs = Inr ss \<Longrightarrow> length ss = length vs" for vs old
  proof (induction vs arbitrary: old ss)
    case (Cons v vs)
    then show ?case by (fastforce simp: bind_result_Inr map_result_Inr)
  qed simp
  show ?thesis
  proof (cases j)
    case (JArr vs)
    with assms l [of old vs] print_elems_length [of vs] show ?thesis by (simp add: dec_strings_def)
  qed (use assms in \<open>auto simp: dec_strings_def\<close>)
qed

lemma decode_fields_bound:
  assumes "decode_fields names f ms a = Inr b" "P a" "\<forall>m\<in>set ms. length (print_json (snd m)) < N"
    and "\<And>n v x y. f n v x = Inr y \<Longrightarrow> length (print_json v) < N \<Longrightarrow> P x \<Longrightarrow> P y"
  shows "P b"
  using assms(1-3)
proof (induction ms arbitrary: a)
  case (Cons m ms)
  show ?case
  proof (cases "match_field names (unquote_go (fst m))")
    case None
    with Cons show ?thesis by simp
  next
    case (Some n)
    with Cons.prems(1) obtain c where c: "f n (snd m) a = Inr c" "decode_fields names f ms c = Inr b"
      by (auto simp: bind_result_Inr)
    have "P c" using assms(4) [OF c(1)] Cons.prems(2,3) by simp
    with Cons.IH [OF c(2)] Cons.prems(3) show ?thesis by simp
  qed
qed simp

lemma session_open_players_fit:
  assumes "unmarshal_raw dec_session_open payload = Inr p" "payload_fits payload"
  shows "length (sp_Players p) < 2 ^ 63"
proof -
  obtain j where j: "payload = Some j" "dec_session_open j = Inr p"
    using assms(1) by (auto simp: unmarshal_raw_Inr)
  have len: "length (print_json j) < 2 ^ 63" using assms(2) j by (simp add: payload_fits_def)
  have field: "length (sp_Players y) < 2 ^ 63"
    if "session_open_field n v x = Inr y" "length (print_json v) < 2 ^ 63" "length (sp_Players x) < 2 ^ 63" for n v x y
    using that dec_strings_length [of "sp_Players x" v]
    by (auto simp: session_open_field_def map_result_Inr split: if_splits)
  show ?thesis
  proof (cases j)
    case (JObj ms)
    then have "\<forall>m\<in>set ms. length (print_json (snd m)) < 2 ^ 63"
      using len print_members_length by fastforce
    with j JObj show ?thesis
      using decode_fields_bound [where P = "\<lambda>p. length (sp_Players p) < 2 ^ 63", OF _ _ _ field]
      by (simp add: dec_session_open_def decode_struct_def)
  qed (use j in \<open>auto simp: dec_session_open_def decode_struct_def\<close>)
qed

section \<open>Well-formed states\<close>

definition state_ok :: "env \<Rightarrow> 'd db_iface \<Rightarrow> 'd statedb \<Rightarrow> bool" where
  "state_ok E I s \<longleftrightarrow>
     (\<forall>a acc. GetAccount I s a = Inr acc \<longrightarrow> acc_Address acc = a) \<and>
     (\<forall>i x. GetAsset E I s i = Inr x \<longrightarrow> ast_ID x = i \<and> asset_ok (float_norm E) x) \<and>
     (\<forall>i t. GetTemplate E I s i = Inr t \<longrightarrow> tpl_ID t = i \<and> template_ok (float_norm E) t) \<and>
     (\<forall>i q. GetSession I s i = Inr q \<longrightarrow> ses_ID q = i \<and> session_ok q \<and> length (ses_Players q) < 2 ^ 63) \<and>
     (\<forall>i l. GetListing I s i = Inr l \<longrightarrow> lst_ID l = i \<and> listing_ok l)"

lemma state_okD:
  assumes "state_ok E I s"
  shows "GetAccount I s a = Inr acc \<Longrightarrow> acc_Address acc = a"
    "GetAsset E I s i = Inr x \<Longrightarrow> ast_ID x = i \<and> asset_ok (float_norm E) x"
    "GetTemplate E I s i = Inr t \<Longrightarrow> tpl_ID t = i \<and> template_ok (float_norm E) t"
    "GetSession I s i = Inr q \<Longrightarrow> ses_ID q = i \<and> session_ok q \<and> length (ses_Players q) < 2 ^ 63"
    "GetListing I s i = Inr l \<Longrightarrow> lst_ID l = i \<and> listing_ok l"
  using assms by (simp_all add: state_ok_def)

lemma state_ok_set:
  assumes "state_ok E I s"
  shows "account_ok acc \<Longrightarrow> state_ok E I (SetAccount s acc)"
    "asset_ok (float_norm E) x \<Longrightarrow> state_ok E I (SetAsset s x)"
    "state_ok E I (DeleteAsset s b)"
    "template_ok (float_norm E) t \<Longrightarrow> state_ok E I (SetTemplate s t)"
    "session_ok q \<Longrightarrow> length (ses_Players q) < 2 ^ 63 \<Longrightarrow> state_ok E I (SetSession s q)"
    "listing_ok l \<Longrightarrow> state_ok E I (SetListing s l)"
  using assms by (simp_all add: state_ok_def)

definition emitter_opt_ok :: "'d db_iface \<Rightarrow> 'd emitter option \<Rightarrow> bool" where
  "emitter_opt_ok I oem \<longleftrightarrow> (case oem of None \<Rightarrow> True | Some em \<Rightarrow> emitter_ok I em)"

lemma emit_event_get [simp]:
  assumes "emitter_opt_ok I oem"
  shows "GetAccount I (emit_event oem ev s) a = GetAccount I s a"
    "GetAsset E I (emit_event oem ev s) b = GetAsset E I s b"
    "GetTemplate E I (emit_event oem ev s) c = GetTemplate E I s c"
    "GetSession I (emit_event oem ev s) d = GetSession I s d"
    "GetListing I (emit_event oem ev s) e = GetListing I s e"
  using assms by (simp_all add: emit_event_def emitter_opt_ok_def Emit_keeps split: option.splits)

lemma ctx_emit_get [simp]:
  assumes "emitter_opt_ok (ctx_DB ctx) (ctx_Emitter ctx)"
  shows "GetAccount (ctx_DB ctx) (ctx_emit ctx ty data s) a = GetAccount (ctx_DB ctx) s a"
    "GetAsset E (ctx_DB ctx) (ctx_emit ctx ty data s) b = GetAsset E (ctx_DB ctx) s b"
    "GetTemplate E (ctx_DB ctx) (ctx_emit ctx ty data s) c = GetTemplate E (ctx_DB ctx) s c"
    "GetSession (ctx_DB ctx) (ctx_emit ctx ty data s) d = GetSession (ctx_DB ctx) s d"
    "GetListing (ctx_DB ctx) (ctx_emit ctx ty data s) e = GetListing (ctx_DB ctx) s e"
  using assms by (simp_all add: ctx_emit_def)

lemma state_ok_emit:
  "emitter_opt_ok I oem \<Longrightarrow> state_ok E I (emit_event oem ev s) = state_ok E I s"
  "emitter_opt_ok (ctx_DB ctx) (ctx_Emitter ctx) \<Longrightarrow>
     state_ok E (ctx_DB ctx) (ctx_emit ctx ty data s) = state_ok E (ctx_DB ctx) s"
  by (simp_all add: state_ok_def)

text \<open>A state is read only through its buffer and its store, so a snapshot does not change it.\<close>

lemma sdb_get_snapshots [simp]: "sdb_get I (s\<lparr>sdb_snapshots := n\<rparr>) k = sdb_get I s k"
  by (simp add: sdb_get_def split: option.split)

lemma get_Snapshot [simp]:
  "GetAccount I (fst (Snapshot s)) a = GetAccount I s a" "GetAsset E I (fst (Snapshot s)) b = GetAsset E I s b"
  "GetTemplate E I (fst (Snapshot s)) c = GetTemplate E I s c" "GetSession I (fst (Snapshot s)) d = GetSession I s d"
  "GetListing I (fst (Snapshot s)) e = GetListing I s e"
  by (simp_all add: Snapshot_simps accessor_defs)

lemma state_ok_Snapshot [simp]: "state_ok E I (fst (Snapshot s)) = state_ok E I s"
  by (simp add: state_ok_def)

section \<open>Handlers keep the state well formed\<close>

lemma asset_ok_upd:
  "asset_ok fn a \<Longrightarrow> utf8_ok own \<Longrightarrow> asset_ok fn (a\<lparr>ast_Owner := own\<rparr>)"
  "asset_ok fn a \<Longrightarrow> utf8_ok lid \<Longrightarrow> asset_ok fn (a\<lparr>ast_ActiveListingID := lid\<rparr>)"
  by (simp_all add: asset_ok_def)

text \<open>What the executor guarantees of the context it builds.\<close>

definition ctx_ok :: "'d vm_context \<Rightarrow> bool" where
  "ctx_ok ctx \<longleftrightarrow>
     runtime_ok (ctx_Env ctx) \<and> emitter_opt_ok (ctx_DB ctx) (ctx_Emitter ctx) \<and>
     utf8_ok (tx_From (ctx_Tx ctx)) \<and> in_int64 (hdr_Timestamp (blk_Header (ctx_Block ctx)))"

lemma ctx_okD:
  assumes "ctx_ok ctx"
  shows "float_law (float_norm (ctx_Env ctx))" "emitter_opt_ok (ctx_DB ctx) (ctx_Emitter ctx)"
    "utf8_ok (tx_From (ctx_Tx ctx))" "in_int64 (hdr_Timestamp (blk_Header (ctx_Block ctx)))"
  using assms by (simp_all add: ctx_ok_def runtime_ok_def)

lemma state_ok_SetAccount_upd:
  assumes "state_ok E I s" "GetAccount I s a = Inr acc" "utf8_ok a"
  shows "state_ok E I (SetAccount s (acc\<lparr>acc_Balance := b\<rparr>))"
    "state_ok E I (SetAccount s (acc\<lparr>acc_Balance := b, acc_Nonce := n\<rparr>))"
    "state_ok E I (SetAccount s (acc\<lparr>acc_Nonce := n\<rparr>))"
  using assms state_okD(1) [OF assms(1,2)] by (auto intro!: state_ok_set simp: account_ok_def)

lemma handleTransfer_state_ok:
  assumes "ctx_ok ctx" "state_ok E (ctx_DB ctx) s" "handleTransfer ctx payload s = (s', Inr u)"
  shows "state_ok E (ctx_DB ctx) s'"
  using assms(3)
proof (cases rule: handleTransfer_ok)
  case (1 p pk sender recipient s1)
  have "utf8_ok (tp_To p)" using PubKeyFromHex_utf8 1(3) by blast
  with 1 assms ctx_okD [OF assms(1)] show ?thesis
    using state_ok_SetAccount_upd(1) state_ok_emit(2) by metis
qed

lemma handleMintAsset_state_ok:
  assumes "ctx_ok ctx" "state_ok (ctx_Env ctx) (ctx_DB ctx) s" "handleMintAsset ctx payload s = (s', Inr u)"
  shows "state_ok (ctx_Env ctx) (ctx_DB ctx) s'"
  using assms(3)
proof (cases rule: handleMintAsset_ok)
  case (1 p tmpl owner)
  obtain j where "raw_valid j" "dec_mint (float_norm (ctx_Env ctx)) j = Inr p"
    using 1(1) by (auto simp: unmarshal_raw_Inr)
  then have p: "utf8_ok (mp_TemplateID p)" "utf8_ok (mp_Owner p)" "anymap_valid (float_norm (ctx_Env ctx)) (mp_Properties p)"
    using dec_mint_valid [OF ctx_okD(1) [OF assms(1)]] by blast+
  have "utf8_ok owner" using p(2) 1(4) ctx_okD(3) [OF assms(1)] by simp
  with 1 p assms ctx_okD [OF assms(1)] show ?thesis
    by (simp add: state_ok_emit state_ok_set asset_ok_def asset_id_def anymap_valid_def)
qed

lemma handleBurnAsset_state_ok:
  assumes "ctx_ok ctx" "state_ok E (ctx_DB ctx) s" "handleBurnAsset ctx payload s = (s', Inr u)"
  shows "state_ok E (ctx_DB ctx) s'"
  using assms(3)
  by (cases rule: handleBurnAsset_ok) (simp add: assms(2) ctx_okD(2) [OF assms(1)] state_ok_emit state_ok_set)

lemma handleTransferAsset_state_ok:
  assumes "ctx_ok ctx" "state_ok (ctx_Env ctx) (ctx_DB ctx) s" "handleTransferAsset ctx payload s = (s', Inr u)"
  shows "state_ok (ctx_Env ctx) (ctx_DB ctx) s'"
  using assms(3)
proof (cases rule: handleTransferAsset_ok)
  case (1 p pk a)
  have "utf8_ok (ap_To p)" using PubKeyFromHex_utf8 1(2) by blast
  with 1 assms(2) ctx_okD [OF assms(1)] state_okD(2) [OF assms(2) 1(3)] show ?thesis
    by (simp add: state_ok_emit state_ok_set asset_ok_upd)
qed

lemma handleRegisterTemplate_state_ok:
  assumes "ctx_ok ctx" "state_ok (ctx_Env ctx) (ctx_DB ctx) s" "handleRegisterTemplate ctx payload s = (s', Inr u)"
  shows "state_ok (ctx_Env ctx) (ctx_DB ctx) s'"
  using assms(3)
proof (cases rule: handleRegisterTemplate_ok)
  case (1 p e)
  obtain j where "raw_valid j" "dec_register (float_norm (ctx_Env ctx)) j = Inr p"
    using 1(1) by (auto simp: unmarshal_raw_Inr)
  then have p: "utf8_ok (rp_ID p)" "utf8_ok (rp_Name p)" "anymap_valid (float_norm (ctx_Env ctx)) (rp_Schema p)"
    using dec_register_valid [OF ctx_okD(1) [OF assms(1)]] by blast+
  with 1 assms(2) ctx_okD [OF assms(1)] show ?thesis
    by (simp add: state_ok_emit state_ok_set template_ok_def anymap_valid_def)
qed

lemma lock_stakes_state_ok:
  assumes "state_ok E I s" "\<forall>p\<in>set ps. utf8_ok p" "lock_stakes I stakes ps s = (s', r)"
  shows "state_ok E I s'"
  using assms
proof (induction ps arbitrary: s)
  case (Cons p ps)
  then show ?case
    using state_ok_SetAccount_upd(1) [OF Cons.prems(1)] by (fastforce split: sum.splits if_splits)
qed simp

lemma pay_rewards_state_ok:
  assumes "state_ok E I s" "\<forall>kr\<in>set krs. utf8_ok (fst kr)" "pay_rewards I krs s = (s', r)"
  shows "state_ok E I s'"
  using assms
proof (induction krs arbitrary: s)
  case (Cons kr krs)
  then show ?case
    using state_ok_SetAccount_upd(1) [OF Cons.prems(1)] by (fastforce split: sum.splits if_splits)
qed simp

lemma handleSessionOpen_state_ok:
  assumes "ctx_ok ctx" "state_ok E (ctx_DB ctx) s" "payload_fits payload"
    and "handleSessionOpen ctx payload s = (s', Inr u)"
  shows "state_ok E (ctx_DB ctx) s'"
  using assms(4)
proof (cases rule: handleSessionOpen_ok)
  case (1 p e s1)
  have p: "utf8_ok (sp_SessionID p)" "utf8_ok (sp_GameID p)" "\<forall>q\<in>set (sp_Players p). utf8_ok q"
    using 1(1) dec_session_open_utf8 by (auto simp: unmarshal_raw_Inr)
  have "state_ok E (ctx_DB ctx) s1"
    using 1(6) lock_stakes_state_ok [OF assms(2) p(3)] assms(2) by (auto split: if_splits)
  with 1 p ctx_okD [OF assms(1)] session_open_players_fit [OF 1(1) assms(3)] show ?thesis
    by (simp add: state_ok_emit state_ok_set session_ok_def map_utf8_def utf8_ok_ascii in_int64_def)
qed

lemma handleSessionResult_state_ok:
  assumes "ctx_ok ctx" "state_ok E (ctx_DB ctx) s" "handleSessionResult ctx payload s = (s', Inr u)"
  shows "state_ok E (ctx_DB ctx) s'"
  using assms(3)
proof (cases rule: handleSessionResult_ok)
  case (1 p sess s1)
  have p: "utf8_ok (sr_SessionID p)" "map_utf8 (sr_Outcome p)"
    using 1(1) dec_session_result_utf8 by (auto simp: unmarshal_raw_Inr)
  have q: "session_ok sess" "length (ses_Players sess) < 2 ^ 63"
    using state_okD(4) [OF assms(2) 1(2)] by simp_all
  have "\<forall>kr\<in>set (range_map ord (map_or_empty (sr_Outcome p))). utf8_ok (fst kr)" for ord
    using p(2) fst_range_map [of ord "map_or_empty (sr_Outcome p)"] unfolding map_utf8_def by blast
  then have "state_ok E (ctx_DB ctx) s1"
    using pay_rewards_state_ok [OF assms(2) _ 1(8)] by blast
  with 1 p q ctx_okD [OF assms(1)] show ?thesis
    by (simp add: state_ok_emit state_ok_set session_ok_def utf8_ok_ascii)
qed

lemma handleListMarket_state_ok:
  assumes "ctx_ok ctx" "state_ok (ctx_Env ctx) (ctx_DB ctx) s" "handleListMarket ctx payload s = (s', Inr u)"
  shows "state_ok (ctx_Env ctx) (ctx_DB ctx) s'"
  using assms(3)
proof (cases rule: handleListMarket_ok)
  case (1 p a lid)
  have "utf8_ok (lp_AssetID p)" using 1(1) dec_list_market_utf8 by (auto simp: unmarshal_raw_Inr)
  moreover have "utf8_ok lid" using 1(7) by (simp add: listing_id_def)
  moreover have "asset_ok (float_norm (ctx_Env ctx)) a" using state_okD(2) [OF assms(2) 1(3)] by simp
  ultimately show ?thesis
    using 1(8) assms(2) ctx_okD [OF assms(1)]
    by (simp add: state_ok_emit state_ok_set asset_ok_upd listing_ok_def)
qed

lemma handleBuyMarket_state_ok:
  assumes "ctx_ok ctx" "state_ok (ctx_Env ctx) (ctx_DB ctx) s" "handleBuyMarket ctx payload s = (s', Inr u)"
  shows "state_ok (ctx_Env ctx) (ctx_DB ctx) s'"
  using assms(3)
proof (cases rule: handleBuyMarket_ok)
  case (1 p l buyer seller a s1 s2)
  have l: "listing_ok l" using state_okD(5) [OF assms(2) 1(2)] by simp
  have s1: "state_ok (ctx_Env ctx) (ctx_DB ctx) s1"
    using state_ok_SetAccount_upd(1) [OF assms(2) 1(5)] 1(7) ctx_okD(3) [OF assms(1)] by simp
  have s2: "state_ok (ctx_Env ctx) (ctx_DB ctx) s2"
    using state_ok_SetAccount_upd(1) [OF s1 1(8)] 1(10) l by (simp add: listing_ok_def)
  have "asset_ok (float_norm (ctx_Env ctx)) a" using state_okD(2) [OF s2 1(11)] by simp
  then show ?thesis
    using 1(12) s2 l ctx_okD [OF assms(1)]
    by (simp add: state_ok_emit state_ok_set asset_ok_upd listing_ok_def)
qed

section \<open>Transactions and blocks keep the state well formed\<close>

lemma reg_Execute_state_ok:
  assumes "ctx_ok ctx" "state_ok (ctx_Env ctx) (ctx_DB ctx) s" "payload_fits payload"
    and "reg_Execute globalRegistry ty ctx payload s = (s', Inr u)"
  shows "state_ok (ctx_Env ctx) (ctx_DB ctx) s'"
  using assms(4)
  by (cases rule: reg_Execute_cases)
    (auto dest: handleTransfer_state_ok [OF assms(1,2)] handleMintAsset_state_ok [OF assms(1,2)]
      handleBurnAsset_state_ok [OF assms(1,2)] handleTransferAsset_state_ok [OF assms(1,2)]
      handleRegisterTemplate_state_ok [OF assms(1,2)] handleSessionOpen_state_ok [OF assms(1-3)]
      handleSessionResult_state_ok [OF assms(1,2)] handleListMarket_state_ok [OF assms(1,2)]
      handleBuyMarket_state_ok [OF assms(1,2)])

text \<open>
  What execution relies on besides the code: the run time prints floats as documented, subscribers
  leave world-state keys alone, header fields are what the JSON decoder produces, payloads are Go slices.
\<close>

definition run_ok :: "env \<Rightarrow> 'd db_iface \<Rightarrow> 'd emitter option \<Rightarrow> block \<Rightarrow> bool" where
  "run_ok E I em block \<longleftrightarrow>
     runtime_ok E \<and> emitter_opt_ok I em \<and> in_int64 (hdr_Timestamp (blk_Header block)) \<and>
     utf8_ok (hdr_Proposer (blk_Header block))"

lemma charge_fee_state_ok:
  assumes "state_ok E I s" "utf8_ok (tx_From tx)" "utf8_ok (hdr_Proposer (blk_Header block))"
    and "charge_fee I block tx s = (s', Inr u)"
  shows "state_ok E I s'"
  using assms(4)
proof (cases rule: charge_fee_ok)
  case (1 acc acc1)
  note upd = state_ok_SetAccount_upd(2,3) [OF assms(1) 1(1) assms(2)]
  have "state_ok E I (SetAccount s acc1)" using upd 1(5) by simp
  moreover have "state_ok E I (SetAccount s (acc1\<lparr>acc_Balance := acc_Balance acc\<rparr>))" using upd 1(5) by simp
  ultimately show ?thesis
    using 1(6) state_ok_SetAccount_upd(1) [OF _ _ assms(3)] by blast
qed

lemma ExecuteTx_state_ok:
  assumes "run_ok E I em block" "payload_fits (tx_Payload tx)" "state_ok E I s"
    and "ExecuteTx E I em block tx s = (s', r)"
  shows "state_ok E I s'"
proof (cases rule: ExecuteTx_cases [of E tx I em block s])
  case (done_ok s2)
  obtain s1 where fee: "charge_fee I block tx (fst (Snapshot s)) = (s1, Inr ())"
    and ex: "reg_Execute globalRegistry (tx_Type tx)
      \<lparr>ctx_Env = E, ctx_DB = I, ctx_Block = block, ctx_Tx = tx, ctx_Emitter = em\<rparr> (tx_Payload tx) s1 = (s2, Inr ())"
    using done_ok(2) by (auto simp: applyTx_def split: prod.splits sum.splits)
  have "utf8_ok (tx_From tx)" by (rule tx_Verify_utf8 [OF done_ok(1)])
  moreover from this have "state_ok E I s1"
    using charge_fee_state_ok [OF _ _ _ fee] assms(1,3) by (simp add: run_ok_def)
  ultimately have "state_ok E I s2"
    using reg_Execute_state_ok [OF _ _ assms(2) ex] assms(1) by (simp add: ctx_ok_def run_ok_def)
  then show ?thesis
    using done_ok(3) assms(1,4) by (auto simp: state_ok_emit run_ok_def)
qed (use assms in auto)

lemma execute_txs_state_ok:
  assumes "run_ok E I em block" "\<forall>tx\<in>set txs. payload_fits (tx_Payload tx)" "state_ok E I s"
    and "execute_txs E I em block txs s = (s', r)"
  shows "state_ok E I s'"
  using assms(2-4)
proof (induction txs arbitrary: s)
  case (Cons tx txs)
  obtain s1 r1 where s1: "ExecuteTx E I em block tx s = (s1, r1)" by fastforce
  have "state_ok E I s1"
    using ExecuteTx_state_ok [OF assms(1) _ _ s1] Cons.prems by simp
  with Cons s1 show ?case by (cases r1) auto
qed simp

end
