(* ===== verification/Supply.thy ===== *)
theory Supply
  imports StateInv
begin

text \<open>
  Conservation of tokens: the sum of all balances and of the stakes locked in open sessions changes
  only by a fee that has no proposer to go to.
\<close>

section \<open>Sums of functions that are zero almost everywhere\<close>

definition sum_of :: "('a \<Rightarrow> nat) \<Rightarrow> nat" where
  "sum_of f = sum f {a. f a \<noteq> 0}"

lemma sum_of_superset: "finite A \<Longrightarrow> {a. f a \<noteq> 0} \<subseteq> A \<Longrightarrow> sum_of f = sum f A"
  unfolding sum_of_def by (rule sum.mono_neutral_left) auto

lemma sum_of_upd:
  assumes "finite {a. f a \<noteq> 0}"
  shows "sum_of (f(a := x)) + f a = sum_of f + x"
proof -
  define A where "A = insert a {a. f a \<noteq> 0}"
  have A: "finite A" "a \<in> A" using assms by (simp_all add: A_def)
  have "sum_of (f(a := x)) = sum (f(a := x)) A" "sum_of f = sum f A"
    using A by (intro sum_of_superset; auto simp: A_def)+
  moreover have "sum (f(a := x)) A = x + sum f (A - {a})" "sum f A = f a + sum f (A - {a})"
    using A by (simp_all add: sum.remove [of A a])
  ultimately show ?thesis by simp
qed

section \<open>Balances and locked stakes\<close>

definition balances :: "'d db_iface \<Rightarrow> 'd statedb \<Rightarrow> bytes \<Rightarrow> nat" where
  "balances I s a = (case GetAccount I s a of Inl e \<Rightarrow> 0 | Inr acc \<Rightarrow> unat (acc_Balance acc))"

definition stake_of :: "session \<Rightarrow> nat" where
  "stake_of q = (if ses_Status q = ''open'' then unat (ses_Stakes q) * length (ses_Players q) else 0)"

definition locked :: "'d db_iface \<Rightarrow> 'd statedb \<Rightarrow> bytes \<Rightarrow> nat" where
  "locked I s i = (case GetSession I s i of Inl e \<Rightarrow> 0 | Inr q \<Rightarrow> stake_of q)"

definition total_supply :: "'d db_iface \<Rightarrow> 'd statedb \<Rightarrow> nat" where
  "total_supply I s = sum_of (balances I s) + sum_of (locked I s)"

lemma balances_simps [simp]:
  "account_ok acc \<Longrightarrow> balances I (SetAccount s acc) = (balances I s)(acc_Address acc := unat (acc_Balance acc))"
  "balances I (SetAsset s x) = balances I s" "balances I (DeleteAsset s b) = balances I s"
  "balances I (SetTemplate s t) = balances I s" "balances I (SetSession s q) = balances I s"
  "balances I (SetListing s l) = balances I s" "balances I (fst (Snapshot s)) = balances I s"
  by (auto simp: balances_def fun_eq_iff)

lemma locked_simps [simp]:
  "session_ok q \<Longrightarrow> locked I (SetSession s q) = (locked I s)(ses_ID q := stake_of q)"
  "locked I (SetAccount s acc) = locked I s"
  "locked I (SetAsset s x) = locked I s" "locked I (DeleteAsset s b) = locked I s"
  "locked I (SetTemplate s t) = locked I s" "locked I (SetListing s l) = locked I s"
  "locked I (fst (Snapshot s)) = locked I s"
  by (auto simp: locked_def fun_eq_iff)

lemma emit_supply [simp]:
  "emitter_opt_ok I oem \<Longrightarrow> balances I (emit_event oem ev s) = balances I s"
  "emitter_opt_ok I oem \<Longrightarrow> locked I (emit_event oem ev s) = locked I s"
  "emitter_opt_ok (ctx_DB ctx) (ctx_Emitter ctx) \<Longrightarrow> balances (ctx_DB ctx) (ctx_emit ctx ty data s) = balances (ctx_DB ctx) s"
  "emitter_opt_ok (ctx_DB ctx) (ctx_Emitter ctx) \<Longrightarrow> locked (ctx_DB ctx) (ctx_emit ctx ty data s) = locked (ctx_DB ctx) s"
  by (auto simp: balances_def locked_def fun_eq_iff)

context kv_db
begin

lemma finite_view: "finite (dom (view \<alpha> s))"
proof (rule finite_subset)
  show "dom (view \<alpha> s) \<subseteq> fset (fmdom (sdb_dirty s)) \<union> dom (\<alpha> (sdb_db s))"
    by (auto simp: view_def fmdomI split: if_splits option.splits)
qed (simp add: finite_store)

lemma finite_prefixed: "finite {a. p @ a \<in> dom (view \<alpha> s)}"
proof -
  have "{a. p @ a \<in> dom (view \<alpha> s)} = (\<lambda>a. p @ a) -` dom (view \<alpha> s)" by auto
  then show ?thesis by (simp add: finite_vimageI finite_view inj_on_def)
qed

lemma finite_balances: "finite {a. balances I s a \<noteq> 0}"
proof (rule finite_subset [OF _ finite_prefixed])
  show "{a. balances I s a \<noteq> 0} \<subseteq> {a. prefixAccount @ a \<in> dom (view \<alpha> s)}"
  proof
    fix a
    assume "a \<in> {a. balances I s a \<noteq> 0}"
    then obtain v where "sdb_get I s (prefixAccount @ a) = Inr v"
      by (cases "sdb_get I s (prefixAccount @ a)")
        (auto simp: balances_def GetAccount_def new_account_def split: if_splits)
    then show "a \<in> {a. prefixAccount @ a \<in> dom (view \<alpha> s)}" using get_view_found by auto
  qed
qed

lemma finite_locked: "finite {i. locked I s i \<noteq> 0}"
proof (rule finite_subset [OF _ finite_prefixed])
  show "{i. locked I s i \<noteq> 0} \<subseteq> {i. prefixSession @ i \<in> dom (view \<alpha> s)}"
  proof
    fix i
    assume "i \<in> {i. locked I s i \<noteq> 0}"
    then obtain v where "sdb_get I s (prefixSession @ i) = Inr v"
      by (cases "sdb_get I s (prefixSession @ i)") (auto simp: locked_def GetSession_def)
    then show "i \<in> {i. prefixSession @ i \<in> dom (view \<alpha> s)}" using get_view_found by auto
  qed
qed

lemma debit:
  assumes "state_ok E I s" "GetAccount I s a = Inr acc" "utf8_ok a" "x \<le> acc_Balance acc"
  shows "sum_of (balances I (SetAccount s (acc\<lparr>acc_Balance := acc_Balance acc - x\<rparr>))) + unat x = sum_of (balances I s)"
proof -
  have a: "acc_Address acc = a" by (rule state_okD(1) [OF assms(1,2)])
  have b: "balances I s a = unat (acc_Balance acc)" using assms(2) by (simp add: balances_def)
  have "unat (acc_Balance acc - x) + unat x = balances I s a"
    using assms(4) by (simp add: b unat_sub word_le_nat_alt)
  then show ?thesis
    using sum_of_upd [OF finite_balances, of s a "unat (acc_Balance acc - x)"] a assms(3)
    by (simp add: account_ok_def)
qed

lemma credit:
  assumes "state_ok E I s" "GetAccount I s a = Inr acc" "utf8_ok a" "acc_Balance acc \<le> max_uint64 - x"
  shows "sum_of (balances I (SetAccount s (acc\<lparr>acc_Balance := acc_Balance acc + x\<rparr>))) = sum_of (balances I s) + unat x"
proof -
  have a: "acc_Address acc = a" by (rule state_okD(1) [OF assms(1,2)])
  have b: "balances I s a = unat (acc_Balance acc)" using assms(2) by (simp add: balances_def)
  have "unat (acc_Balance acc + x) = balances I s a + unat x"
    using add_guard_unat [where x = "acc_Balance acc" and y = x] assms(4) by (simp add: b not_less)
  then show ?thesis
    using sum_of_upd [OF finite_balances, of s a "unat (acc_Balance acc + x)"] a assms(3)
    by (simp add: account_ok_def)
qed

lemma lock_stakes_supply:
  assumes "state_ok E I s" "\<forall>p\<in>set ps. utf8_ok p" "lock_stakes I stakes ps s = (s', Inr u)"
  shows "sum_of (balances I s') + unat stakes * length ps = sum_of (balances I s) \<and> locked I s' = locked I s"
  using assms
proof (induction ps arbitrary: s)
  case (Cons p ps)
  obtain acc where acc: "GetAccount I s p = Inr acc" "stakes \<le> acc_Balance acc"
    and rest: "lock_stakes I stakes ps (SetAccount s (acc\<lparr>acc_Balance := acc_Balance acc - stakes\<rparr>)) = (s', Inr u)"
    using Cons.prems(3) by (auto simp: not_less split: sum.splits if_splits)
  have "utf8_ok p" using Cons.prems(2) by simp
  with acc Cons.prems(1) show ?case
    using Cons.IH [OF _ _ rest] Cons.prems(2) debit [OF Cons.prems(1) acc(1) _ acc(2)]
      state_ok_SetAccount_upd(1) [OF Cons.prems(1) acc(1)]
    by simp
qed simp

lemma pay_rewards_supply:
  assumes "state_ok E I s" "\<forall>kr\<in>set krs. utf8_ok (fst kr)" "pay_rewards I krs s = (s', Inr u)"
  shows "sum_of (balances I s') = sum_of (balances I s) + sum_list (map (\<lambda>kr. unat (snd kr)) krs) \<and>
    locked I s' = locked I s"
  using assms
proof (induction krs arbitrary: s)
  case (Cons kr krs)
  obtain acc where acc: "GetAccount I s (fst kr) = Inr acc" "acc_Balance acc \<le> max_uint64 - snd kr"
    and rest: "pay_rewards I krs (SetAccount s (acc\<lparr>acc_Balance := acc_Balance acc + snd kr\<rparr>)) = (s', Inr u)"
    using Cons.prems(3) by (auto simp: not_less split: sum.splits if_splits)
  have "utf8_ok (fst kr)" using Cons.prems(2) by simp
  with acc Cons.prems(1) show ?case
    using Cons.IH [OF _ _ rest] Cons.prems(2) credit [OF Cons.prems(1) acc(1) _ acc(2)]
      state_ok_SetAccount_upd(1) [OF Cons.prems(1) acc(1)]
    by simp
qed simp

end

lemma sum_rewards_total:
  "sum_rewards tot acc krs = Inr t \<Longrightarrow> acc \<le> tot \<Longrightarrow>
     unat t = unat acc + sum_list (map (\<lambda>kr. unat (snd kr)) krs)"
proof (induction krs arbitrary: acc)
  case (Cons kr krs)
  then have le: "snd kr \<le> tot - acc" and rest: "sum_rewards tot (acc + snd kr) krs = Inr t"
    by (auto simp: not_less split: if_splits)
  have "unat acc + unat (snd kr) \<le> unat tot"
    using le Cons.prems(2) unat_sub [of acc tot] by (simp add: word_le_nat_alt)
  moreover have "unat tot < 2 ^ LENGTH(64)" by (rule unsigned_less)
  ultimately have "unat (acc + snd kr) = unat acc + unat (snd kr)" "acc + snd kr \<le> tot"
    by (simp_all add: word_le_nat_alt unat_word_ariths)
  with Cons.IH [OF rest] show ?case by simp
qed simp

lemma stakes_product:
  assumes "\<not> (0 < w \<and> max_uint64 div w < word_of_nat n)" "n < 2 ^ 63"
  shows "unat (w * word_of_nat n :: uint64) = unat w * n"
proof (cases "w = 0")
  case False
  have n: "unat (word_of_nat n :: uint64) = n" using assms(2) by (simp add: unsigned_of_nat take_bit_eq_mod)
  have m: "unat max_uint64 = 2 ^ 64 - 1"
    by (simp add: max_uint64_def unsigned_minus_1_eq_mask mask_eq_exp_minus_1)
  have "unat (word_of_nat n :: uint64) \<le> unat (max_uint64 div w)"
    using assms(1) False by (simp add: word_gt_0 not_less word_le_nat_alt)
  then have "n \<le> (2 ^ 64 - 1) div unat w" by (simp add: n m unat_div_distrib)
  then have "n * unat w \<le> 2 ^ 64 - 1"
    using False by (simp add: less_eq_div_iff_mult_less_eq unat_gt_0)
  then have "unat w * n < 2 ^ LENGTH(64)" by (simp add: mult.commute)
  then show ?thesis using n by (simp add: unat_word_ariths)
qed simp

section \<open>Every handler conserves the supply\<close>

context kv_db
begin

lemma handleTransfer_supply:
  assumes "ctx_DB ctx = I" "ctx_ok ctx" "state_ok E I s" "handleTransfer ctx payload s = (s', Inr u)"
  shows "total_supply I s' = total_supply I s"
  using assms(4)
proof (cases rule: handleTransfer_ok)
  case (1 p pk sender recipient s1)
  note 1 = 1 [unfolded assms(1)] and em = ctx_okD(2) [OF assms(2), unfolded assms(1)]
  have to: "utf8_ok (tp_To p)" using PubKeyFromHex_utf8 1(3) by blast
  have s1: "state_ok E I s1"
    using state_ok_SetAccount_upd(1) [OF assms(3) 1(4)] ctx_okD(3) [OF assms(2)] 1(6) by blast
  show ?thesis
    using 1(6,9) debit [OF assms(3) 1(4) ctx_okD(3) [OF assms(2)] 1(5)] credit [OF s1 1(7) to 1(8)] em
    by (simp add: total_supply_def emit_supply(3,4) [of ctx, unfolded assms(1)])
qed

lemma handleMintAsset_supply:
  assumes "ctx_DB ctx = I" "ctx_ok ctx" "handleMintAsset ctx payload s = (s', Inr u)"
  shows "total_supply I s' = total_supply I s"
  using assms(3) ctx_okD(2) [OF assms(2)] assms(1)
  by (cases rule: handleMintAsset_ok) (auto simp: total_supply_def)

lemma handleBurnAsset_supply:
  assumes "ctx_DB ctx = I" "ctx_ok ctx" "handleBurnAsset ctx payload s = (s', Inr u)"
  shows "total_supply I s' = total_supply I s"
  using assms(3) ctx_okD(2) [OF assms(2)] assms(1)
  by (cases rule: handleBurnAsset_ok) (auto simp: total_supply_def)

lemma handleTransferAsset_supply:
  assumes "ctx_DB ctx = I" "ctx_ok ctx" "handleTransferAsset ctx payload s = (s', Inr u)"
  shows "total_supply I s' = total_supply I s"
  using assms(3) ctx_okD(2) [OF assms(2)] assms(1)
  by (cases rule: handleTransferAsset_ok) (auto simp: total_supply_def)

lemma handleRegisterTemplate_supply:
  assumes "ctx_DB ctx = I" "ctx_ok ctx" "handleRegisterTemplate ctx payload s = (s', Inr u)"
  shows "total_supply I s' = total_supply I s"
  using assms(3) ctx_okD(2) [OF assms(2)] assms(1)
  by (cases rule: handleRegisterTemplate_ok) (auto simp: total_supply_def)

lemma handleListMarket_supply:
  assumes "ctx_DB ctx = I" "ctx_ok ctx" "handleListMarket ctx payload s = (s', Inr u)"
  shows "total_supply I s' = total_supply I s"
  using assms(3) ctx_okD(2) [OF assms(2)] assms(1)
  by (cases rule: handleListMarket_ok) (auto simp: total_supply_def)

lemma handleSessionOpen_supply:
  assumes "ctx_DB ctx = I" "ctx_ok ctx" "state_ok E I s" "handleSessionOpen ctx payload s = (s', Inr u)"
  shows "total_supply I s' = total_supply I s"
  using assms(4)
proof (cases rule: handleSessionOpen_ok)
  case (1 p e s1)
  note 1 = 1 [unfolded assms(1)] and em = ctx_okD(2) [OF assms(2), unfolded assms(1)]
  have p: "utf8_ok (sp_SessionID p)" "utf8_ok (sp_GameID p)" "\<forall>q\<in>set (sp_Players p). utf8_ok q"
    using 1(1) dec_session_open_utf8 by (auto simp: unmarshal_raw_Inr)
  have lock: "sum_of (balances I s1) + unat (sp_Stakes p) * length (sp_Players p) = sum_of (balances I s)"
    "locked I s1 = locked I s"
    using 1(6) lock_stakes_supply [OF assms(3) p(3)] by (auto simp: word_gt_0 split: if_splits)
  have free: "locked I s (sp_SessionID p) = 0" using 1(4) by (simp add: locked_def)
  have "sum_of (locked I s') = sum_of (locked I s) + unat (sp_Stakes p) * length (sp_Players p)"
    using 1(7) em p ctx_okD(3,4) [OF assms(2)] lock(2) free
      sum_of_upd [OF finite_locked, of s "sp_SessionID p" "unat (sp_Stakes p) * length (sp_Players p)"]
    by (simp add: emit_supply(3,4) [of ctx, unfolded assms(1)] session_ok_def map_utf8_def utf8_ok_ascii
        in_int64_def stake_of_def)
  moreover have "balances I s' = balances I s1"
    using 1(7) em by (simp add: emit_supply(3,4) [of ctx, unfolded assms(1)])
  ultimately show ?thesis using lock(1) by (simp add: total_supply_def)
qed

lemma handleSessionResult_supply:
  assumes "ctx_DB ctx = I" "ctx_ok ctx" "state_ok E I s" "handleSessionResult ctx payload s = (s', Inr u)"
  shows "total_supply I s' = total_supply I s"
  using assms(4)
proof (cases rule: handleSessionResult_ok)
  case (1 p sess s1)
  note 1 = 1 [unfolded assms(1)] and em = ctx_okD(2) [OF assms(2), unfolded assms(1)]
  have p: "utf8_ok (sr_SessionID p)" "map_utf8 (sr_Outcome p)"
    using 1(1) dec_session_result_utf8 by (auto simp: unmarshal_raw_Inr)
  have q: "ses_ID sess = sr_SessionID p" "session_ok sess" "length (ses_Players sess) < 2 ^ 63"
    using state_okD(4) [OF assms(3) 1(2)] by simp_all
  have "\<forall>kr\<in>set (range_map ord (map_or_empty (sr_Outcome p))). utf8_ok (fst kr)" for ord
    using p(2) fst_range_map [of ord "map_or_empty (sr_Outcome p)"] unfolding map_utf8_def by blast
  then have pay: "sum_of (balances I s1) = sum_of (balances I s) +
      sum_list (map (\<lambda>kr. unat (snd kr)) (range_map (range_order (ctx_Env ctx) 8) (map_or_empty (sr_Outcome p))))"
    "locked I s1 = locked I s"
    using pay_rewards_supply [OF assms(3) _ 1(8)] by blast+
  have "sum_list (map (\<lambda>kr. unat (snd kr)) (range_map (range_order (ctx_Env ctx) 8) (map_or_empty (sr_Outcome p)))) =
      unat (ses_Stakes sess) * length (ses_Players sess)"
    using sum_rewards_total [OF 1(7)] stakes_product [OF 1(6) q(3)]
      sum_list_range_map [of "\<lambda>kr. unat (snd kr)" "range_order (ctx_Env ctx) 8" _ "range_order (ctx_Env ctx) 7"]
    by simp
  moreover have "locked I s (sr_SessionID p) = unat (ses_Stakes sess) * length (ses_Players sess)"
    using 1(2,3) by (simp add: locked_def stake_of_def)
  moreover have "sum_of (locked I s') + locked I s (sr_SessionID p) = sum_of (locked I s)"
    using 1(9) em p q ctx_okD(4) [OF assms(2)] pay(2)
      sum_of_upd [OF finite_locked, of s "sr_SessionID p" 0]
    by (simp add: emit_supply(3,4) [of ctx, unfolded assms(1)] session_ok_def utf8_ok_ascii stake_of_def)
  moreover have "balances I s' = balances I s1"
    using 1(9) em by (simp add: emit_supply(3,4) [of ctx, unfolded assms(1)])
  ultimately show ?thesis using pay(1) by (simp add: total_supply_def)
qed

lemma handleBuyMarket_supply:
  assumes "ctx_DB ctx = I" "ctx_ok ctx" "state_ok (ctx_Env ctx) I s" "handleBuyMarket ctx payload s = (s', Inr u)"
  shows "total_supply I s' = total_supply I s"
  using assms(4)
proof (cases rule: handleBuyMarket_ok)
  case (1 p l buyer seller a s1 s2)
  note 1 = 1 [unfolded assms(1)] and em = ctx_okD(2) [OF assms(2), unfolded assms(1)]
  have l: "utf8_ok (lst_Seller l)" using state_okD(5) [OF assms(3) 1(2)] by (simp add: listing_ok_def)
  have s1: "state_ok (ctx_Env ctx) I s1"
    using state_ok_SetAccount_upd(1) [OF assms(3) 1(5)] 1(7) ctx_okD(3) [OF assms(2)] by simp
  show ?thesis
    using 1(7,10,12) debit [OF assms(3) 1(5) ctx_okD(3) [OF assms(2)] 1(6)] credit [OF s1 1(8) l 1(9)] em
    by (simp add: total_supply_def emit_supply(3,4) [of ctx, unfolded assms(1)])
qed

lemma reg_Execute_supply:
  assumes "ctx_DB ctx = I" "ctx_ok ctx" "state_ok (ctx_Env ctx) I s"
    and "reg_Execute globalRegistry ty ctx payload s = (s', Inr u)"
  shows "total_supply I s' = total_supply I s"
  using assms(4)
  by (cases rule: reg_Execute_cases)
    (auto dest: handleTransfer_supply [OF assms(1-3)] handleMintAsset_supply [OF assms(1,2)]
      handleBurnAsset_supply [OF assms(1,2)] handleTransferAsset_supply [OF assms(1,2)]
      handleRegisterTemplate_supply [OF assms(1,2)] handleSessionOpen_supply [OF assms(1-3)]
      handleSessionResult_supply [OF assms(1-3)] handleListMarket_supply [OF assms(1,2)]
      handleBuyMarket_supply [OF assms(1-3)])

end

section \<open>Transactions and blocks\<close>

text \<open>A block without a proposer leaves its fees to no one.\<close>

definition burned_fee :: "block \<Rightarrow> transaction \<Rightarrow> nat" where
  "burned_fee block tx = (if hdr_Proposer (blk_Header block) = [] then unat (tx_Fee tx) else 0)"

context kv_db
begin

lemma charge_fee_supply:
  assumes "state_ok E I s" "utf8_ok (tx_From tx)" "tx_From tx \<noteq> []" "utf8_ok (hdr_Proposer (blk_Header block))"
    and "charge_fee I block tx s = (s', Inr u)"
  shows "total_supply I s' + burned_fee block tx = total_supply I s"
  using assms(5)
proof (cases rule: charge_fee_ok)
  case (1 acc acc1)
  have a: "acc_Address acc = tx_From tx" by (rule state_okD(1) [OF assms(1) 1(1)])
  have acc1: "sum_of (balances I (SetAccount s acc1)) + unat (tx_Fee tx) = sum_of (balances I s)"
    using debit [OF assms(1) 1(1) assms(2) 1(3)] a assms(2) by (simp add: 1(5) account_ok_def)
  have ok1: "state_ok E I (SetAccount s acc1)"
    using state_ok_SetAccount_upd(2) [OF assms(1) 1(1) assms(2)] 1(5) by simp
  from 1(6) show ?thesis
  proof (elim disjE exE conjE)
    fix pacc
    assume "hdr_Proposer (blk_Header block) \<noteq> []"
      and p: "GetAccount I (SetAccount s acc1) (hdr_Proposer (blk_Header block)) = Inr pacc"
        "acc_Balance pacc \<le> max_uint64 - tx_Fee tx"
        "s' = SetAccount (SetAccount s acc1) (pacc\<lparr>acc_Balance := acc_Balance pacc + tx_Fee tx\<rparr>)"
    then show ?thesis
      using credit [OF ok1 p(1) assms(4) p(2)] acc1 by (simp add: total_supply_def burned_fee_def)
  next
    assume "tx_From tx = hdr_Proposer (blk_Header block)" "s' = SetAccount s (acc1\<lparr>acc_Balance := acc_Balance acc\<rparr>)"
    moreover have "balances I s (tx_From tx) = unat (acc_Balance acc)" using 1(1) by (simp add: balances_def)
    ultimately show ?thesis
      using assms(2,3) a sum_of_upd [OF finite_balances, of s "tx_From tx" "unat (acc_Balance acc)"]
      by (simp add: total_supply_def burned_fee_def 1(5) account_ok_def)
  next
    assume "tx_Fee tx = 0" "s' = SetAccount s acc1"
    then show ?thesis using acc1 by (simp add: total_supply_def burned_fee_def)
  next
    assume "hdr_Proposer (blk_Header block) = []" "s' = SetAccount s acc1"
    then show ?thesis using acc1 by (simp add: total_supply_def burned_fee_def)
  qed
qed

lemma total_supply_Snapshot [simp]: "total_supply I (fst (Snapshot s)) = total_supply I s"
  by (simp add: total_supply_def)

lemma ExecuteTx_supply:
  assumes "run_ok E I em block" "payload_fits (tx_Payload tx)" "state_ok E I s"
    and "ExecuteTx E I em block tx s = (s', r)"
  shows "total_supply I s' + (if is_ok r then burned_fee block tx else 0) = total_supply I s"
proof (cases rule: ExecuteTx_cases [of E tx I em block s])
  case (done_ok s2)
  define ctx where "ctx = \<lparr>ctx_Env = E, ctx_DB = I, ctx_Block = block, ctx_Tx = tx, ctx_Emitter = em\<rparr>"
  obtain s1 where fee: "charge_fee I block tx (fst (Snapshot s)) = (s1, Inr ())"
    and ex: "reg_Execute globalRegistry (tx_Type tx) ctx (tx_Payload tx) s1 = (s2, Inr ())"
    using done_ok(2) by (auto simp: applyTx_def ctx_def split: prod.splits sum.splits)
  have f: "utf8_ok (tx_From tx)" "tx_From tx \<noteq> []"
    using tx_Verify_utf8 [OF done_ok(1)] done_ok(1) by (auto simp: tx_Verify_def split: if_splits)
  have s1: "state_ok E I s1"
    using charge_fee_state_ok [OF _ f(1) _ fee] assms(1,3) by (simp add: run_ok_def)
  have "ctx_ok ctx" using assms(1) f(1) by (simp add: ctx_ok_def run_ok_def ctx_def)
  then have "total_supply I s2 = total_supply I s1"
    using reg_Execute_supply [OF _ _ _ ex] s1 by (simp add: ctx_def)
  moreover have "total_supply I s1 + burned_fee block tx = total_supply I s"
    using charge_fee_supply [OF _ f _ fee] assms(1,3) by (simp add: run_ok_def)
  ultimately show ?thesis
    using done_ok(3) assms(1,4) by (auto simp: run_ok_def total_supply_def)
qed (use assms in auto)

lemma execute_txs_supply:
  assumes "run_ok E I em block" "\<forall>tx\<in>set txs. payload_fits (tx_Payload tx)" "state_ok E I s"
    and "execute_txs E I em block txs s = (s', Inr u)"
  shows "total_supply I s' + sum_list (map (burned_fee block) txs) = total_supply I s"
  using assms(2-4)
proof (induction txs arbitrary: s)
  case (Cons tx txs)
  obtain s1 v where s1: "ExecuteTx E I em block tx s = (s1, Inr v)"
    and rest: "execute_txs E I em block txs s1 = (s', Inr u)"
    using Cons.prems(3) by (auto split: prod.splits sum.splits)
  have "state_ok E I s1"
    using ExecuteTx_state_ok [OF assms(1) _ _ s1] Cons.prems by simp
  then show ?case
    using Cons.IH [OF _ _ rest] ExecuteTx_supply [OF assms(1) _ _ s1] Cons.prems by simp
qed simp

end

end
