(* ===== verification/Authority.thy ===== *)
theory Authority
  imports Supply
begin

text \<open>
  Who can change what: handlers never touch nonces, a transaction raises the nonce of its sender by
  one and no other, and a balance other than the sender's goes down only when a session locks its stake.
\<close>

section \<open>Nonces\<close>

definition nonces :: "'d db_iface \<Rightarrow> 'd statedb \<Rightarrow> bytes \<Rightarrow> uint64 result" where
  "nonces I s a = map_result acc_Nonce (GetAccount I s a)"

lemma nonces_simps [simp]:
  "account_ok acc \<Longrightarrow> nonces I (SetAccount s acc) = (nonces I s)(acc_Address acc := Inr (acc_Nonce acc))"
  "nonces I (SetAsset s x) = nonces I s" "nonces I (DeleteAsset s b) = nonces I s"
  "nonces I (SetTemplate s t) = nonces I s" "nonces I (SetSession s q) = nonces I s"
  "nonces I (SetListing s l) = nonces I s" "nonces I (fst (Snapshot s)) = nonces I s"
  "emitter_opt_ok I oem \<Longrightarrow> nonces I (emit_event oem ev s) = nonces I s"
  "emitter_opt_ok (ctx_DB ctx) (ctx_Emitter ctx) \<Longrightarrow> nonces (ctx_DB ctx) (ctx_emit ctx ty data s) = nonces (ctx_DB ctx) s"
  by (auto simp: nonces_def fun_eq_iff)

lemma nonces_balance:
  assumes "state_ok E I s" "GetAccount I s a = Inr acc" "utf8_ok a"
  shows "nonces I (SetAccount s (acc\<lparr>acc_Balance := b\<rparr>)) = nonces I s"
proof -
  have "acc_Address acc = a" by (rule state_okD(1) [OF assms(1,2)])
  moreover have "nonces I s a = Inr (acc_Nonce acc)" using assms(2) by (simp add: nonces_def)
  ultimately show ?thesis using assms(3) by (auto simp: account_ok_def)
qed

lemma lock_stakes_nonces:
  assumes "state_ok E I s" "\<forall>p\<in>set ps. utf8_ok p" "lock_stakes I stakes ps s = (s', r)"
  shows "nonces I s' = nonces I s"
  using assms
proof (induction ps arbitrary: s)
  case (Cons p ps)
  then show ?case
    using nonces_balance [OF Cons.prems(1)] state_ok_SetAccount_upd(1) [OF Cons.prems(1)]
    by (fastforce split: sum.splits if_splits)
qed simp

lemma pay_rewards_nonces:
  assumes "state_ok E I s" "\<forall>kr\<in>set krs. utf8_ok (fst kr)" "pay_rewards I krs s = (s', r)"
  shows "nonces I s' = nonces I s"
  using assms
proof (induction krs arbitrary: s)
  case (Cons kr krs)
  then show ?case
    using nonces_balance [OF Cons.prems(1)] state_ok_SetAccount_upd(1) [OF Cons.prems(1)]
    by (fastforce split: sum.splits if_splits)
qed simp

lemma simple_handler_nonces:
  assumes "ctx_ok ctx"
  shows "handleMintAsset ctx payload s = (s', Inr u) \<Longrightarrow> nonces (ctx_DB ctx) s' = nonces (ctx_DB ctx) s"
    "handleBurnAsset ctx payload s = (s', Inr u) \<Longrightarrow> nonces (ctx_DB ctx) s' = nonces (ctx_DB ctx) s"
    "handleTransferAsset ctx payload s = (s', Inr u) \<Longrightarrow> nonces (ctx_DB ctx) s' = nonces (ctx_DB ctx) s"
    "handleRegisterTemplate ctx payload s = (s', Inr u) \<Longrightarrow> nonces (ctx_DB ctx) s' = nonces (ctx_DB ctx) s"
    "handleListMarket ctx payload s = (s', Inr u) \<Longrightarrow> nonces (ctx_DB ctx) s' = nonces (ctx_DB ctx) s"
  using ctx_okD(2) [OF assms]
  by (auto elim: handleMintAsset_ok handleBurnAsset_ok handleTransferAsset_ok handleRegisterTemplate_ok
      handleListMarket_ok)

lemma handleTransfer_nonces:
  assumes "ctx_ok ctx" "state_ok E (ctx_DB ctx) s" "handleTransfer ctx payload s = (s', Inr u)"
  shows "nonces (ctx_DB ctx) s' = nonces (ctx_DB ctx) s"
  using assms(3)
proof (cases rule: handleTransfer_ok)
  case (1 p pk sender recipient s1)
  have "utf8_ok (tp_To p)" using PubKeyFromHex_utf8 1(3) by blast
  moreover have "state_ok E (ctx_DB ctx) s1" "nonces (ctx_DB ctx) s1 = nonces (ctx_DB ctx) s"
    using state_ok_SetAccount_upd(1) [OF assms(2) 1(4)] nonces_balance [OF assms(2) 1(4)] ctx_okD(3) [OF assms(1)]
      1(6) by simp_all
  ultimately show ?thesis
    using 1(9) nonces_balance [OF _ 1(7)] ctx_okD(2) [OF assms(1)] by simp
qed

lemma handleBuyMarket_nonces:
  assumes "ctx_ok ctx" "state_ok E (ctx_DB ctx) s" "handleBuyMarket ctx payload s = (s', Inr u)"
  shows "nonces (ctx_DB ctx) s' = nonces (ctx_DB ctx) s"
  using assms(3)
proof (cases rule: handleBuyMarket_ok)
  case (1 p l buyer seller a s1 s2)
  have "utf8_ok (lst_Seller l)" using state_okD(5) [OF assms(2) 1(2)] by (simp add: listing_ok_def)
  moreover have "state_ok E (ctx_DB ctx) s1" "nonces (ctx_DB ctx) s1 = nonces (ctx_DB ctx) s"
    using state_ok_SetAccount_upd(1) [OF assms(2) 1(5)] nonces_balance [OF assms(2) 1(5)] ctx_okD(3) [OF assms(1)]
      1(7) by simp_all
  ultimately show ?thesis
    using 1(10,12) nonces_balance [OF _ 1(8)] ctx_okD(2) [OF assms(1)] by simp
qed

lemma session_handler_nonces:
  assumes "ctx_ok ctx" "state_ok E (ctx_DB ctx) s"
  shows "handleSessionOpen ctx payload s = (s', Inr u) \<Longrightarrow> nonces (ctx_DB ctx) s' = nonces (ctx_DB ctx) s"
    "handleSessionResult ctx payload s = (s', Inr u) \<Longrightarrow> nonces (ctx_DB ctx) s' = nonces (ctx_DB ctx) s"
proof -
  assume "handleSessionOpen ctx payload s = (s', Inr u)"
  then show "nonces (ctx_DB ctx) s' = nonces (ctx_DB ctx) s"
  proof (cases rule: handleSessionOpen_ok)
    case (1 p e s1)
    have "\<forall>q\<in>set (sp_Players p). utf8_ok q"
      using 1(1) dec_session_open_utf8 by (auto simp: unmarshal_raw_Inr)
    then have "nonces (ctx_DB ctx) s1 = nonces (ctx_DB ctx) s"
      using 1(6) lock_stakes_nonces [OF assms(2)] by (auto split: if_splits)
    then show ?thesis using 1(7) ctx_okD(2) [OF assms(1)] by simp
  qed
next
  assume "handleSessionResult ctx payload s = (s', Inr u)"
  then show "nonces (ctx_DB ctx) s' = nonces (ctx_DB ctx) s"
  proof (cases rule: handleSessionResult_ok)
    case (1 p sess s1)
    have "map_utf8 (sr_Outcome p)" using 1(1) dec_session_result_utf8 by (auto simp: unmarshal_raw_Inr)
    then have "\<forall>kr\<in>set (range_map ord (map_or_empty (sr_Outcome p))). utf8_ok (fst kr)" for ord
      using fst_range_map [of ord "map_or_empty (sr_Outcome p)"] unfolding map_utf8_def by blast
    then have "nonces (ctx_DB ctx) s1 = nonces (ctx_DB ctx) s"
      using pay_rewards_nonces [OF assms(2) _ 1(8)] by blast
    then show ?thesis using 1(9) ctx_okD(2) [OF assms(1)] by simp
  qed
qed

lemma reg_Execute_nonces:
  assumes "ctx_ok ctx" "state_ok E (ctx_DB ctx) s" "reg_Execute globalRegistry ty ctx payload s = (s', Inr u)"
  shows "nonces (ctx_DB ctx) s' = nonces (ctx_DB ctx) s"
  using assms(3)
  by (cases rule: reg_Execute_cases)
    (auto dest: handleTransfer_nonces [OF assms(1,2)] simple_handler_nonces [OF assms(1)]
      session_handler_nonces [OF assms(1,2)] handleBuyMarket_nonces [OF assms(1,2)])

lemma charge_fee_nonces:
  assumes "state_ok E I s" "utf8_ok (tx_From tx)" "utf8_ok (hdr_Proposer (blk_Header block))"
    and "charge_fee I block tx s = (s', Inr u)"
  shows "nonces I s (tx_From tx) = Inr (tx_Nonce tx)" "tx_Nonce tx \<noteq> max_uint64"
    "nonces I s' = (nonces I s)(tx_From tx := Inr (tx_Nonce tx + 1))"
proof -
  from assms(4) obtain acc acc1 where 1: "GetAccount I s (tx_From tx) = Inr acc" "acc_Nonce acc = tx_Nonce tx"
    "acc_Nonce acc \<noteq> max_uint64" "acc1 = acc\<lparr>acc_Balance := acc_Balance acc - tx_Fee tx, acc_Nonce := acc_Nonce acc + 1\<rparr>"
    and cases: "(\<exists>pacc. GetAccount I (SetAccount s acc1) (hdr_Proposer (blk_Header block)) = Inr pacc \<and>
        s' = SetAccount (SetAccount s acc1) (pacc\<lparr>acc_Balance := acc_Balance pacc + tx_Fee tx\<rparr>)) \<or>
      s' = SetAccount s (acc1\<lparr>acc_Balance := acc_Balance acc\<rparr>) \<or> s' = SetAccount s acc1"
    by (elim charge_fee_ok) blast
  show "nonces I s (tx_From tx) = Inr (tx_Nonce tx)" "tx_Nonce tx \<noteq> max_uint64"
    using 1 by (simp_all add: nonces_def)
  have a: "acc_Address acc = tx_From tx" by (rule state_okD(1) [OF assms(1) 1(1)])
  have ok: "state_ok E I (SetAccount s acc1)"
    using state_ok_SetAccount_upd(2) [OF assms(1) 1(1) assms(2)] 1(4) by simp
  have n: "nonces I (SetAccount s acc1) = (nonces I s)(tx_From tx := Inr (tx_Nonce tx + 1))"
    "nonces I (SetAccount s (acc1\<lparr>acc_Balance := acc_Balance acc\<rparr>)) = (nonces I s)(tx_From tx := Inr (tx_Nonce tx + 1))"
    using 1 a assms(2) by (simp_all add: account_ok_def)
  from cases show "nonces I s' = (nonces I s)(tx_From tx := Inr (tx_Nonce tx + 1))"
    using n nonces_balance [OF ok _ assms(3)] by auto
qed

lemma ExecuteTx_parts:
  assumes "ExecuteTx E I em block tx s = (s', Inr u)"
  obtains s1 s2 where "tx_Verify E tx = Inr ()" "charge_fee I block tx (fst (Snapshot s)) = (s1, Inr ())"
    "reg_Execute globalRegistry (tx_Type tx)
       \<lparr>ctx_Env = E, ctx_DB = I, ctx_Block = block, ctx_Tx = tx, ctx_Emitter = em\<rparr> (tx_Payload tx) s1 = (s2, Inr ())"
    "s' = emit_event em \<lparr>ev_Type = EventTxExecuted, ev_TxID = tx_ID tx,
       ev_BlockHeight = hdr_Height (blk_Header block),
       ev_Data = [(''type'', DStr (tx_Type tx)), (''from'', DStr (tx_From tx))]\<rparr> s2"
proof (cases rule: ExecuteTx_cases [of E tx I em block s])
  case (done_ok s2)
  then show ?thesis
    using that assms by (auto simp: applyTx_def split: prod.splits sum.splits)
qed (use assms in auto)

lemma ExecuteTx_nonces:
  assumes "run_ok E I em block" "state_ok E I s" "ExecuteTx E I em block tx s = (s', Inr u)"
  shows "nonces I s (tx_From tx) = Inr (tx_Nonce tx)" "tx_Nonce tx \<noteq> max_uint64"
    "nonces I s' = (nonces I s)(tx_From tx := Inr (tx_Nonce tx + 1))"
proof -
  obtain s1 s2 where v: "tx_Verify E tx = Inr ()" and fee: "charge_fee I block tx (fst (Snapshot s)) = (s1, Inr ())"
    and ex: "reg_Execute globalRegistry (tx_Type tx)
       \<lparr>ctx_Env = E, ctx_DB = I, ctx_Block = block, ctx_Tx = tx, ctx_Emitter = em\<rparr> (tx_Payload tx) s1 = (s2, Inr ())"
    and s': "s' = emit_event em \<lparr>ev_Type = EventTxExecuted, ev_TxID = tx_ID tx,
       ev_BlockHeight = hdr_Height (blk_Header block),
       ev_Data = [(''type'', DStr (tx_Type tx)), (''from'', DStr (tx_From tx))]\<rparr> s2"
    by (rule ExecuteTx_parts [OF assms(3)])
  have f: "utf8_ok (tx_From tx)" by (rule tx_Verify_utf8 [OF v])
  have r: "utf8_ok (hdr_Proposer (blk_Header block))" "emitter_opt_ok I em"
    using assms(1) by (simp_all add: run_ok_def)
  have s: "state_ok E I (fst (Snapshot s))" using assms(2) by simp
  note n = charge_fee_nonces [OF s f r(1) fee]
  show "nonces I s (tx_From tx) = Inr (tx_Nonce tx)" "tx_Nonce tx \<noteq> max_uint64" using n(1,2) by simp_all
  have "nonces I s2 = nonces I s1"
    using reg_Execute_nonces [OF _ _ ex] charge_fee_state_ok [OF s f r(1) fee] assms(1) f
    by (simp add: ctx_ok_def run_ok_def)
  then show "nonces I s' = (nonces I s)(tx_From tx := Inr (tx_Nonce tx + 1))"
    using n(3) s' r(2) by simp
qed

section \<open>Balances\<close>

lemma balances_debit:
  assumes "state_ok E I s" "GetAccount I s a = Inr acc" "utf8_ok a" "x \<le> acc_Balance acc"
  shows "balances I (SetAccount s (acc\<lparr>acc_Balance := acc_Balance acc - x\<rparr>)) = (balances I s)(a := balances I s a - unat x)"
    "unat x \<le> balances I s a"
  using assms state_okD(1) [OF assms(1,2)]
  by (simp_all add: account_ok_def balances_def [of I s a] unat_sub word_le_nat_alt)

lemma balances_credit:
  assumes "state_ok E I s" "GetAccount I s a = Inr acc" "utf8_ok a" "acc_Balance acc \<le> max_uint64 - x"
  shows "balances I (SetAccount s (acc\<lparr>acc_Balance := acc_Balance acc + x\<rparr>)) = (balances I s)(a := balances I s a + unat x)"
  using assms state_okD(1) [OF assms(1,2)] add_guard_unat [where x = "acc_Balance acc" and y = x]
  by (simp add: account_ok_def balances_def [of I s a] not_less)

text \<open>The abstract ledger: moving \<open>x\<close> tokens from \<open>a\<close> to \<open>b\<close>.\<close>

definition move :: "nat \<Rightarrow> bytes \<Rightarrow> bytes \<Rightarrow> (bytes \<Rightarrow> nat) \<Rightarrow> bytes \<Rightarrow> nat" where
  "move x a b f = (let g = f(a := f a - x) in g(b := g b + x))"

lemma move_self: "x \<le> f a \<Longrightarrow> move x a a f = f"
  by (auto simp: move_def)

lemma move_other: "c \<noteq> a \<Longrightarrow> f c \<le> move x a b f c"
  by (simp add: move_def Let_def)

lemma handleTransfer_balances:
  assumes "ctx_ok ctx" "state_ok E (ctx_DB ctx) s" "handleTransfer ctx payload s = (s', Inr u)"
  obtains p where "unmarshal_raw dec_transfer payload = Inr p"
    "unat (tp_Amount p) \<le> balances (ctx_DB ctx) s (tx_From (ctx_Tx ctx))"
    "balances (ctx_DB ctx) s' = move (unat (tp_Amount p)) (tx_From (ctx_Tx ctx)) (tp_To p) (balances (ctx_DB ctx) s)"
  using assms(3)
proof (cases rule: handleTransfer_ok)
  case (1 p pk sender recipient s1)
  note from_utf8 = ctx_okD(3) [OF assms(1)]
  have to: "utf8_ok (tp_To p)" using PubKeyFromHex_utf8 1(3) by blast
  note d = balances_debit [OF assms(2) 1(4) from_utf8 1(5)]
  have "state_ok E (ctx_DB ctx) s1"
    using state_ok_SetAccount_upd(1) [OF assms(2) 1(4) from_utf8] 1(6) by simp
  note c = balances_credit [OF this 1(7) to 1(8)]
  have "balances (ctx_DB ctx) s' = move (unat (tp_Amount p)) (tx_From (ctx_Tx ctx)) (tp_To p) (balances (ctx_DB ctx) s)"
    using 1(6,9) c d(1) ctx_okD(2) [OF assms(1)] by (simp add: move_def)
  with that 1(1) d(2) show ?thesis by blast
qed

lemma handleBuyMarket_balances:
  assumes "ctx_ok ctx" "state_ok E (ctx_DB ctx) s" "handleBuyMarket ctx payload s = (s', Inr u)"
  obtains p l where "unmarshal_raw dec_buy_market payload = Inr p"
    "GetListing (ctx_DB ctx) s (up_ListingID p) = Inr l"
    "unat (lst_Price l) \<le> balances (ctx_DB ctx) s (tx_From (ctx_Tx ctx))"
    "balances (ctx_DB ctx) s' = move (unat (lst_Price l)) (tx_From (ctx_Tx ctx)) (lst_Seller l) (balances (ctx_DB ctx) s)"
  using assms(3)
proof (cases rule: handleBuyMarket_ok)
  case (1 p l buyer seller a s1 s2)
  note from_utf8 = ctx_okD(3) [OF assms(1)]
  have to: "utf8_ok (lst_Seller l)" using state_okD(5) [OF assms(2) 1(2)] by (simp add: listing_ok_def)
  note d = balances_debit [OF assms(2) 1(5) from_utf8 1(6)]
  have "state_ok E (ctx_DB ctx) s1"
    using state_ok_SetAccount_upd(1) [OF assms(2) 1(5) from_utf8] 1(7) by simp
  note c = balances_credit [OF this 1(8) to 1(9)]
  have "balances (ctx_DB ctx) s' = move (unat (lst_Price l)) (tx_From (ctx_Tx ctx)) (lst_Seller l) (balances (ctx_DB ctx) s)"
    using 1(7,10,12) c d(1) ctx_okD(2) [OF assms(1)] by (simp add: move_def)
  with that 1(1,2) d(2) show ?thesis by blast
qed

lemma lock_stakes_balances:
  assumes "state_ok E I s" "\<forall>p\<in>set ps. utf8_ok p" "lock_stakes I stakes ps s = (s', Inr u)"
  shows "balances I s' a + count_list ps a * unat stakes = balances I s a"
  using assms
proof (induction ps arbitrary: s)
  case (Cons p ps)
  obtain acc where acc: "GetAccount I s p = Inr acc" "stakes \<le> acc_Balance acc"
    and rest: "lock_stakes I stakes ps (SetAccount s (acc\<lparr>acc_Balance := acc_Balance acc - stakes\<rparr>)) = (s', Inr u)"
    using Cons.prems(3) by (auto simp: not_less split: sum.splits if_splits)
  have p: "utf8_ok p" using Cons.prems(2) by simp
  have "balances I s' a + count_list ps a * unat stakes =
      balances I (SetAccount s (acc\<lparr>acc_Balance := acc_Balance acc - stakes\<rparr>)) a"
    using Cons.IH [OF _ _ rest] Cons.prems(2) state_ok_SetAccount_upd(1) [OF Cons.prems(1) acc(1) p] by simp
  then show ?case using balances_debit [OF Cons.prems(1) acc(1) p acc(2)] by auto
qed simp

lemma pay_rewards_balances:
  assumes "state_ok E I s" "\<forall>kr\<in>set krs. utf8_ok (fst kr)" "pay_rewards I krs s = (s', Inr u)"
  shows "balances I s' a = balances I s a + sum_list (map (\<lambda>kr. if fst kr = a then unat (snd kr) else 0) krs)"
  using assms
proof (induction krs arbitrary: s)
  case (Cons kr krs)
  obtain acc where acc: "GetAccount I s (fst kr) = Inr acc" "acc_Balance acc \<le> max_uint64 - snd kr"
    and rest: "pay_rewards I krs (SetAccount s (acc\<lparr>acc_Balance := acc_Balance acc + snd kr\<rparr>)) = (s', Inr u)"
    using Cons.prems(3) by (auto simp: not_less split: sum.splits if_splits)
  have p: "utf8_ok (fst kr)" using Cons.prems(2) by simp
  have "balances I s' a = balances I (SetAccount s (acc\<lparr>acc_Balance := acc_Balance acc + snd kr\<rparr>)) a +
      sum_list (map (\<lambda>kr. if fst kr = a then unat (snd kr) else 0) krs)"
    using Cons.IH [OF _ _ rest] Cons.prems(2) state_ok_SetAccount_upd(1) [OF Cons.prems(1) acc(1) p] by simp
  then show ?case using balances_credit [OF Cons.prems(1) acc(1) p acc(2)] by simp
qed simp

lemma handleSessionOpen_balances:
  assumes "ctx_ok ctx" "state_ok E (ctx_DB ctx) s" "handleSessionOpen ctx payload s = (s', Inr u)"
  obtains p where "unmarshal_raw dec_session_open payload = Inr p"
    "\<And>a. balances (ctx_DB ctx) s' a + count_list (sp_Players p) a * unat (sp_Stakes p) = balances (ctx_DB ctx) s a"
  using assms(3)
proof (cases rule: handleSessionOpen_ok)
  case (1 p e s1)
  have "\<forall>q\<in>set (sp_Players p). utf8_ok q"
    using 1(1) dec_session_open_utf8 by (auto simp: unmarshal_raw_Inr)
  then have "balances (ctx_DB ctx) s1 a + count_list (sp_Players p) a * unat (sp_Stakes p) = balances (ctx_DB ctx) s a" for a
    using 1(6) lock_stakes_balances [OF assms(2)] by (auto simp: word_gt_0 split: if_splits)
  then show ?thesis using that [OF 1(1)] 1(7) ctx_okD(2) [OF assms(1)] by simp
qed

lemma handleSessionResult_balances:
  assumes "ctx_ok ctx" "state_ok E (ctx_DB ctx) s" "handleSessionResult ctx payload s = (s', Inr u)"
  shows "balances (ctx_DB ctx) s a \<le> balances (ctx_DB ctx) s' a"
  using assms(3)
proof (cases rule: handleSessionResult_ok)
  case (1 p sess s1)
  have "map_utf8 (sr_Outcome p)" using 1(1) dec_session_result_utf8 by (auto simp: unmarshal_raw_Inr)
  then have "\<forall>kr\<in>set (range_map ord (map_or_empty (sr_Outcome p))). utf8_ok (fst kr)" for ord
    using fst_range_map [of ord "map_or_empty (sr_Outcome p)"] unfolding map_utf8_def by blast
  then have "balances (ctx_DB ctx) s a \<le> balances (ctx_DB ctx) s1 a"
    using pay_rewards_balances [OF assms(2) _ 1(8), of a] by simp
  then show ?thesis using 1(9) ctx_okD(2) [OF assms(1)] by simp
qed

lemma simple_handler_balances:
  assumes "ctx_ok ctx"
  shows "handleMintAsset ctx payload s = (s', Inr u) \<Longrightarrow> balances (ctx_DB ctx) s' = balances (ctx_DB ctx) s"
    "handleBurnAsset ctx payload s = (s', Inr u) \<Longrightarrow> balances (ctx_DB ctx) s' = balances (ctx_DB ctx) s"
    "handleTransferAsset ctx payload s = (s', Inr u) \<Longrightarrow> balances (ctx_DB ctx) s' = balances (ctx_DB ctx) s"
    "handleRegisterTemplate ctx payload s = (s', Inr u) \<Longrightarrow> balances (ctx_DB ctx) s' = balances (ctx_DB ctx) s"
    "handleListMarket ctx payload s = (s', Inr u) \<Longrightarrow> balances (ctx_DB ctx) s' = balances (ctx_DB ctx) s"
  using ctx_okD(2) [OF assms]
  by (auto elim: handleMintAsset_ok handleBurnAsset_ok handleTransferAsset_ok handleRegisterTemplate_ok
      handleListMarket_ok)

text \<open>The fee on the abstract ledger: from the sender to the proposer, or to no one.\<close>

definition fee_move :: "block \<Rightarrow> transaction \<Rightarrow> (bytes \<Rightarrow> nat) \<Rightarrow> bytes \<Rightarrow> nat" where
  "fee_move block tx f =
     (if hdr_Proposer (blk_Header block) = [] then f(tx_From tx := f (tx_From tx) - unat (tx_Fee tx))
      else move (unat (tx_Fee tx)) (tx_From tx) (hdr_Proposer (blk_Header block)) f)"

lemma charge_fee_balances:
  assumes "state_ok E I s" "utf8_ok (tx_From tx)" "tx_From tx \<noteq> []" "utf8_ok (hdr_Proposer (blk_Header block))"
    and "charge_fee I block tx s = (s', Inr u)"
  shows "balances I s' = fee_move block tx (balances I s)" "unat (tx_Fee tx) \<le> balances I s (tx_From tx)"
proof -
  from assms(5) obtain acc acc1 where 1: "GetAccount I s (tx_From tx) = Inr acc" "tx_Fee tx \<le> acc_Balance acc"
    "acc1 = acc\<lparr>acc_Balance := acc_Balance acc - tx_Fee tx, acc_Nonce := acc_Nonce acc + 1\<rparr>"
    and cases: "(\<exists>pacc. hdr_Proposer (blk_Header block) \<noteq> [] \<and>
        GetAccount I (SetAccount s acc1) (hdr_Proposer (blk_Header block)) = Inr pacc \<and>
        acc_Balance pacc \<le> max_uint64 - tx_Fee tx \<and>
        s' = SetAccount (SetAccount s acc1) (pacc\<lparr>acc_Balance := acc_Balance pacc + tx_Fee tx\<rparr>)) \<or>
     tx_From tx = hdr_Proposer (blk_Header block) \<and> s' = SetAccount s (acc1\<lparr>acc_Balance := acc_Balance acc\<rparr>) \<or>
     (tx_Fee tx = 0 \<or> hdr_Proposer (blk_Header block) = []) \<and> s' = SetAccount s acc1"
    by (elim charge_fee_ok) blast
  have a: "acc_Address acc = tx_From tx" by (rule state_okD(1) [OF assms(1) 1(1)])
  have ok: "state_ok E I (SetAccount s acc1)"
    using state_ok_SetAccount_upd(2) [OF assms(1) 1(1) assms(2)] 1(3) by simp
  have b: "balances I s (tx_From tx) = unat (acc_Balance acc)" using 1(1) by (simp add: balances_def)
  show le: "unat (tx_Fee tx) \<le> balances I s (tx_From tx)" using 1(2) b by (simp add: word_le_nat_alt)
  have d: "balances I (SetAccount s acc1) = (balances I s)(tx_From tx := balances I s (tx_From tx) - unat (tx_Fee tx))"
    using 1(2,3) a b assms(2) by (simp add: account_ok_def unat_sub word_le_nat_alt)
  have same: "balances I (SetAccount s (acc1\<lparr>acc_Balance := acc_Balance acc\<rparr>)) = balances I s"
    using 1(3) a b assms(2) by (auto simp: account_ok_def)
  from cases show "balances I s' = fee_move block tx (balances I s)"
  proof (elim disjE exE conjE)
    fix pacc
    assume p: "hdr_Proposer (blk_Header block) \<noteq> []"
      "GetAccount I (SetAccount s acc1) (hdr_Proposer (blk_Header block)) = Inr pacc"
      "acc_Balance pacc \<le> max_uint64 - tx_Fee tx"
      "s' = SetAccount (SetAccount s acc1) (pacc\<lparr>acc_Balance := acc_Balance pacc + tx_Fee tx\<rparr>)"
    then show ?thesis
      using balances_credit [OF ok p(2) assms(4) p(3)] d by (simp add: fee_move_def move_def)
  next
    assume "tx_From tx = hdr_Proposer (blk_Header block)" "s' = SetAccount s (acc1\<lparr>acc_Balance := acc_Balance acc\<rparr>)"
    then show ?thesis
      using same le assms(3) move_self [of "unat (tx_Fee tx)" "balances I s" "tx_From tx"] by (simp add: fee_move_def)
  qed (use d in \<open>auto simp: fee_move_def move_def Let_def\<close>)
qed

lemma fee_move_other: "c \<noteq> tx_From tx \<Longrightarrow> f c \<le> fee_move block tx f c"
  by (simp add: fee_move_def move_other)

lemma reg_Execute_balance_other:
  assumes "ctx_ok ctx" "state_ok E (ctx_DB ctx) s" "a \<noteq> tx_From (ctx_Tx ctx)"
    and "reg_Execute globalRegistry ty ctx payload s = (s', Inr u)"
  shows "balances (ctx_DB ctx) s a \<le> balances (ctx_DB ctx) s' a \<or>
    ty = TxSessionOpen \<and> (\<exists>p. unmarshal_raw dec_session_open payload = Inr p \<and> a \<in> set (sp_Players p) \<and>
      balances (ctx_DB ctx) s' a + count_list (sp_Players p) a * unat (sp_Stakes p) = balances (ctx_DB ctx) s a)"
  using assms(4)
proof (cases rule: reg_Execute_cases)
  case transfer
  from transfer(2) show ?thesis
    by (rule handleTransfer_balances [OF assms(1,2)]) (simp add: move_other assms(3))
next
  case session_open
  from session_open(2) show ?thesis
  proof (rule handleSessionOpen_balances [OF assms(1,2)])
    fix p
    assume p: "unmarshal_raw dec_session_open payload = Inr p"
      "\<And>a. balances (ctx_DB ctx) s' a + count_list (sp_Players p) a * unat (sp_Stakes p) = balances (ctx_DB ctx) s a"
    show ?thesis
    proof (cases "a \<in> set (sp_Players p)")
      case False
      then show ?thesis using p(2) [of a] by (simp add: count_list_0_iff)
    qed (use p session_open(1) in blast)
  qed
next
  case buy_market
  from buy_market(2) show ?thesis
    by (rule handleBuyMarket_balances [OF assms(1,2)]) (simp add: move_other assms(3))
qed (use handleSessionResult_balances [OF assms(1,2)] simple_handler_balances [OF assms(1)] in auto)

lemma ExecuteTx_balance_other:
  assumes "run_ok E I em block" "state_ok E I s" "ExecuteTx E I em block tx s = (s', Inr u)" "a \<noteq> tx_From tx"
  shows "balances I s a \<le> balances I s' a \<or>
    tx_Type tx = TxSessionOpen \<and> (\<exists>p. unmarshal_raw dec_session_open (tx_Payload tx) = Inr p \<and> a \<in> set (sp_Players p) \<and>
      balances I s a \<le> balances I s' a + count_list (sp_Players p) a * unat (sp_Stakes p))"
proof -
  define ctx where "ctx = \<lparr>ctx_Env = E, ctx_DB = I, ctx_Block = block, ctx_Tx = tx, ctx_Emitter = em\<rparr>"
  obtain s1 s2 where v: "tx_Verify E tx = Inr ()" and fee: "charge_fee I block tx (fst (Snapshot s)) = (s1, Inr ())"
    and ex: "reg_Execute globalRegistry (tx_Type tx) ctx (tx_Payload tx) s1 = (s2, Inr ())"
    and s': "s' = emit_event em \<lparr>ev_Type = EventTxExecuted, ev_TxID = tx_ID tx,
       ev_BlockHeight = hdr_Height (blk_Header block),
       ev_Data = [(''type'', DStr (tx_Type tx)), (''from'', DStr (tx_From tx))]\<rparr> s2"
    unfolding ctx_def by (rule ExecuteTx_parts [OF assms(3)])
  have f: "utf8_ok (tx_From tx)" "tx_From tx \<noteq> []"
    using tx_Verify_utf8 [OF v] v by (auto simp: tx_Verify_def split: if_splits)
  have r: "utf8_ok (hdr_Proposer (blk_Header block))" "emitter_opt_ok I em"
    using assms(1) by (simp_all add: run_ok_def)
  have s: "state_ok E I (fst (Snapshot s))" using assms(2) by simp
  have c: "ctx_ok ctx" "ctx_DB ctx = I" "a \<noteq> tx_From (ctx_Tx ctx)"
    using assms(1,4) f(1) by (simp_all add: ctx_ok_def run_ok_def ctx_def)
  have "balances I s a \<le> balances I s1 a"
    using charge_fee_balances(1) [OF s f r(1) fee] fee_move_other [OF assms(4)] by simp
  moreover have "balances I s' = balances I s2" using s' r(2) by simp
  moreover note reg_Execute_balance_other [OF c(1) _ c(3) ex, unfolded c(2), OF charge_fee_state_ok [OF s f(1) r(1) fee]]
  ultimately show ?thesis by auto
qed

end
