(* ===== verification/Market.thy ===== *)
theory Market
  imports Authority
begin

text \<open>
  Assets and listings: an active listing always stands for an asset its seller owns, and an asset
  marked as listed always has its active listing. An asset changes hands only by a transfer of its owner
  or by a purchase of a listing its owner made.
\<close>

section \<open>The invariant\<close>

definition market_ok :: "(bytes \<Rightarrow> asset result) \<Rightarrow> (bytes \<Rightarrow> listing result) \<Rightarrow> bool" where
  "market_ok fa fl \<longleftrightarrow>
     (\<forall>i l. fl i = Inr l \<and> lst_Active l \<longrightarrow> i \<noteq> [] \<and> lst_Price l \<noteq> 0 \<and>
        (\<exists>a. fa (lst_AssetID l) = Inr a \<and> ast_Owner a = lst_Seller l \<and> ast_ActiveListingID a = i \<and> ast_Tradeable a)) \<and>
     (\<forall>j a. fa j = Inr a \<and> ast_ActiveListingID a \<noteq> [] \<longrightarrow>
        (\<exists>l. fl (ast_ActiveListingID a) = Inr l \<and> lst_Active l \<and> lst_AssetID l = j))"

lemma market_ok_listing:
  assumes "market_ok fa fl" "fl i = Inr l" "lst_Active l"
  obtains a where "i \<noteq> []" "lst_Price l \<noteq> 0" "fa (lst_AssetID l) = Inr a" "ast_Owner a = lst_Seller l"
    "ast_ActiveListingID a = i" "ast_Tradeable a"
  using assms unfolding market_ok_def by blast

lemma market_ok_asset:
  assumes "market_ok fa fl" "fa j = Inr a" "ast_ActiveListingID a \<noteq> []"
  obtains l where "fl (ast_ActiveListingID a) = Inr l" "lst_Active l" "lst_AssetID l = j"
  using assms unfolding market_ok_def by blast

lemma market_okI:
  assumes "\<And>i l. fl i = Inr l \<Longrightarrow> lst_Active l \<Longrightarrow> i \<noteq> [] \<and> lst_Price l \<noteq> 0 \<and>
      (\<exists>a. fa (lst_AssetID l) = Inr a \<and> ast_Owner a = lst_Seller l \<and> ast_ActiveListingID a = i \<and> ast_Tradeable a)"
    and "\<And>j a. fa j = Inr a \<Longrightarrow> ast_ActiveListingID a \<noteq> [] \<Longrightarrow>
      \<exists>l. fl (ast_ActiveListingID a) = Inr l \<and> lst_Active l \<and> lst_AssetID l = j"
  shows "market_ok fa fl"
  using assms unfolding market_ok_def by blast

text \<open>
  Replacing the entry of an asset that is not listed by one that is not listed, or adding or removing
  such an entry.
\<close>

lemma market_ok_unlisted:
  assumes "market_ok fa fl" "\<And>a. fa j = Inr a \<Longrightarrow> ast_ActiveListingID a = []"
    and "\<And>a. r = Inr a \<Longrightarrow> ast_ActiveListingID a = []"
  shows "market_ok (fa(j := r)) fl"
proof (rule market_okI)
  fix i l
  assume "fl i = Inr l" "lst_Active l"
  with assms(1) show "i \<noteq> [] \<and> lst_Price l \<noteq> 0 \<and> (\<exists>a. (fa(j := r)) (lst_AssetID l) = Inr a \<and>
      ast_Owner a = lst_Seller l \<and> ast_ActiveListingID a = i \<and> ast_Tradeable a)"
  proof (rule market_ok_listing)
    fix a
    assume a: "i \<noteq> []" "lst_Price l \<noteq> 0" "fa (lst_AssetID l) = Inr a" "ast_Owner a = lst_Seller l"
      "ast_ActiveListingID a = i" "ast_Tradeable a"
    moreover have "lst_AssetID l \<noteq> j" using assms(2) a(1,3,5) by auto
    ultimately show ?thesis by auto
  qed
next
  fix k a
  assume "(fa(j := r)) k = Inr a" "ast_ActiveListingID a \<noteq> []"
  moreover from this have "k \<noteq> j" using assms(3) by auto
  ultimately show "\<exists>l. fl (ast_ActiveListingID a) = Inr l \<and> lst_Active l \<and> lst_AssetID l = k"
    using market_ok_asset [OF assms(1)] by (metis fun_upd_other)
qed

lemma market_ok_list:
  assumes "market_ok fa fl" "fa j = Inr a" "ast_ActiveListingID a = []" "ast_Tradeable a"
    and "\<not> is_ok (fl i)" "i \<noteq> []" "lst_AssetID l = j" "lst_Seller l = ast_Owner a" "lst_Active l" "lst_Price l \<noteq> 0"
  shows "market_ok (fa(j := Inr (a\<lparr>ast_ActiveListingID := i\<rparr>))) (fl(i := Inr l))"
proof (rule market_okI)
  fix i' l'
  assume l': "(fl(i := Inr l)) i' = Inr l'" "lst_Active l'"
  show "i' \<noteq> [] \<and> lst_Price l' \<noteq> 0 \<and>
    (\<exists>x. (fa(j := Inr (a\<lparr>ast_ActiveListingID := i\<rparr>))) (lst_AssetID l') = Inr x \<and>
      ast_Owner x = lst_Seller l' \<and> ast_ActiveListingID x = i' \<and> ast_Tradeable x)"
  proof (cases "i' = i")
    case True
    then show ?thesis using l' assms by auto
  next
    case False
    then have "fl i' = Inr l'" using l'(1) by simp
    from market_ok_listing [OF assms(1) this l'(2)] obtain x where x: "i' \<noteq> []" "lst_Price l' \<noteq> 0"
      "fa (lst_AssetID l') = Inr x" "ast_Owner x = lst_Seller l'" "ast_ActiveListingID x = i'" "ast_Tradeable x" .
    moreover have "lst_AssetID l' \<noteq> j" using x(1,3,5) assms(2,3) by auto
    ultimately show ?thesis by auto
  qed
next
  fix k x
  assume x: "(fa(j := Inr (a\<lparr>ast_ActiveListingID := i\<rparr>))) k = Inr x" "ast_ActiveListingID x \<noteq> []"
  show "\<exists>l'. (fl(i := Inr l)) (ast_ActiveListingID x) = Inr l' \<and> lst_Active l' \<and> lst_AssetID l' = k"
  proof (cases "k = j")
    case True
    then show ?thesis using x(1) assms(7,9) by auto
  next
    case False
    then have "fa k = Inr x" using x(1) by simp
    from market_ok_asset [OF assms(1) this x(2)] obtain l' where l': "fl (ast_ActiveListingID x) = Inr l'"
      "lst_Active l'" "lst_AssetID l' = k" .
    moreover have "ast_ActiveListingID x \<noteq> i" using l'(1) assms(5) by auto
    ultimately show ?thesis by auto
  qed
qed

lemma market_ok_buy:
  assumes "market_ok fa fl" "fl i = Inr l" "lst_Active l" "fa (lst_AssetID l) = Inr a"
  shows "market_ok (fa(lst_AssetID l := Inr (a\<lparr>ast_Owner := b, ast_ActiveListingID := []\<rparr>))) (fl(i := Inr (l\<lparr>lst_Active := False\<rparr>)))"
proof -
  from market_ok_listing [OF assms(1-3)] assms(4) have i: "ast_ActiveListingID a = i" by auto
  show ?thesis
  proof (rule market_okI)
    fix i' l'
    assume l': "(fl(i := Inr (l\<lparr>lst_Active := False\<rparr>))) i' = Inr l'" "lst_Active l'"
    then have n: "i' \<noteq> i" "fl i' = Inr l'" by (auto split: if_splits)
    from market_ok_listing [OF assms(1) n(2) l'(2)] obtain x where x: "i' \<noteq> []" "lst_Price l' \<noteq> 0"
      "fa (lst_AssetID l') = Inr x" "ast_Owner x = lst_Seller l'" "ast_ActiveListingID x = i'" "ast_Tradeable x" .
    moreover have "lst_AssetID l' \<noteq> lst_AssetID l" using x(3,5) assms(4) i n(1) by auto
    ultimately show "i' \<noteq> [] \<and> lst_Price l' \<noteq> 0 \<and>
      (\<exists>x. (fa(lst_AssetID l := Inr (a\<lparr>ast_Owner := b, ast_ActiveListingID := []\<rparr>))) (lst_AssetID l') = Inr x \<and>
        ast_Owner x = lst_Seller l' \<and> ast_ActiveListingID x = i' \<and> ast_Tradeable x)"
      by auto
  next
    fix k x
    assume x: "(fa(lst_AssetID l := Inr (a\<lparr>ast_Owner := b, ast_ActiveListingID := []\<rparr>))) k = Inr x"
      "ast_ActiveListingID x \<noteq> []"
    then have k: "k \<noteq> lst_AssetID l" "fa k = Inr x" by (auto split: if_splits)
    from market_ok_asset [OF assms(1) k(2) x(2)] obtain l' where l': "fl (ast_ActiveListingID x) = Inr l'"
      "lst_Active l'" "lst_AssetID l' = k" .
    moreover have "ast_ActiveListingID x \<noteq> i" using l'(1,3) assms(2) k(1) by auto
    ultimately show "\<exists>l'. (fl(i := Inr (l\<lparr>lst_Active := False\<rparr>))) (ast_ActiveListingID x) = Inr l' \<and>
        lst_Active l' \<and> lst_AssetID l' = k"
      by auto
  qed
qed

section \<open>What a transaction does to assets and listings\<close>

lemma asset_fun:
  "asset_ok (float_norm E) x \<Longrightarrow> GetAsset E I (SetAsset s x) = (GetAsset E I s)(ast_ID x := Inr x)"
  "GetAsset E I (DeleteAsset s j) = (GetAsset E I s)(j := Inl ErrNotFound)"
  "GetAsset E I (SetAccount s acc) = GetAsset E I s" "GetAsset E I (SetTemplate s t) = GetAsset E I s"
  "GetAsset E I (SetSession s q) = GetAsset E I s" "GetAsset E I (SetListing s l) = GetAsset E I s"
  "GetAsset E I (fst (Snapshot s)) = GetAsset E I s"
  "emitter_opt_ok I oem \<Longrightarrow> GetAsset E I (emit_event oem ev s) = GetAsset E I s"
  "emitter_opt_ok (ctx_DB ctx) (ctx_Emitter ctx) \<Longrightarrow>
     GetAsset E (ctx_DB ctx) (ctx_emit ctx ty data s) = GetAsset E (ctx_DB ctx) s"
  by (auto simp: fun_eq_iff)

lemma listing_fun:
  "listing_ok l \<Longrightarrow> GetListing I (SetListing s l) = (GetListing I s)(lst_ID l := Inr l)"
  "GetListing I (SetAsset s x) = GetListing I s" "GetListing I (DeleteAsset s j) = GetListing I s"
  "GetListing I (SetAccount s acc) = GetListing I s" "GetListing I (SetTemplate s t) = GetListing I s"
  "GetListing I (SetSession s q) = GetListing I s" "GetListing I (fst (Snapshot s)) = GetListing I s"
  "emitter_opt_ok I oem \<Longrightarrow> GetListing I (emit_event oem ev s) = GetListing I s"
  "emitter_opt_ok (ctx_DB ctx) (ctx_Emitter ctx) \<Longrightarrow>
     GetListing (ctx_DB ctx) (ctx_emit ctx ty data s) = GetListing (ctx_DB ctx) s"
  by (auto simp: fun_eq_iff)

lemma lock_stakes_assets:
  "lock_stakes I stakes ps s = (s', r) \<Longrightarrow> GetAsset E I s' = GetAsset E I s \<and> GetListing I s' = GetListing I s"
  by (induction ps arbitrary: s) (auto split: sum.splits if_splits simp: asset_fun listing_fun)

lemma pay_rewards_assets:
  "pay_rewards I krs s = (s', r) \<Longrightarrow> GetAsset E I s' = GetAsset E I s \<and> GetListing I s' = GetListing I s"
  by (induction krs arbitrary: s) (auto split: sum.splits if_splits simp: asset_fun listing_fun)

lemma charge_fee_assets:
  "charge_fee I block tx s = (s', r) \<Longrightarrow> GetAsset E I s' = GetAsset E I s \<and> GetListing I s' = GetListing I s"
  by (auto simp: charge_fee_def Let_def asset_fun listing_fun split: sum.splits if_splits)

text \<open>The five ways a transaction changes the market, on the two maps.\<close>

inductive market_step ::
  "env \<Rightarrow> transaction \<Rightarrow> (bytes \<Rightarrow> asset result) \<Rightarrow> (bytes \<Rightarrow> listing result) \<Rightarrow>
   (bytes \<Rightarrow> asset result) \<Rightarrow> (bytes \<Rightarrow> listing result) \<Rightarrow> bool"
  for E tx fa fl where
  step_none: "market_step E tx fa fl fa fl"
| step_mint: "unmarshal_raw (dec_mint (float_norm E)) (tx_Payload tx) = Inr p \<Longrightarrow> tx_Type tx = TxMintAsset \<Longrightarrow>
    j = asset_id E tx (mp_TemplateID p) \<Longrightarrow> ast_ActiveListingID a = [] \<Longrightarrow>
    ast_Owner a = (if mp_Owner p = [] then tx_From tx else mp_Owner p) \<Longrightarrow>
    market_step E tx fa fl (fa(j := Inr a)) fl"
| step_burn: "tx_Type tx = TxBurnAsset \<Longrightarrow> fa j = Inr a \<Longrightarrow> ast_Owner a = tx_From tx \<Longrightarrow> ast_ActiveListingID a = [] \<Longrightarrow>
    market_step E tx fa fl (fa(j := Inl ErrNotFound)) fl"
| step_transfer: "tx_Type tx = TxTransferAsset \<Longrightarrow> fa j = Inr a \<Longrightarrow> ast_Owner a = tx_From tx \<Longrightarrow> ast_Tradeable a \<Longrightarrow>
    ast_ActiveListingID a = [] \<Longrightarrow> is_ok (PubKeyFromHex b) \<Longrightarrow>
    market_step E tx fa fl (fa(j := Inr (a\<lparr>ast_Owner := b\<rparr>))) fl"
| step_list: "unmarshal_raw dec_list_market (tx_Payload tx) = Inr p \<Longrightarrow> tx_Type tx = TxListMarket \<Longrightarrow>
    j = lp_AssetID p \<Longrightarrow> i = listing_id E tx j \<Longrightarrow> fa j = Inr a \<Longrightarrow> ast_Owner a = tx_From tx \<Longrightarrow> ast_Tradeable a \<Longrightarrow>
    ast_ActiveListingID a = [] \<Longrightarrow> lst_AssetID l = j \<Longrightarrow> lst_Seller l = tx_From tx \<Longrightarrow> lst_Active l \<Longrightarrow> lst_Price l \<noteq> 0 \<Longrightarrow>
    market_step E tx fa fl (fa(j := Inr (a\<lparr>ast_ActiveListingID := i\<rparr>))) (fl(i := Inr l))"
| step_buy: "unmarshal_raw dec_buy_market (tx_Payload tx) = Inr p \<Longrightarrow> tx_Type tx = TxBuyMarket \<Longrightarrow>
    i = up_ListingID p \<Longrightarrow> fl i = Inr l \<Longrightarrow> lst_Active l \<Longrightarrow>
    lst_Seller l \<noteq> tx_From tx \<Longrightarrow> fa (lst_AssetID l) = Inr a \<Longrightarrow>
    market_step E tx fa fl (fa(lst_AssetID l := Inr (a\<lparr>ast_Owner := tx_From tx, ast_ActiveListingID := []\<rparr>)))
      (fl(i := Inr (l\<lparr>lst_Active := False\<rparr>)))"

inductive_cases market_stepE: "market_step E tx fa fl fa' fl'"

definition same_market :: "env \<Rightarrow> 'd db_iface \<Rightarrow> 'd statedb \<Rightarrow> 'd statedb \<Rightarrow> bool" where
  "same_market E I s s' \<longleftrightarrow> GetAsset E I s' = GetAsset E I s \<and> GetListing I s' = GetListing I s"

lemma account_handler_market:
  assumes "ctx_ok ctx"
  shows "handleTransfer ctx p s = (s', Inr u) \<Longrightarrow> same_market E (ctx_DB ctx) s s'"
    "handleRegisterTemplate ctx p s = (s', Inr u) \<Longrightarrow> same_market E (ctx_DB ctx) s s'"
    "handleSessionOpen ctx p s = (s', Inr u) \<Longrightarrow> same_market E (ctx_DB ctx) s s'"
    "handleSessionResult ctx p s = (s', Inr u) \<Longrightarrow> same_market E (ctx_DB ctx) s s'"
proof -
  note em = ctx_okD(2) [OF assms]
  note funs = asset_fun(3-6) asset_fun(9) [OF em] listing_fun(4-6) listing_fun(9) [OF em] same_market_def
  show "handleTransfer ctx p s = (s', Inr u) \<Longrightarrow> same_market E (ctx_DB ctx) s s'"
    by (elim handleTransfer_ok) (simp add: funs)
  show "handleRegisterTemplate ctx p s = (s', Inr u) \<Longrightarrow> same_market E (ctx_DB ctx) s s'"
    by (elim handleRegisterTemplate_ok) (simp add: funs)
  show "handleSessionOpen ctx p s = (s', Inr u) \<Longrightarrow> same_market E (ctx_DB ctx) s s'"
    by (elim handleSessionOpen_ok) (auto simp: funs split: if_splits dest: lock_stakes_assets)
  show "handleSessionResult ctx p s = (s', Inr u) \<Longrightarrow> same_market E (ctx_DB ctx) s s'"
    by (elim handleSessionResult_ok) (auto simp: funs dest: pay_rewards_assets)
qed

lemma handleMintAsset_market:
  assumes "ctx_ok ctx" "tx_Type (ctx_Tx ctx) = TxMintAsset"
    and "handleMintAsset ctx (tx_Payload (ctx_Tx ctx)) s = (s', Inr u)"
  shows "market_step (ctx_Env ctx) (ctx_Tx ctx) (GetAsset (ctx_Env ctx) (ctx_DB ctx) s) (GetListing (ctx_DB ctx) s)
    (GetAsset (ctx_Env ctx) (ctx_DB ctx) s') (GetListing (ctx_DB ctx) s')"
  using assms(3)
proof (cases rule: handleMintAsset_ok)
  case (1 p tmpl owner)
  obtain j where "raw_valid j" "dec_mint (float_norm (ctx_Env ctx)) j = Inr p"
    using 1(1) by (auto simp: unmarshal_raw_Inr)
  then have p: "utf8_ok (mp_TemplateID p)" "utf8_ok (mp_Owner p)" "anymap_valid (float_norm (ctx_Env ctx)) (mp_Properties p)"
    using dec_mint_valid [OF ctx_okD(1) [OF assms(1)]] by blast+
  have "utf8_ok owner" using p(2) 1(4) ctx_okD(3) [OF assms(1)] by simp
  define x where "x = \<lparr>ast_ID = asset_id (ctx_Env ctx) (ctx_Tx ctx) (mp_TemplateID p),
    ast_TemplateID = mp_TemplateID p, ast_Owner = owner, ast_Properties = mp_Properties p,
    ast_Tradeable = tpl_Tradeable tmpl, ast_MintedAt = hdr_Timestamp (blk_Header (ctx_Block ctx)),
    ast_ActiveListingID = []\<rparr>"
  have "asset_ok (float_norm (ctx_Env ctx)) x"
    using p \<open>utf8_ok owner\<close> ctx_okD(4) [OF assms(1)] by (simp add: x_def asset_ok_def asset_id_def anymap_valid_def)
  then show ?thesis
    using 1(6) [folded x_def] ctx_okD(2) [OF assms(1)] step_mint [OF 1(1) assms(2) refl, of x] 1(4)
    by (simp add: asset_fun listing_fun) (simp add: x_def)
qed

lemma handleBurnAsset_market:
  assumes "ctx_ok ctx" "tx_Type (ctx_Tx ctx) = TxBurnAsset" "handleBurnAsset ctx p s = (s', Inr u)"
  shows "market_step (ctx_Env ctx) (ctx_Tx ctx) (GetAsset (ctx_Env ctx) (ctx_DB ctx) s) (GetListing (ctx_DB ctx) s)
    (GetAsset (ctx_Env ctx) (ctx_DB ctx) s') (GetListing (ctx_DB ctx) s')"
  using assms(3) ctx_okD(2) [OF assms(1)]
  by (elim handleBurnAsset_ok) (auto simp: asset_fun listing_fun intro: step_burn [OF assms(2)])

lemma handleTransferAsset_market:
  assumes "ctx_ok ctx" "tx_Type (ctx_Tx ctx) = TxTransferAsset" "state_ok (ctx_Env ctx) (ctx_DB ctx) s"
    and "handleTransferAsset ctx p s = (s', Inr u)"
  shows "market_step (ctx_Env ctx) (ctx_Tx ctx) (GetAsset (ctx_Env ctx) (ctx_DB ctx) s) (GetListing (ctx_DB ctx) s)
    (GetAsset (ctx_Env ctx) (ctx_DB ctx) s') (GetListing (ctx_DB ctx) s')"
  using assms(4)
proof (cases rule: handleTransferAsset_ok)
  case (1 q pk a)
  have a: "ast_ID a = ap_AssetID q" "asset_ok (float_norm (ctx_Env ctx)) a" using state_okD(2) [OF assms(3) 1(3)] by simp_all
  have "utf8_ok (ap_To q)" using PubKeyFromHex_utf8 1(2) by blast
  then show ?thesis
    using 1(7) a ctx_okD(2) [OF assms(1)] step_transfer [where fa = "GetAsset (ctx_Env ctx) (ctx_DB ctx) s" and j = "ap_AssetID q" and b = "ap_To q",
        OF assms(2) 1(3-6)] 1(2)
    by (simp add: asset_fun listing_fun asset_ok_upd)
qed

lemma handleListMarket_market:
  assumes "ctx_ok ctx" "tx_Type (ctx_Tx ctx) = TxListMarket" "state_ok (ctx_Env ctx) (ctx_DB ctx) s"
    and "handleListMarket ctx (tx_Payload (ctx_Tx ctx)) s = (s', Inr u)"
  shows "market_step (ctx_Env ctx) (ctx_Tx ctx) (GetAsset (ctx_Env ctx) (ctx_DB ctx) s) (GetListing (ctx_DB ctx) s)
    (GetAsset (ctx_Env ctx) (ctx_DB ctx) s') (GetListing (ctx_DB ctx) s')"
  using assms(4)
proof (cases rule: handleListMarket_ok)
  case (1 p a lid)
  have a: "ast_ID a = lp_AssetID p" "asset_ok (float_norm (ctx_Env ctx)) a" using state_okD(2) [OF assms(3) 1(3)] by simp_all
  have u: "utf8_ok (lp_AssetID p)" "utf8_ok lid"
    using 1(1,7) dec_list_market_utf8 by (auto simp: unmarshal_raw_Inr listing_id_def)
  have l: "listing_ok \<lparr>lst_ID = lid, lst_AssetID = lp_AssetID p, lst_Seller = tx_From (ctx_Tx ctx),
      lst_Price = lp_Price p, lst_Active = True, lst_CreatedAt = hdr_Timestamp (blk_Header (ctx_Block ctx))\<rparr>"
    using u ctx_okD(3,4) [OF assms(1)] by (simp add: listing_ok_def)
  show ?thesis
    using 1(8) a u(2) ctx_okD(2) [OF assms(1)]
      step_list [where fa = "GetAsset (ctx_Env ctx) (ctx_DB ctx) s" and j = "lp_AssetID p" and
        l = "\<lparr>lst_ID = lid, lst_AssetID = lp_AssetID p, lst_Seller = tx_From (ctx_Tx ctx), lst_Price = lp_Price p,
          lst_Active = True, lst_CreatedAt = hdr_Timestamp (blk_Header (ctx_Block ctx))\<rparr>",
        OF 1(1) assms(2) refl 1(7) 1(3-6)] 1(2) l
    by (simp add: asset_fun listing_fun asset_ok_upd)
qed

lemma handleBuyMarket_market:
  assumes "ctx_ok ctx" "tx_Type (ctx_Tx ctx) = TxBuyMarket" "state_ok (ctx_Env ctx) (ctx_DB ctx) s"
    and "handleBuyMarket ctx (tx_Payload (ctx_Tx ctx)) s = (s', Inr u)"
  shows "market_step (ctx_Env ctx) (ctx_Tx ctx) (GetAsset (ctx_Env ctx) (ctx_DB ctx) s) (GetListing (ctx_DB ctx) s)
    (GetAsset (ctx_Env ctx) (ctx_DB ctx) s') (GetListing (ctx_DB ctx) s')"
  using assms(4)
proof (cases rule: handleBuyMarket_ok)
  case (1 p l buyer seller a s1 s2)
  have s2: "GetAsset (ctx_Env ctx) (ctx_DB ctx) s2 = GetAsset (ctx_Env ctx) (ctx_DB ctx) s"
    "GetListing (ctx_DB ctx) s2 = GetListing (ctx_DB ctx) s"
    using 1(7,10) by (simp_all add: asset_fun listing_fun)
  have a: "ast_ID a = lst_AssetID l" "asset_ok (float_norm (ctx_Env ctx)) a"
    using state_okD(2) [OF assms(3)] 1(11) s2(1) by simp_all
  have l: "lst_ID l = up_ListingID p" "listing_ok (l\<lparr>lst_Active := False\<rparr>)"
    using state_okD(5) [OF assms(3) 1(2)] by (auto simp: listing_ok_def)
  show ?thesis
    using 1(12) s2 a l ctx_okD(2,3) [OF assms(1)] step_buy [where fa = "GetAsset (ctx_Env ctx) (ctx_DB ctx) s" and fl = "GetListing (ctx_DB ctx) s",
        OF 1(1) assms(2) refl 1(2-4)] 1(11)
    by (simp add: asset_fun listing_fun asset_ok_upd)
qed

lemma reg_Execute_market:
  assumes "ctx_ok ctx" "state_ok (ctx_Env ctx) (ctx_DB ctx) s"
    and "reg_Execute globalRegistry (tx_Type (ctx_Tx ctx)) ctx (tx_Payload (ctx_Tx ctx)) s = (s', Inr u)"
  shows "market_step (ctx_Env ctx) (ctx_Tx ctx) (GetAsset (ctx_Env ctx) (ctx_DB ctx) s) (GetListing (ctx_DB ctx) s)
    (GetAsset (ctx_Env ctx) (ctx_DB ctx) s') (GetListing (ctx_DB ctx) s')"
proof -
  have "market_step E tx (GetAsset E I s) (GetListing I s) (GetAsset E I s') (GetListing I s')"
    if "same_market E I s s'" for E tx I and s s' :: "'a statedb"
    using that by (simp add: same_market_def step_none)
  note same = this and acc = account_handler_market [OF assms(1)]
  from assms(3) show ?thesis
  proof (cases rule: reg_Execute_cases)
    case mint then show ?thesis by (rule handleMintAsset_market [OF assms(1)])
  next
    case burn then show ?thesis by (rule handleBurnAsset_market [OF assms(1)])
  next
    case transfer_asset then show ?thesis by (rule handleTransferAsset_market [OF assms(1) _ assms(2)])
  next
    case list_market then show ?thesis by (rule handleListMarket_market [OF assms(1) _ assms(2)])
  next
    case buy_market then show ?thesis by (rule handleBuyMarket_market [OF assms(1) _ assms(2)])
  qed (use same acc in auto)
qed

lemma ExecuteTx_market:
  assumes "run_ok E I em block" "state_ok E I s" "ExecuteTx E I em block tx s = (s', Inr u)"
  shows "market_step E tx (GetAsset E I s) (GetListing I s) (GetAsset E I s') (GetListing I s')"
proof -
  define ctx where "ctx = \<lparr>ctx_Env = E, ctx_DB = I, ctx_Block = block, ctx_Tx = tx, ctx_Emitter = em\<rparr>"
  obtain s1 s2 where v: "tx_Verify E tx = Inr ()" and fee: "charge_fee I block tx (fst (Snapshot s)) = (s1, Inr ())"
    and ex: "reg_Execute globalRegistry (tx_Type tx) ctx (tx_Payload tx) s1 = (s2, Inr ())"
    and s': "s' = emit_event em \<lparr>ev_Type = EventTxExecuted, ev_TxID = tx_ID tx,
       ev_BlockHeight = hdr_Height (blk_Header block),
       ev_Data = [(''type'', DStr (tx_Type tx)), (''from'', DStr (tx_From tx))]\<rparr> s2"
    unfolding ctx_def by (rule ExecuteTx_parts [OF assms(3)])
  have f: "utf8_ok (tx_From tx)" by (rule tx_Verify_utf8 [OF v])
  have r: "utf8_ok (hdr_Proposer (blk_Header block))" "emitter_opt_ok I em"
    using assms(1) by (simp_all add: run_ok_def)
  have s: "state_ok E I (fst (Snapshot s))" using assms(2) by simp
  have "market_step E tx (GetAsset E I s1) (GetListing I s1) (GetAsset E I s2) (GetListing I s2)"
    using reg_Execute_market [of ctx s1 s2] ex charge_fee_state_ok [OF s f r(1) fee] assms(1) f
    by (simp add: ctx_def ctx_ok_def run_ok_def)
  moreover have "GetAsset E I s1 = GetAsset E I s" "GetListing I s1 = GetListing I s"
    using charge_fee_assets [OF fee] by (simp_all add: asset_fun listing_fun)
  ultimately show ?thesis using s' r(2) by (simp add: asset_fun listing_fun)
qed

end
