(* ===== verification/Ledger.thy ===== *)
theory Ledger
  imports Market
begin

text \<open>
  The life of the world state: transactions that succeed, and commits. \<open>ledger\<close> is the step relation
  with the history of executed transactions; its invariants are well-formedness, conservation of
  tokens, unique sender/nonce pairs, unique asset and listing IDs, and market consistency.
\<close>

section \<open>The write buffer of an executed transaction\<close>

definition buf_ok :: "'d statedb \<Rightarrow> bool" where
  "buf_ok s \<longleftrightarrow> sdb_ok s \<and> (\<forall>k\<in>fset (fmdom (sdb_dirty s)). state_key k) \<and>
     (\<forall>k\<in>fset (fmdom (sdb_deleted s)). state_key k)"

lemma buf_ok_new [simp]: "buf_ok (NewStateDB d)"
  by (simp add: buf_ok_def sdb_ok_new) (simp add: NewStateDB_def)

lemma buf_ok_sdb_set: "buf_ok s \<Longrightarrow> state_key k \<Longrightarrow> buf_ok (sdb_set s k v)"
  by (simp add: buf_ok_def sdb_ok_set) (simp add: sdb_set_def)

lemma buf_ok_sdb_del: "buf_ok s \<Longrightarrow> state_key k \<Longrightarrow> buf_ok (sdb_del s k)"
  by (simp add: buf_ok_def sdb_ok_del) (simp add: sdb_del_def)

lemma buf_ok_set [simp]:
  assumes "buf_ok s"
  shows "buf_ok (SetAccount s acc)" "buf_ok (SetAsset s x)" "buf_ok (DeleteAsset s j)" "buf_ok (SetTemplate s t)"
    "buf_ok (SetSession s q)" "buf_ok (SetListing s l)"
  using assms by (simp_all add: accessor_defs buf_ok_sdb_set buf_ok_sdb_del)

lemma buf_ok_frame [simp]:
  "buf_ok (emit_event oem ev s) = buf_ok s" "buf_ok (ctx_emit ctx ty data s) = buf_ok s"
  by (simp_all add: buf_ok_def sdb_ok_def)

lemma buf_ok_Snapshot [simp]: "buf_ok s \<Longrightarrow> buf_ok (fst (Snapshot s))"
  by (simp add: buf_ok_def sdb_ok_Snapshot) (simp add: Snapshot_simps)

lemma lock_stakes_buf_ok: "lock_stakes I stakes ps s = (s', r) \<Longrightarrow> buf_ok s \<Longrightarrow> buf_ok s'"
  by (induction ps arbitrary: s) (fastforce split: sum.splits if_splits)+

lemma pay_rewards_buf_ok: "pay_rewards I krs s = (s', r) \<Longrightarrow> buf_ok s \<Longrightarrow> buf_ok s'"
  by (induction krs arbitrary: s) (fastforce split: sum.splits if_splits)+

lemma reg_Execute_buf_ok:
  assumes "reg_Execute globalRegistry ty ctx p s = (s', Inr u)" "buf_ok s"
  shows "buf_ok s'"
  using assms(1)
proof (cases rule: reg_Execute_cases)
  case session_open
  from session_open(2) assms(2) show ?thesis
    by (elim handleSessionOpen_ok) (auto split: if_splits dest: lock_stakes_buf_ok)
next
  case session_result
  from session_result(2) assms(2) show ?thesis
    by (elim handleSessionResult_ok) (auto dest: pay_rewards_buf_ok)
qed (use assms(2) in \<open>auto elim: handleTransfer_ok handleMintAsset_ok handleBurnAsset_ok
      handleTransferAsset_ok handleRegisterTemplate_ok handleListMarket_ok handleBuyMarket_ok\<close>)

lemma charge_fee_buf_ok: "charge_fee I block tx s = (s', r) \<Longrightarrow> buf_ok s \<Longrightarrow> buf_ok s'"
  by (auto simp: charge_fee_def Let_def split: sum.splits if_splits)

lemma ExecuteTx_buf_ok:
  assumes "ExecuteTx E I em block tx s = (s', r)" "buf_ok s"
  shows "buf_ok s'"
proof (cases r)
  case (Inl e)
  then show ?thesis
    using assms by (cases rule: ExecuteTx_cases [of E tx I em block s]) auto
next
  case (Inr u)
  from assms(1) [unfolded Inr] show ?thesis
  proof (rule ExecuteTx_parts)
    fix s1 s2
    assume "charge_fee I block tx (fst (Snapshot s)) = (s1, Inr ())"
      and "reg_Execute globalRegistry (tx_Type tx)
        \<lparr>ctx_Env = E, ctx_DB = I, ctx_Block = block, ctx_Tx = tx, ctx_Emitter = em\<rparr> (tx_Payload tx) s1 = (s2, Inr ())"
      and "s' = emit_event em \<lparr>ev_Type = EventTxExecuted, ev_TxID = tx_ID tx,
        ev_BlockHeight = hdr_Height (blk_Header block),
        ev_Data = [(''type'', DStr (tx_Type tx)), (''from'', DStr (tx_From tx))]\<rparr> s2"
    then show ?thesis
      using charge_fee_buf_ok reg_Execute_buf_ok assms(2) by fastforce
  qed
qed

lemma execute_txs_buf_ok: "execute_txs E I em block txs s = (s', r) \<Longrightarrow> buf_ok s \<Longrightarrow> buf_ok s'"
proof (induction txs arbitrary: s)
  case (Cons tx txs)
  obtain s1 r1 where "ExecuteTx E I em block tx s = (s1, r1)" by fastforce
  with Cons ExecuteTx_buf_ok [of E I em block tx s s1 r1] show ?case by (cases r1) auto
qed simp

section \<open>Reads across a commit\<close>

context healthy_db
begin

lemma commit_get:
  assumes "buf_ok s" "Commit E I s = (s', Inr u)"
  shows "sdb_get I s' k = sdb_get I s k"
proof -
  have "view \<alpha> s' = view \<alpha> s"
    using Commit_ok(3) assms by (simp add: buf_ok_def)
  then show ?thesis by (simp add: healthy_get_view [OF healthy])
qed

lemma commit_reads:
  assumes "buf_ok s" "Commit E I s = (s', Inr u)"
  shows "GetAccount I s' = GetAccount I s" "GetAsset F I s' = GetAsset F I s" "GetTemplate F I s' = GetTemplate F I s"
    "GetSession I s' = GetSession I s" "GetListing I s' = GetListing I s"
  by (simp_all add: fun_eq_iff accessor_defs commit_get [OF assms])

lemma commit_tables:
  assumes "buf_ok s" "Commit E I s = (s', Inr u)"
  shows "balances I s' = balances I s" "locked I s' = locked I s" "nonces I s' = nonces I s"
  by (simp_all add: fun_eq_iff balances_def locked_def nonces_def commit_reads [OF assms])

lemma commit_buf_ok: "buf_ok s \<Longrightarrow> Commit E I s = (s', Inr u) \<Longrightarrow> buf_ok s'"
  using Commit_ok(1) [of s E s' u] by (metis buf_ok_def buf_ok_new)

end

lemma other_tables:
  assumes "db_keeps I (sdb_db s) d"
  shows "balances I (s\<lparr>sdb_db := d\<rparr>) = balances I s" "locked I (s\<lparr>sdb_db := d\<rparr>) = locked I s"
    "nonces I (s\<lparr>sdb_db := d\<rparr>) = nonces I s" "GetAsset E I (s\<lparr>sdb_db := d\<rparr>) = GetAsset E I s"
    "GetListing I (s\<lparr>sdb_db := d\<rparr>) = GetListing I s"
  by (simp_all add: fun_eq_iff balances_def locked_def nonces_def get_keeps [OF assms])

lemma snapshot_tables [simp]:
  "balances I (fst (Snapshot s)) = balances I s" "locked I (fst (Snapshot s)) = locked I s"
  "nonces I (fst (Snapshot s)) = nonces I s" "GetAsset E I (fst (Snapshot s)) = GetAsset E I s"
  "GetListing I (fst (Snapshot s)) = GetListing I s"
  by (simp_all add: fun_eq_iff balances_def locked_def nonces_def)

lemma other_state_ok:
  assumes "db_keeps I (sdb_db s) d"
  shows "state_ok E I (s\<lparr>sdb_db := d\<rparr>) = state_ok E I s" "buf_ok (s\<lparr>sdb_db := d\<rparr>) = buf_ok s"
  unfolding state_ok_def get_keeps [OF assms] by (simp_all add: buf_ok_def sdb_ok_def)

section \<open>The step relation\<close>

text \<open>
  \<open>ledger E I em s0 h s\<close>: from \<open>s0\<close> the node reaches \<open>s\<close> by executing, in order, the transactions of the
  history \<open>h\<close> (each with the block it is in), by commits and snapshots in between, and by writes of the
  other components to their own keys of the database.
\<close>

inductive ledger ::
  "env \<Rightarrow> 'd db_iface \<Rightarrow> 'd emitter option \<Rightarrow> 'd statedb \<Rightarrow> (block \<times> transaction) list \<Rightarrow> 'd statedb \<Rightarrow> bool"
  for E I em s0 where
  ledger_start: "ledger E I em s0 [] s0"
| ledger_exec: "ledger E I em s0 h s \<Longrightarrow> run_ok E I em block \<Longrightarrow> tx_ok tx \<Longrightarrow> payload_fits (tx_Payload tx) \<Longrightarrow>
    ExecuteTx E I em block tx s = (s', Inr u) \<Longrightarrow> ledger E I em s0 (h @ [(block, tx)]) s'"
| ledger_commit: "ledger E I em s0 h s \<Longrightarrow> Commit E I s = (s', Inr u) \<Longrightarrow> ledger E I em s0 h s'"
| ledger_other: "ledger E I em s0 h s \<Longrightarrow> db_keeps I (sdb_db s) d \<Longrightarrow> ledger E I em s0 h (s\<lparr>sdb_db := d\<rparr>)"
| ledger_snapshot: "ledger E I em s0 h s \<Longrightarrow> ledger E I em s0 h (fst (Snapshot s))"

inductive_cases ledger_snocE: "ledger E I em s0 (h @ [bt]) s"

lemma ledger_execute_txs:
  assumes "ledger E I em s0 h s" "run_ok E I em block" "execute_txs E I em block txs s = (s', Inr u)"
    and "\<forall>tx\<in>set txs. tx_ok tx \<and> payload_fits (tx_Payload tx)"
  shows "ledger E I em s0 (h @ map (Pair block) txs) s'"
  using assms
proof (induction txs arbitrary: h s)
  case (Cons tx txs)
  obtain s1 where s1: "ExecuteTx E I em block tx s = (s1, Inr ())" "execute_txs E I em block txs s1 = (s', Inr u)"
    using Cons.prems(3) by (auto split: prod.splits sum.splits)
  then have "ledger E I em s0 (h @ [(block, tx)]) s1"
    using Cons.prems ledger_exec by fastforce
  from Cons.IH [OF this] Cons.prems s1(2) show ?case by simp
qed simp

text \<open>A failed transaction changes nothing, so blocks extend the history only by their successful prefix.\<close>

lemma uint64_less_Suc:
  assumes "x \<noteq> max_uint64"
  shows "x < x + 1"
proof -
  have "unat x \<noteq> unat max_uint64" using assms by (simp add: word_unat_eq_iff)
  moreover have "unat x < 2 ^ 64" using unsigned_less [of x] by simp
  ultimately have "unat x + 1 < 2 ^ 64"
    by (simp add: max_uint64_def unsigned_minus_1_eq_mask mask_eq_exp_minus_1)
  then show ?thesis by (simp add: word_less_nat_alt unat_word_ariths)
qed

section \<open>Invariants by rule induction\<close>

definition sender_nonce :: "block \<times> transaction \<Rightarrow> bytes \<times> uint64" where
  "sender_nonce bt = (tx_From (snd bt), tx_Nonce (snd bt))"

context healthy_db
begin

lemma ledger_ok:
  assumes "ledger E I em s0 h s" "state_ok E I s0" "buf_ok s0"
  shows "state_ok E I s \<and> buf_ok s"
  using assms
proof (induction rule: ledger.induct)
  case (ledger_exec h s block tx s' u)
  then show ?case
    using ExecuteTx_state_ok [OF ledger_exec.hyps(2,4) _ ledger_exec.hyps(5)]
      ExecuteTx_buf_ok [OF ledger_exec.hyps(5)] by blast
next
  case (ledger_commit h s s' u)
  then have s: "state_ok E I s" "buf_ok s" by blast+
  have "state_ok E I s'"
    using s(1) unfolding state_ok_def commit_reads [OF s(2) ledger_commit.hyps(2)] .
  then show ?case using commit_buf_ok [OF s(2) ledger_commit.hyps(2)] by blast
next
  case (ledger_other h s d)
  then show ?case by (simp add: other_state_ok)
qed simp_all

lemma ledger_supply:
  assumes "ledger E I em s0 h s" "state_ok E I s0" "buf_ok s0"
  shows "total_supply I s + sum_list (map (\<lambda>(block, tx). burned_fee block tx) h) = total_supply I s0"
  using assms
proof (induction rule: ledger.induct)
  case (ledger_exec h s block tx s' u)
  moreover from this have "state_ok E I s" using ledger_ok by blast
  ultimately show ?case using ExecuteTx_supply [of E em block tx s s' "Inr u"] by simp
next
  case (ledger_commit h s s' u)
  then have "buf_ok s" using ledger_ok by blast
  from commit_tables [OF this ledger_commit.hyps(2)] ledger_commit show ?case
    by (simp add: total_supply_def)
next
  case (ledger_other h s d)
  then show ?case by (simp add: total_supply_def other_tables)
qed (simp_all add: total_supply_def)

lemma ledger_nonces:
  assumes "ledger E I em s0 h s" "state_ok E I s0" "buf_ok s0"
  shows "distinct (map sender_nonce h) \<and>
    (\<forall>bt\<in>set h. \<exists>n. nonces I s (tx_From (snd bt)) = Inr n \<and> tx_Nonce (snd bt) < n)"
  using assms
proof (induction rule: ledger.induct)
  case (ledger_exec h s block tx s' u)
  then have "state_ok E I s" using ledger_ok by blast
  note n = ExecuteTx_nonces [OF ledger_exec.hyps(2) this ledger_exec.hyps(5)]
  have lt: "tx_Nonce tx < tx_Nonce tx + 1"
    by (rule uint64_less_Suc [OF n(2)])
  have old: "distinct (map sender_nonce h)"
    "\<forall>bt\<in>set h. \<exists>n. nonces I s (tx_From (snd bt)) = Inr n \<and> tx_Nonce (snd bt) < n"
    using ledger_exec by blast+
  then have "sender_nonce (block, tx) \<notin> set (map sender_nonce h)"
    using n(1) by (auto simp: sender_nonce_def)
  moreover have "\<exists>n. nonces I s' (tx_From (snd bt)) = Inr n \<and> tx_Nonce (snd bt) < n" if "bt \<in> set h" for bt
    using old(2) that n(1) lt by (fastforce simp: n(3))
  ultimately show ?case using old(1) n(3) lt by auto
next
  case (ledger_commit h s s' u)
  then have "buf_ok s" using ledger_ok by blast
  from commit_tables(3) [OF this ledger_commit.hyps(2)] ledger_commit show ?case by simp
next
  case (ledger_other h s d)
  then show ?case by (simp add: other_tables)
qed simp_all

end

section \<open>Unique IDs and the market\<close>

text \<open>The texts a transaction makes the node hash: its signing body and the texts behind the IDs it creates.\<close>

definition tx_texts :: "env \<Rightarrow> transaction \<Rightarrow> bytes set" where
  "tx_texts E tx = {marshal enc_signingBody tx} \<union>
     {tx_ID tx @ '':asset:'' @ mp_TemplateID p |p. unmarshal_raw (dec_mint (float_norm E)) (tx_Payload tx) = Inr p} \<union>
     {tx_ID tx @ '':listing:'' @ lp_AssetID p |p. unmarshal_raw dec_list_market (tx_Payload tx) = Inr p}"

definition run_texts :: "env \<Rightarrow> (block \<times> transaction) list \<Rightarrow> bytes set" where
  "run_texts E h = (\<Union>bt\<in>set h. tx_texts E (snd bt))"

lemma run_texts:
  assumes "bt \<in> set h"
  shows "marshal enc_signingBody (snd bt) \<in> run_texts E h"
    "unmarshal_raw (dec_mint (float_norm E)) (tx_Payload (snd bt)) = Inr p \<Longrightarrow>
       tx_ID (snd bt) @ '':asset:'' @ mp_TemplateID p \<in> run_texts E h"
    "unmarshal_raw dec_list_market (tx_Payload (snd bt)) = Inr q \<Longrightarrow>
       tx_ID (snd bt) @ '':listing:'' @ lp_AssetID q \<in> run_texts E h"
  using assms unfolding run_texts_def tx_texts_def by blast+

text \<open>SHA-256 digests are never empty: they have 32 bytes.\<close>

definition hash_nonempty :: "env \<Rightarrow> bool" where
  "hash_nonempty E \<longleftrightarrow> (\<forall>d. d \<noteq> [] \<longrightarrow> sha256 E d \<noteq> [])"

lemma Hash_nonempty:
  assumes "hash_nonempty E" "d \<noteq> []"
  shows "Hash E d \<noteq> []"
proof -
  have "0 < length (sha256 E d)" using assms by (simp add: hash_nonempty_def)
  then have "0 < length (Hash E d)" unfolding Hash_def length_hex_encode by simp
  then show ?thesis by simp
qed

definition minted :: "env \<Rightarrow> (block \<times> transaction) list \<Rightarrow> bytes \<Rightarrow> bool" where
  "minted E h j \<longleftrightarrow> (\<exists>bt\<in>set h. \<exists>p. unmarshal_raw (dec_mint (float_norm E)) (tx_Payload (snd bt)) = Inr p \<and>
     j = asset_id E (snd bt) (mp_TemplateID p))"

definition put_up :: "env \<Rightarrow> (block \<times> transaction) list \<Rightarrow> bytes \<Rightarrow> bool" where
  "put_up E h i \<longleftrightarrow> (\<exists>bt\<in>set h. \<exists>p. unmarshal_raw dec_list_market (tx_Payload (snd bt)) = Inr p \<and>
     i = listing_id E (snd bt) (lp_AssetID p))"

lemma split_at_colon:
  "CHR '':'' \<notin> set x \<Longrightarrow> CHR '':'' \<notin> set y \<Longrightarrow> x @ CHR '':'' # a = y @ CHR '':'' # b \<Longrightarrow> x = y"
  by (induction x arbitrary: y) (case_tac y; auto)+

lemma Hash_no_colon: "CHR '':'' \<notin> set (Hash E d)"
  using Hash_hex is_hex_no_colon by blast

lemma ledger_history:
  assumes "ledger E I em s0 h s" "bt \<in> set h"
  shows "tx_ok (snd bt) \<and> tx_ID (snd bt) = tx_Hash E (snd bt)"
  using assms
proof (induction rule: ledger.induct)
  case (ledger_exec h s block tx s' u)
  then have "tx_Verify E tx = Inr ()" by (auto elim: ExecuteTx_parts)
  then have "tx_ID tx = tx_Hash E tx" by (auto simp: tx_Verify_Inr)
  with ledger_exec show ?case by auto
qed auto

lemma distinct_snocD:
  "distinct (map f (xs @ [y])) \<Longrightarrow> x \<in> set xs \<Longrightarrow> f x \<noteq> f y"
  by (metis distinct_append distinct_map disjoint_iff image_eqI list.set_intros(1) map_append set_map list.simps(9))

lemma tx_ID_fresh:
  assumes "ledger E I em s0 (h @ [(block, tx)]) s" "no_collision E (run_texts E (h @ [(block, tx)]))"
    and "distinct (map sender_nonce (h @ [(block, tx)]))" "bt \<in> set h"
  shows "tx_ID (snd bt) @ CHR '':'' # a \<noteq> tx_ID tx @ CHR '':'' # b"
proof -
  have "sender_nonce bt \<noteq> sender_nonce (block, tx)" by (rule distinct_snocD [OF assms(3,4)])
  then have "\<not> same_body (snd bt) tx" by (auto simp: sender_nonce_def same_body_def)
  moreover have ok: "tx_ok (snd bt)" "tx_ID (snd bt) = tx_Hash E (snd bt)" "tx_ok tx" "tx_ID tx = tx_Hash E tx"
    using ledger_history [OF assms(1), of bt] ledger_history [OF assms(1), of "(block, tx)"] assms(4) by auto
  ultimately have "marshal enc_signingBody (snd bt) \<noteq> marshal enc_signingBody tx"
    using marshal_signingBody_inject by blast
  then have "tx_ID (snd bt) \<noteq> tx_ID tx"
    using ok(2,4) Hash_inject [OF assms(2) run_texts(1) [of bt] run_texts(1) [of "(block, tx)"]] assms(4)
    by (simp add: tx_Hash_def)
  then show ?thesis using ok(2,4) split_at_colon Hash_no_colon unfolding tx_Hash_def by metis
qed

lemma fresh_ids:
  assumes "ledger E I em s0 (h @ [(block, tx)]) s" "no_collision E (run_texts E (h @ [(block, tx)]))"
    and "distinct (map sender_nonce (h @ [(block, tx)]))"
  shows "unmarshal_raw (dec_mint (float_norm E)) (tx_Payload tx) = Inr p \<Longrightarrow> \<not> minted E h (asset_id E tx (mp_TemplateID p))"
    "unmarshal_raw dec_list_market (tx_Payload tx) = Inr q \<Longrightarrow> \<not> put_up E h (listing_id E tx (lp_AssetID q))"
proof -
  show "\<not> minted E h (asset_id E tx (mp_TemplateID p))" if "unmarshal_raw (dec_mint (float_norm E)) (tx_Payload tx) = Inr p"
  proof
    assume "minted E h (asset_id E tx (mp_TemplateID p))"
    then obtain bt p' where bt: "bt \<in> set h" "unmarshal_raw (dec_mint (float_norm E)) (tx_Payload (snd bt)) = Inr p'"
      "asset_id E tx (mp_TemplateID p) = asset_id E (snd bt) (mp_TemplateID p')"
      by (auto simp: minted_def)
    have "tx_ID (snd bt) @ '':asset:'' @ mp_TemplateID p' = tx_ID tx @ '':asset:'' @ mp_TemplateID p"
      using Hash_inject [OF assms(2) run_texts(2) [of bt _ E p'] run_texts(2) [of "(block, tx)" _ E p]] bt that
      by (simp add: asset_id_def)
    then show False using tx_ID_fresh [OF assms bt(1)] by simp
  qed
  show "\<not> put_up E h (listing_id E tx (lp_AssetID q))" if "unmarshal_raw dec_list_market (tx_Payload tx) = Inr q"
  proof
    assume "put_up E h (listing_id E tx (lp_AssetID q))"
    then obtain bt p' where bt: "bt \<in> set h" "unmarshal_raw dec_list_market (tx_Payload (snd bt)) = Inr p'"
      "listing_id E tx (lp_AssetID q) = listing_id E (snd bt) (lp_AssetID p')"
      by (auto simp: put_up_def)
    have "tx_ID (snd bt) @ '':listing:'' @ lp_AssetID p' = tx_ID tx @ '':listing:'' @ lp_AssetID q"
      using Hash_inject [OF assms(2) run_texts(3) [of bt _ p'] run_texts(3) [of "(block, tx)" _ q]] bt that
      by (simp add: listing_id_def)
    then show False using tx_ID_fresh [OF assms bt(1)] by simp
  qed
qed

definition ids_ok :: "env \<Rightarrow> (block \<times> transaction) list \<Rightarrow> (bytes \<Rightarrow> asset result) \<Rightarrow> (bytes \<Rightarrow> listing result) \<Rightarrow> bool" where
  "ids_ok E h fa fl \<longleftrightarrow> (\<forall>j. is_ok (fa j) \<longrightarrow> minted E h j) \<and> (\<forall>i. is_ok (fl i) \<longrightarrow> put_up E h i)"

lemma minted_snoc:
  "minted E h j \<Longrightarrow> minted E (h @ [bt]) j" "put_up E h i \<Longrightarrow> put_up E (h @ [bt]) i"
  by (auto simp: minted_def put_up_def)

lemma minted_now:
  "unmarshal_raw (dec_mint (float_norm E)) (tx_Payload tx) = Inr p \<Longrightarrow>
     minted E (h @ [(block, tx)]) (asset_id E tx (mp_TemplateID p))"
  "unmarshal_raw dec_list_market (tx_Payload tx) = Inr q \<Longrightarrow> put_up E (h @ [(block, tx)]) (listing_id E tx (lp_AssetID q))"
  by (auto simp: minted_def put_up_def)

lemma ids_ok_step:
  assumes "ids_ok E h fa fl" "market_step E tx fa fl fa' fl'"
  shows "ids_ok E (h @ [(block, tx)]) fa' fl'"
proof -
  have old: "is_ok (fa j) \<Longrightarrow> minted E (h @ [(block, tx)]) j" "is_ok (fl j) \<Longrightarrow> put_up E (h @ [(block, tx)]) j" for j
    using assms(1) minted_snoc by (auto simp: ids_ok_def)
  from assms(2) show ?thesis
  proof cases
    case (step_mint p j a)
    then show ?thesis using old minted_now(1) [OF step_mint(3)] by (simp add: ids_ok_def)
  next
    case (step_list p j i a l)
    then show ?thesis using old old(1) [of j] minted_now(2) [OF step_list(3)] by (simp add: ids_ok_def)
  next
    case (step_transfer j a b)
    then show ?thesis using old old(1) [of j] by (simp add: ids_ok_def)
  next
    case (step_buy p i l a)
    then show ?thesis using old old(1) [of "lst_AssetID l"] old(2) [of i] by (simp add: ids_ok_def)
  qed (use old in \<open>auto simp: ids_ok_def\<close>)
qed

lemma no_collision_snoc: "no_collision E (run_texts E (h @ [bt])) \<Longrightarrow> no_collision E (run_texts E h)"
  by (auto simp: no_collision_def run_texts_def intro: inj_on_subset)

lemma market_ok_step:
  assumes "market_ok fa fl" "ids_ok E h fa fl" "market_step E tx fa fl fa' fl'"
    and "ledger E I em s0 (h @ [(block, tx)]) s" "no_collision E (run_texts E (h @ [(block, tx)]))"
    and "distinct (map sender_nonce (h @ [(block, tx)]))" "hash_nonempty E"
  shows "market_ok fa' fl'"
  using assms(3)
proof cases
  case step_none
  then show ?thesis using assms(1) by simp
next
  case (step_mint p j a)
  have "\<not> is_ok (fa j)" using fresh_ids(1) [OF assms(4-6) step_mint(3)] assms(2) step_mint(5) by (auto simp: ids_ok_def)
  then show ?thesis
    unfolding step_mint(1,2) by (intro market_ok_unlisted [OF assms(1)]) (use step_mint(6) in auto)
next
  case (step_burn j a)
  then show ?thesis by (auto intro!: market_ok_unlisted [OF assms(1)])
next
  case (step_transfer j a b)
  then show ?thesis by (auto intro!: market_ok_unlisted [OF assms(1)])
next
  case (step_list p j i a l)
  have "\<not> is_ok (fl i)"
    using fresh_ids(2) [OF assms(4-6) step_list(3)] assms(2) step_list(5,6) by (auto simp: ids_ok_def)
  moreover have "i \<noteq> []" using Hash_nonempty [OF assms(7)] step_list(6) by (simp add: listing_id_def)
  ultimately show ?thesis
    unfolding step_list(1,2) using market_ok_list [OF assms(1)] step_list(7-14) by simp
next
  case (step_buy p i l a)
  then show ?thesis using market_ok_buy [OF assms(1)] by simp
qed

definition no_assets :: "env \<Rightarrow> 'd db_iface \<Rightarrow> 'd statedb \<Rightarrow> bool" where
  "no_assets E I s \<longleftrightarrow> (\<forall>j. \<not> is_ok (GetAsset E I s j)) \<and> (\<forall>i. \<not> is_ok (GetListing I s i))"

lemma no_assets_ok:
  assumes "no_assets E I s"
  shows "market_ok (GetAsset E I s) (GetListing I s)" "ids_ok E [] (GetAsset E I s) (GetListing I s)"
proof -
  have n: "GetAsset E I s j \<noteq> Inr a" "GetListing I s i \<noteq> Inr l" for i j a l
    using assms unfolding no_assets_def by (metis is_ok_simps(1))+
  then show "market_ok (GetAsset E I s) (GetListing I s)" by (simp add: market_ok_def)
  show "ids_ok E [] (GetAsset E I s) (GetListing I s)" using assms by (simp add: ids_ok_def no_assets_def)
qed

context healthy_db
begin

lemma ledger_market:
  assumes "ledger E I em s0 h s" "state_ok E I s0" "buf_ok s0" "no_assets E I s0"
    and "no_collision E (run_texts E h)" "hash_nonempty E"
  shows "market_ok (GetAsset E I s) (GetListing I s) \<and> ids_ok E h (GetAsset E I s) (GetListing I s)"
  using assms
proof (induction rule: ledger.induct)
  case ledger_start
  then show ?case using no_assets_ok by blast
next
  case (ledger_exec h s block tx s' u)
  have s: "market_ok (GetAsset E I s) (GetListing I s)" "ids_ok E h (GetAsset E I s) (GetListing I s)" "state_ok E I s"
    using ledger_exec no_collision_snoc ledger_ok by blast+
  note l = ledger.ledger_exec [OF ledger_exec.hyps(1-5)]
  have d: "distinct (map sender_nonce (h @ [(block, tx)]))"
    using ledger_nonces [OF l ledger_exec.prems(1,2)] by blast
  note m = ExecuteTx_market [OF ledger_exec.hyps(2) s(3) ledger_exec.hyps(5)]
  from market_ok_step [OF s(1,2) m l ledger_exec.prems(4) d ledger_exec.prems(5)] ids_ok_step [OF s(2) m]
  show ?case by blast
next
  case (ledger_commit h s s' u)
  then have "buf_ok s" using ledger_ok by blast
  from commit_reads [OF this ledger_commit.hyps(2)] ledger_commit show ?case by simp
next
  case (ledger_other h s d)
  then show ?case by (simp add: other_tables)
qed simp_all

text \<open>An asset leaves its owner only by the owner's own transaction or by a sale the owner put up.\<close>

lemma ledger_owner:
  assumes "ledger E I em s0 h s" "state_ok E I s0" "buf_ok s0" "no_assets E I s0"
    and "run_ok E I em block" "tx_ok tx" "payload_fits (tx_Payload tx)" "ExecuteTx E I em block tx s = (s', Inr u)"
    and "no_collision E (run_texts E (h @ [(block, tx)]))" "hash_nonempty E" "GetAsset E I s j = Inr a"
  shows "(\<exists>a'. GetAsset E I s' j = Inr a' \<and> ast_Owner a' = ast_Owner a) \<or>
    tx_From tx = ast_Owner a \<and> tx_Type tx \<in> {TxBurnAsset, TxTransferAsset} \<or>
    tx_Type tx = TxBuyMarket \<and> (\<exists>i l. GetListing I s i = Inr l \<and> lst_Active l \<and> lst_AssetID l = j \<and>
      lst_Seller l = ast_Owner a)"
proof -
  note nc = no_collision_snoc [OF assms(9)]
  have s: "market_ok (GetAsset E I s) (GetListing I s)" "ids_ok E h (GetAsset E I s) (GetListing I s)"
    using ledger_market [OF assms(1-4) nc assms(10)] by blast+
  have ok: "state_ok E I s" using ledger_ok [OF assms(1-3)] by blast
  note l = ledger.ledger_exec [OF assms(1,5-8)]
  have d: "distinct (map sender_nonce (h @ [(block, tx)]))"
    using ledger_nonces [OF l assms(2,3)] by blast
  from ExecuteTx_market [OF assms(5) ok assms(8)] show ?thesis
  proof cases
    case (step_mint p k x)
    have "k \<noteq> j" using fresh_ids(1) [OF l assms(9) d step_mint(3)] s(2) step_mint(5) assms(11) by (auto simp: ids_ok_def)
    then show ?thesis using step_mint(1) assms(11) by simp
  next
    case (step_buy p i l x)
    from market_ok_listing [OF s(1) step_buy(6,7)] obtain y where
      "GetAsset E I s (lst_AssetID l) = Inr y" "ast_Owner y = lst_Seller l" .
    then show ?thesis
      using step_buy assms(11) by (cases "lst_AssetID l = j") auto
  qed (use assms(11) in \<open>auto split: if_splits\<close>)
qed

end

end
