(* ===== verification/Determinism.thy ===== *)
theory Determinism
  imports Ledger
begin

text \<open>
  Go ranges over maps in an unspecified order. Two runs that differ only in those orders reach the
  same state, succeed on the same transactions and compute the same state root; the root depends on
  nothing but the visible state entries, and it binds them.
\<close>

section \<open>Runs that differ in the order of map iteration\<close>

definition reorder :: "(nat \<Rightarrow> bytes list \<Rightarrow> bytes list) \<Rightarrow> env \<Rightarrow> env" where
  "reorder ord E = E\<lparr>range_order := ord\<rparr>"

lemma reorder_simps [simp]:
  "sha256 (reorder ord E) = sha256 E" "float_norm (reorder ord E) = float_norm E"
  "ed25519_verify (reorder ord E) = ed25519_verify E" "range_order (reorder ord E) = ord"
  "reorder ord (reorder ord' E) = reorder ord E" "reorder (range_order E) E = E"
  by (simp_all add: reorder_def)

lemma reorder_funs [simp]:
  "Hash (reorder ord E) = Hash E" "tx_Hash (reorder ord E) = tx_Hash E" "tx_Verify (reorder ord E) = tx_Verify E"
  "asset_id (reorder ord E) = asset_id E" "listing_id (reorder ord E) = listing_id E"
  "GetAsset (reorder ord E) = GetAsset E" "GetTemplate (reorder ord E) = GetTemplate E"
  by (simp_all add: fun_eq_iff Hash_def tx_Hash_def tx_Verify_def Verify_def asset_id_def listing_id_def
      GetAsset_def GetTemplate_def Let_def split: sum.split option.split)

lemma reorder_ok [simp]:
  "runtime_ok (reorder ord E) = runtime_ok E" "state_ok (reorder ord E) = state_ok E"
  "run_ok (reorder ord E) = run_ok E"
  by (simp_all add: fun_eq_iff runtime_ok_def state_ok_def run_ok_def)

lemma ctx_Env_upd:
  "ctx_Env (ctx\<lparr>ctx_Env := F\<rparr>) = F" "ctx_DB (ctx\<lparr>ctx_Env := F\<rparr>) = ctx_DB ctx"
  "ctx_Tx (ctx\<lparr>ctx_Env := F\<rparr>) = ctx_Tx ctx" "ctx_Block (ctx\<lparr>ctx_Env := F\<rparr>) = ctx_Block ctx"
  by simp_all

lemma ctx_emit_Env [simp]: "ctx_emit (ctx\<lparr>ctx_Env := F\<rparr>) = ctx_emit ctx"
  by (simp add: fun_eq_iff ctx_emit_def)

lemma sum_rewards_iff:
  "acc \<le> tot \<Longrightarrow> sum_rewards tot acc krs = Inr t \<longleftrightarrow>
     unat acc + sum_list (map (\<lambda>kr. unat (snd kr)) krs) \<le> unat tot \<and>
     unat t = unat acc + sum_list (map (\<lambda>kr. unat (snd kr)) krs)"
proof (induction krs arbitrary: acc)
  case Nil
  then show ?case by (auto simp: word_le_nat_alt word_unat_eq_iff)
next
  case (Cons kr krs)
  have d: "unat (tot - acc) = unat tot - unat acc" using Cons.prems by (simp add: unat_sub)
  have t: "unat tot < 2 ^ LENGTH(64)" by (rule unsigned_less)
  show ?case
  proof (cases "snd kr \<le> tot - acc")
    case True
    then have le: "unat acc + unat (snd kr) \<le> unat tot"
      using d Cons.prems by (simp add: word_le_nat_alt)
    with t have "unat (acc + snd kr) = unat acc + unat (snd kr)" "acc + snd kr \<le> tot"
      by (simp_all add: word_le_nat_alt unat_word_ariths)
    with leD [OF True] Cons.IH [of "acc + snd kr"] show ?thesis by (simp add: add.assoc)
  next
    case False
    then show ?thesis using d Cons.prems by (auto simp: word_le_nat_alt word_less_nat_alt)
  qed
qed

lemma sum_rewards_order:
  "sum_rewards tot 0 (range_map ord m) = Inr t \<Longrightarrow> sum_rewards tot 0 (range_map ord' m) = Inr t"
  using sum_list_range_map [of "\<lambda>kr. unat (snd kr)" ord m ord'] by (simp add: sum_rewards_iff)

section \<open>Paying rewards in any order\<close>

definition payable :: "'d db_iface \<Rightarrow> 'd statedb \<Rightarrow> bytes \<times> uint64 \<Rightarrow> bool" where
  "payable I s kr \<longleftrightarrow> (\<exists>acc. GetAccount I s (fst kr) = Inr acc \<and> acc_Balance acc \<le> max_uint64 - snd kr)"

definition paid :: "'d db_iface \<Rightarrow> 'd statedb \<Rightarrow> bytes \<times> uint64 \<Rightarrow> account" where
  "paid I s kr = (case GetAccount I s (fst kr) of Inr acc \<Rightarrow> acc\<lparr>acc_Balance := acc_Balance acc + snd kr\<rparr>)"

lemma pay_rewards_fold:
  assumes "distinct (map fst krs)"
    and "\<And>kr acc. kr \<in> set krs \<Longrightarrow> GetAccount I s (fst kr) = Inr acc \<Longrightarrow> acc_Address acc = fst kr"
  shows "pay_rewards I krs s = (s', Inr u) \<longleftrightarrow>
    (\<forall>kr\<in>set krs. payable I s kr) \<and> s' = fold (\<lambda>kr t. SetAccount t (paid I s kr)) krs s"
  using assms
proof (induction krs arbitrary: s)
  case (Cons kr krs)
  show ?case
  proof (cases "payable I s kr")
    case True
    then obtain acc where acc: "GetAccount I s (fst kr) = Inr acc" "acc_Balance acc \<le> max_uint64 - snd kr"
      by (auto simp: payable_def)
    define t where "t = SetAccount s (acc\<lparr>acc_Balance := acc_Balance acc + snd kr\<rparr>)"
    have a: "acc_Address acc = fst kr" using Cons.prems(2) acc(1) by simp
    have same: "GetAccount I t (fst x) = GetAccount I s (fst x)" if "x \<in> set krs" for x
    proof -
      have "fst x \<noteq> fst kr" using Cons.prems(1) that by (metis distinct.simps(2) image_eqI list.simps(9) set_map)
      then show ?thesis using a by (simp add: t_def accessor_defs sdb_get_set)
    qed
    then have p: "payable I t x = payable I s x" "paid I t x = paid I s x" if "x \<in> set krs" for x
      using that by (simp_all add: payable_def paid_def)
    have f: "fold (\<lambda>kr u. SetAccount u (paid I t kr)) krs t = fold (\<lambda>kr u. SetAccount u (paid I s kr)) krs t"
      by (rule fold_cong) (simp_all add: p)
    have ih: "pay_rewards I krs t = (s', Inr u) \<longleftrightarrow>
        (\<forall>kr\<in>set krs. payable I t kr) \<and> s' = fold (\<lambda>kr u. SetAccount u (paid I t kr)) krs t"
      using Cons.prems same by (intro Cons.IH) auto
    have k: "paid I s kr = acc\<lparr>acc_Balance := acc_Balance acc + snd kr\<rparr>" by (simp add: paid_def acc(1))
    have "pay_rewards I (kr # krs) s = pay_rewards I krs t"
      using acc by (simp add: t_def not_less [symmetric])
    then show ?thesis using ih f True p(1) by (simp add: k t_def [symmetric])
  next
    case False
    then show ?thesis by (auto simp: payable_def not_less split: sum.split)
  qed
qed auto

lemma sdb_set_swap: "k \<noteq> k' \<Longrightarrow> sdb_set (sdb_set s k v) k' v' = sdb_set (sdb_set s k' v') k v"
  unfolding sdb_set_def by (rule statedb.equality) (auto intro!: fmap_ext)

lemma SetAccount_swap:
  "acc_Address x \<noteq> acc_Address y \<Longrightarrow> SetAccount (SetAccount s x) y = SetAccount (SetAccount s y) x"
  by (simp add: SetAccount_def sdb_set_swap)

lemma pay_rewards_order:
  assumes "state_ok E I s" "pay_rewards I (range_map ord m) s = (s', Inr u)"
  shows "pay_rewards I (range_map ord' m) s = (s', Inr u)"
proof -
  have addr: "GetAccount I s (fst kr) = Inr acc \<Longrightarrow> acc_Address acc = fst kr" for kr acc
    by (rule state_okD(1) [OF assms(1)])
  note pay = pay_rewards_fold [OF distinct_range_map addr]
  have ms: "mset (range_map ord m) = mset (range_map ord' m)" using mset_range_map by metis
  then have set_eq: "set (range_map ord m) = set (range_map ord' m)" by (rule mset_eq_setD)
  have p: "\<forall>kr\<in>set (range_map ord m). payable I s kr"
    and s': "s' = fold (\<lambda>kr t. SetAccount t (paid I s kr)) (range_map ord m) s"
    using assms(2) by (simp_all add: pay)
  have k: "acc_Address (paid I s kr) = fst kr" if "kr \<in> set (range_map ord m)" for kr
    using p that addr by (auto simp: payable_def paid_def)
  have "fold (\<lambda>kr t. SetAccount t (paid I s kr)) (range_map ord m) =
      fold (\<lambda>kr t. SetAccount t (paid I s kr)) (range_map ord' m)"
  proof (rule fold_multiset_equiv [OF _ ms])
    fix x y
    assume xy: "x \<in> set (range_map ord m)" "y \<in> set (range_map ord m)"
    show "(\<lambda>t. SetAccount t (paid I s x)) \<circ> (\<lambda>t. SetAccount t (paid I s y)) =
        (\<lambda>t. SetAccount t (paid I s y)) \<circ> (\<lambda>t. SetAccount t (paid I s x))"
    proof (cases "fst x = fst y")
      case True
      then have "x = y" using xy distinct_range_map [of ord m] by (meson distinct_map inj_onD)
      then show ?thesis by simp
    next
      case False
      then show ?thesis using k xy by (simp add: fun_eq_iff SetAccount_swap)
    qed
  qed
  from fun_cong [OF this, of s] show ?thesis using p s' set_eq by (simp add: pay)
qed

section \<open>Execution in any order\<close>

lemma simple_handlers_order:
  "handleTransfer (ctx\<lparr>ctx_Env := reorder ord (ctx_Env ctx)\<rparr>) = handleTransfer ctx"
  "handleMintAsset (ctx\<lparr>ctx_Env := reorder ord (ctx_Env ctx)\<rparr>) = handleMintAsset ctx"
  "handleBurnAsset (ctx\<lparr>ctx_Env := reorder ord (ctx_Env ctx)\<rparr>) = handleBurnAsset ctx"
  "handleTransferAsset (ctx\<lparr>ctx_Env := reorder ord (ctx_Env ctx)\<rparr>) = handleTransferAsset ctx"
  "handleRegisterTemplate (ctx\<lparr>ctx_Env := reorder ord (ctx_Env ctx)\<rparr>) = handleRegisterTemplate ctx"
  "handleSessionOpen (ctx\<lparr>ctx_Env := reorder ord (ctx_Env ctx)\<rparr>) = handleSessionOpen ctx"
  "handleListMarket (ctx\<lparr>ctx_Env := reorder ord (ctx_Env ctx)\<rparr>) = handleListMarket ctx"
  "handleBuyMarket (ctx\<lparr>ctx_Env := reorder ord (ctx_Env ctx)\<rparr>) = handleBuyMarket ctx"
  unfolding fun_eq_iff handleTransfer_def handleMintAsset_def handleBurnAsset_def handleTransferAsset_def
    handleRegisterTemplate_def handleSessionOpen_def handleListMarket_def handleBuyMarket_def Let_def
    vm_context.select_convs vm_context.update_convs ctx_Env_upd reorder_simps reorder_funs ctx_emit_Env
  by simp_all

lemma handleSessionResult_order:
  assumes "state_ok E (ctx_DB ctx) s" "handleSessionResult ctx payload s = (s', Inr u)"
  shows "handleSessionResult (ctx\<lparr>ctx_Env := reorder ord (ctx_Env ctx)\<rparr>) payload s = (s', Inr ())"
  using assms(2)
proof (cases rule: handleSessionResult_ok)
  case (1 p sess s1)
  let ?m = "map_or_empty (sr_Outcome p)"
  have "\<not> (\<exists>kr\<in>set (range_map (ord 6) ?m). fmlookup (player_set (ses_Players sess)) (fst kr) \<noteq> Some True)"
    using 1(5) fst_range_map [of "ord 6" ?m] by (auto simp: player_set_lookup)
  then show ?thesis
    using 1 sum_rewards_order [OF 1(7), of "ord 7"] pay_rewards_order [OF assms(1) 1(8), of "ord 8"]
    by (simp add: handleSessionResult_def Let_def player_set_def)
qed

lemma reg_Execute_order:
  assumes "state_ok E (ctx_DB ctx) s" "reg_Execute globalRegistry ty ctx payload s = (s', Inr u)"
  shows "reg_Execute globalRegistry ty (ctx\<lparr>ctx_Env := reorder ord (ctx_Env ctx)\<rparr>) payload s = (s', Inr ())"
  using assms(2)
  by (cases rule: reg_Execute_cases) (simp_all add: simple_handlers_order handleSessionResult_order [OF assms(1)])

lemma ExecuteTx_order:
  assumes "run_ok E I em block" "state_ok E I s" "ExecuteTx E I em block tx s = (s', Inr u)"
  shows "ExecuteTx (reorder ord E) I em block tx s = (s', Inr ())"
proof -
  define ctx where "ctx = \<lparr>ctx_Env = E, ctx_DB = I, ctx_Block = block, ctx_Tx = tx, ctx_Emitter = em\<rparr>"
  obtain s1 s2 where v: "tx_Verify E tx = Inr ()" and fee: "charge_fee I block tx (fst (Snapshot s)) = (s1, Inr ())"
    and ex: "reg_Execute globalRegistry (tx_Type tx) ctx (tx_Payload tx) s1 = (s2, Inr ())"
    and s': "s' = emit_event em \<lparr>ev_Type = EventTxExecuted, ev_TxID = tx_ID tx,
       ev_BlockHeight = hdr_Height (blk_Header block),
       ev_Data = [(''type'', DStr (tx_Type tx)), (''from'', DStr (tx_From tx))]\<rparr> s2"
    unfolding ctx_def by (rule ExecuteTx_parts [OF assms(3)])
  have "state_ok E I s1"
    using charge_fee_state_ok [OF _ tx_Verify_utf8 [OF v] _ fee] assms(1,2) by (simp add: run_ok_def)
  then have "reg_Execute globalRegistry (tx_Type tx) (ctx\<lparr>ctx_Env := reorder ord E\<rparr>) (tx_Payload tx) s1 = (s2, Inr ())"
    using reg_Execute_order [of E ctx, OF _ ex, of ord] by (simp add: ctx_def)
  then show ?thesis
    using v fee s' by (cases "Snapshot s") (simp add: ExecuteTx_def applyTx_def ctx_def)
qed

lemma ExecuteTx_order_result:
  assumes "run_ok E I em block" "state_ok E I s"
  shows "fst (ExecuteTx (reorder ord E) I em block tx s) = fst (ExecuteTx E I em block tx s) \<and>
    is_ok (snd (ExecuteTx (reorder ord E) I em block tx s)) = is_ok (snd (ExecuteTx E I em block tx s))"
proof -
  have fail: "fst (ExecuteTx F I em block tx s) = s" if "\<not> is_ok (snd (ExecuteTx F I em block tx s))" for F
    using that by (cases rule: ExecuteTx_cases [of F tx I em block s]) auto
  obtain s1 r1 s2 r2 where 1: "ExecuteTx E I em block tx s = (s1, r1)" and 2: "ExecuteTx (reorder ord E) I em block tx s = (s2, r2)"
    by fastforce
  have 12: "r1 = Inr () \<Longrightarrow> (s2, r2) = (s1, r1)"
    using ExecuteTx_order [OF assms, of tx s1 _ ord] 1 2 by auto
  have 21: "r2 = Inr () \<Longrightarrow> (s2, r2) = (s1, r1)"
    using ExecuteTx_order [of "reorder ord E" I em block s tx s2 _ "range_order E"] assms 1 2 by auto
  show ?thesis using 12 21 fail [of E] fail [of "reorder ord E"] 1 2 by (cases r1; cases r2) auto
qed

lemma execute_txs_order:
  assumes "run_ok E I em block" "state_ok E I s" "\<forall>tx\<in>set txs. payload_fits (tx_Payload tx)"
  shows "fst (execute_txs (reorder ord E) I em block txs s) = fst (execute_txs E I em block txs s) \<and>
    is_ok (snd (execute_txs (reorder ord E) I em block txs s)) = is_ok (snd (execute_txs E I em block txs s))"
  using assms(2,3)
proof (induction txs arbitrary: s)
  case (Cons tx txs)
  obtain s1 r1 s2 r2 where r: "ExecuteTx E I em block tx s = (s1, r1)" "ExecuteTx (reorder ord E) I em block tx s = (s2, r2)"
    by fastforce
  have eq: "s2 = s1" "is_ok r2 = is_ok r1"
    using ExecuteTx_order_result [OF assms(1) Cons.prems(1), of ord tx] r by simp_all
  have "state_ok E I s1" if "r1 = Inr ()"
    using ExecuteTx_state_ok [OF assms(1) _ Cons.prems(1)] r(1) that Cons.prems(2) by auto
  then show ?case using Cons.IH [of s1] Cons.prems(2) r eq by (cases r1; cases r2) auto
qed simp

section \<open>The state root\<close>

lemma root_text_order: "root_text E m = root_text F m"
  by (simp add: root_text_items)

lemma root_of_view:
  assumes "kv_db I \<alpha>" "db_healthy I (sdb_db s)" "buf_ok s" "kv_db J \<beta>" "db_healthy J (sdb_db t)" "buf_ok t"
    and "view \<alpha> s |` {k. state_key k} = view \<beta> t |` {k. state_key k}"
  shows "root_text E (root_merged E I s) = root_text F (root_merged F J t)"
proof -
  have "fmlookup (root_merged E I s) = fmlookup (root_merged F J t)"
    using kv_db.root_merged_lookup [OF assms(1,2)] kv_db.root_merged_lookup [OF assms(4,5)] assms(3,6,7)
    by (simp add: buf_ok_def)
  then have "root_merged E I s = root_merged F J t" by (simp add: fmlookup_inject)
  then show ?thesis using root_text_order by metis
qed

lemma root_binds_view:
  assumes "kv_db I \<alpha>" "db_healthy I (sdb_db s)" "buf_ok s" "kv_db J \<beta>" "db_healthy J (sdb_db t)" "buf_ok t"
    and "entries_fit (root_merged E I s)" "entries_fit (root_merged F J t)"
    and "root_text E (root_merged E I s) = root_text F (root_merged F J t)"
  shows "view \<alpha> s |` {k. state_key k} = view \<beta> t |` {k. state_key k}"
  using root_text_inject [OF assms(7-9)] kv_db.root_merged_lookup [OF assms(1,2), of E]
    kv_db.root_merged_lookup [OF assms(4,5), of F] assms(3,6) by (simp add: buf_ok_def)

end
