(* ===== verification/Genesis.thy ===== *)
theory Genesis
  imports Config Determinism
begin

text \<open>
  \<open>config/genesis.go\<close>: the genesis block. On a fresh store it credits the allocation and nothing else,
  so every run of the ledger can start from it.
\<close>

section \<open>The genesis block\<close>

definition GenesisHash :: bytes where
  "GenesisHash = replicate 64 (CHR ''0'')"

definition IsGenesisHash :: "bytes \<Rightarrow> bool" where
  "IsGenesisHash h \<longleftrightarrow> h = GenesisHash"

fun credit_alloc :: "(bytes \<times> uint64) list \<Rightarrow> 'd statedb \<Rightarrow> 'd statedb" where
  "credit_alloc [] s = s"
| "credit_alloc (kb # kbs) s =
     credit_alloc kbs (SetAccount s \<lparr>acc_Address = fst kb, acc_Balance = snd kb, acc_Nonce = 0\<rparr>)"

definition CreateGenesisBlock ::
  "env \<Rightarrow> 'd db_iface \<Rightarrow> int64 \<Rightarrow> config \<Rightarrow> bytes \<Rightarrow> 'd statedb \<Rightarrow> 'd statedb \<times> block result" where
  "CreateGenesisBlock E I now cfg proposerPriv s =
     (let proposerPub = Public E proposerPriv;
          s1 = credit_alloc (range_map (range_order E 9) (map_or_empty (gen_Alloc (cfg_Genesis cfg)))) s;
          stateRoot = ComputeRoot E I s1 in
      case Commit E I s1 of
        (s2, Inl e) \<Rightarrow> (s2, Inl e)
      | (s2, Inr _) \<Rightarrow>
          let chainID = gen_ChainID (cfg_Genesis cfg);
              b = NewBlock E chainID 0 GenesisHash (Hex proposerPub) [] now;
              h = (blk_Header b)\<lparr>hdr_StateRoot := stateRoot, hdr_TxRoot := Hash E chainID\<rparr>
          in (s2, Inr (blk_Sign E proposerPriv (b\<lparr>blk_Header := h\<rparr>))))"

section \<open>The state it leaves\<close>

definition alloc_of :: "config \<Rightarrow> bytes \<Rightarrow> uint64" where
  "alloc_of cfg a = (case fmlookup (map_or_empty (gen_Alloc (cfg_Genesis cfg))) a of None \<Rightarrow> 0 | Some b \<Rightarrow> b)"

text \<open>A store without state entries, as a chain finds it at its first start.\<close>

definition fresh_store :: "(bytes \<rightharpoonup> bytes) \<Rightarrow> bool" where
  "fresh_store m \<longleftrightarrow> (\<forall>k. state_key k \<longrightarrow> m k = None)"

lemma GetAccount_credit:
  assumes "distinct (map fst kbs)" "\<forall>kb\<in>set kbs. utf8_ok (fst kb)"
  shows "GetAccount I (credit_alloc kbs s) a =
    (case map_of kbs a of None \<Rightarrow> GetAccount I s a | Some b \<Rightarrow> Inr \<lparr>acc_Address = a, acc_Balance = b, acc_Nonce = 0\<rparr>)"
  using assms
proof (induction kbs arbitrary: s)
  case (Cons kb kbs)
  show ?case
  proof (cases "a = fst kb")
    case True
    then have "map_of kbs a = None" using Cons.prems(1) by (simp add: map_of_eq_None_iff)
    then show ?thesis using True Cons by (simp add: account_ok_def)
  next
    case False
    then show ?thesis using Cons by (simp add: account_ok_def split: option.split)
  qed
qed simp

lemma credit_frame:
  "GetAsset E I (credit_alloc kbs s) = GetAsset E I s" "GetListing I (credit_alloc kbs s) = GetListing I s"
  "GetSession I (credit_alloc kbs s) = GetSession I s" "buf_ok s \<Longrightarrow> buf_ok (credit_alloc kbs s)"
  by (induction kbs arbitrary: s) (simp_all add: asset_fun listing_fun fun_eq_iff)

lemma credit_state_ok:
  "state_ok E I s \<Longrightarrow> \<forall>kb\<in>set kbs. utf8_ok (fst kb) \<Longrightarrow> state_ok E I (credit_alloc kbs s)"
  by (induction kbs arbitrary: s) (simp_all add: state_ok_set account_ok_def)

lemma CreateGenesisBlock_Inr:
  "CreateGenesisBlock E I now cfg priv s = (s', Inr b) \<longleftrightarrow>
     (\<exists>s1 u h. s1 = credit_alloc (range_map (range_order E 9) (map_or_empty (gen_Alloc (cfg_Genesis cfg)))) s \<and>
        Commit E I s1 = (s', Inr u) \<and>
        h = \<lparr>hdr_ChainID = gen_ChainID (cfg_Genesis cfg), hdr_Height = 0, hdr_PrevHash = GenesisHash,
          hdr_StateRoot = ComputeRoot E I s1, hdr_TxRoot = Hash E (gen_ChainID (cfg_Genesis cfg)),
          hdr_Timestamp = now, hdr_Proposer = Hex (Public E priv)\<rparr> \<and>
        b = blk_Sign E priv \<lparr>blk_Header = h, blk_Transactions = [], blk_Hash = [], blk_Signature = []\<rparr>)"
  by (auto simp: CreateGenesisBlock_def Let_def NewBlock_def split: prod.splits sum.splits)

context healthy_db
begin

lemma fresh_get:
  assumes "fresh_store (\<alpha> d)" "state_key k"
  shows "sdb_get I (NewStateDB d) k = Inl ErrNotFound"
  using assms healthy_get [OF healthy] by (simp add: sdb_get_def NewStateDB_def fresh_store_def)

lemma state_key_prefixes:
  "state_key (prefixAccount @ k)" "state_key (prefixAsset @ k)" "state_key (prefixTemplate @ k)"
  "state_key (prefixSession @ k)" "state_key (prefixListing @ k)"
  by (simp_all add: state_key_def statePrefixes_def has_prefix_def)

lemma fresh_reads:
  assumes "fresh_store (\<alpha> d)"
  shows "GetAccount I (NewStateDB d) a = Inr (new_account a)" "GetAsset E I (NewStateDB d) a = Inl ErrNotFound"
    "GetTemplate E I (NewStateDB d) a = Inl ErrNotFound" "GetSession I (NewStateDB d) a = Inl ErrNotFound"
    "GetListing I (NewStateDB d) a = Inl ErrNotFound"
  by (simp_all add: accessor_defs fresh_get [OF assms] state_key_prefixes)

lemma fresh_state_ok: "fresh_store (\<alpha> d) \<Longrightarrow> state_ok E I (NewStateDB d)"
  by (simp add: state_ok_def fresh_reads new_account_def)

lemma genesis_state:
  assumes "fresh_store (\<alpha> d)" "map_utf8 (gen_Alloc (cfg_Genesis cfg))"
    and "CreateGenesisBlock E I now cfg priv (NewStateDB d) = (s', Inr b)"
  shows "GetAccount I s' a = Inr \<lparr>acc_Address = a, acc_Balance = alloc_of cfg a, acc_Nonce = 0\<rparr>"
    "state_ok E I s'" "buf_ok s'" "no_assets E I s'" "GetSession I s' i = Inl ErrNotFound"
    "hdr_StateRoot (blk_Header b) = ComputeRoot E I s'"
proof -
  define kbs where "kbs = range_map (range_order E 9) (map_or_empty (gen_Alloc (cfg_Genesis cfg)))"
  define s1 where "s1 = credit_alloc kbs (NewStateDB d)"
  obtain u where c: "Commit E I s1 = (s', Inr u)" and b: "hdr_StateRoot (blk_Header b) = ComputeRoot E I s1"
    using assms(3) by (auto simp: CreateGenesisBlock_Inr s1_def kbs_def)
  have k: "distinct (map fst kbs)" "\<forall>kb\<in>set kbs. utf8_ok (fst kb)" "map_of kbs = fmlookup (map_or_empty (gen_Alloc (cfg_Genesis cfg)))"
    using assms(2) fst_range_map [of "range_order E 9" "map_or_empty (gen_Alloc (cfg_Genesis cfg))"]
    by (auto simp: kbs_def distinct_range_map map_of_range_map map_utf8_def)
  have s1: "state_ok E I s1" "buf_ok s1"
    using credit_state_ok [OF fresh_state_ok [OF assms(1)] k(2)] by (simp_all add: s1_def credit_frame(4))
  note reads = commit_reads [OF s1(2) c]
  show "GetAccount I s' a = Inr \<lparr>acc_Address = a, acc_Balance = alloc_of cfg a, acc_Nonce = 0\<rparr>"
    unfolding reads s1_def GetAccount_credit [OF k(1,2)] k(3) fresh_reads(1) [OF assms(1)]
    by (simp add: alloc_of_def new_account_def split: option.split)
  show "state_ok E I s'" using s1(1) by (simp add: state_ok_def reads)
  show "buf_ok s'" by (rule commit_buf_ok [OF s1(2) c])
  then show "hdr_StateRoot (blk_Header b) = ComputeRoot E I s'"
    using b root_of_view [OF kv_db_axioms healthy s1(2) kv_db_axioms healthy, of s' E E] Commit_ok(3) [OF _ c] s1(2)
    by (simp add: ComputeRoot_def buf_ok_def)
  show "no_assets E I s'"
    by (simp add: no_assets_def reads s1_def credit_frame fresh_reads [OF assms(1)])
  show "GetSession I s' i = Inl ErrNotFound" by (simp add: reads s1_def credit_frame fresh_reads [OF assms(1)])
qed

lemma genesis_supply:
  assumes "fresh_store (\<alpha> d)" "map_utf8 (gen_Alloc (cfg_Genesis cfg))"
    and "CreateGenesisBlock E I now cfg priv (NewStateDB d) = (s', Inr b)"
  shows "total_supply I s' = (\<Sum>a\<in>fset (fmdom (map_or_empty (gen_Alloc (cfg_Genesis cfg)))). unat (alloc_of cfg a))"
proof -
  have "balances I s' = (\<lambda>a. unat (alloc_of cfg a))" "locked I s' = (\<lambda>i. 0)"
    using genesis_state [OF assms] by (simp_all add: balances_def locked_def fun_eq_iff)
  moreover have "sum_of (\<lambda>a. unat (alloc_of cfg a)) =
      (\<Sum>a\<in>fset (fmdom (map_or_empty (gen_Alloc (cfg_Genesis cfg)))). unat (alloc_of cfg a))"
    by (rule sum_of_superset) (auto simp: alloc_of_def fmlookup_dom_iff split: option.splits)
  ultimately show ?thesis by (simp add: total_supply_def sum_of_def)
qed

end

end
