(* ===== verification/Mempool.thy ===== *)
theory Mempool
  imports Block
begin

text \<open>
  \<open>core/mempool.go\<close>: the pool of pending transactions, a map from IDs to transactions with the
  insertion order kept beside it. The pool refines a queue of transactions: \<open>Add\<close> appends,
  \<open>Pending\<close> reads a prefix, \<open>Remove\<close> filters.
\<close>

section \<open>The pool\<close>

definition maxMempoolSize :: int where "maxMempoolSize = 10000"
definition maxTxAge :: int64 where "maxTxAge = 3600 * 1000000000"
definition maxTxFuture :: int64 where "maxTxFuture = 5 * 60 * 1000000000"

lemmas mempool_consts = maxMempoolSize_def maxTxAge_def maxTxFuture_def

record mempool =
  pool_txs :: "transaction gomap"
  pool_ord :: "bytes list"

definition NewMempool :: mempool where
  "NewMempool = \<lparr>pool_txs = fmempty, pool_ord = []\<rparr>"

definition pool_Size :: "mempool \<Rightarrow> int" where
  "pool_Size m = int (fcard (fmdom (pool_txs m)))"

text \<open>\<open>now\<close> is the clock, \<open>time.Now().UnixNano()\<close>; differences of timestamps wrap around.\<close>

definition pool_Add :: "env \<Rightarrow> int64 \<Rightarrow> transaction \<Rightarrow> mempool \<Rightarrow> mempool \<times> unit result" where
  "pool_Add E now tx m =
     (case tx_Verify E tx of
        Inl e \<Rightarrow> (m, Inl (Wrapf ''invalid tx signature'' e))
      | Inr _ \<Rightarrow>
      if tx_Timestamp tx < now \<and> maxTxAge < wrap64 (now - tx_Timestamp tx)
      then (m, Inl (Errorf ''transaction expired''))
      else if now < tx_Timestamp tx \<and> maxTxFuture < wrap64 (tx_Timestamp tx - now)
      then (m, Inl (Errorf ''transaction timestamp too far in the future''))
      else if maxMempoolSize \<le> pool_Size m then (m, Inl (Errorf ''mempool full''))
      else if fmlookup (pool_txs m) (tx_ID tx) \<noteq> None then (m, Inl (Errorf ''tx already in pool''))
      else (\<lparr>pool_txs = fmupd (tx_ID tx) tx (pool_txs m), pool_ord = pool_ord m @ [tx_ID tx]\<rparr>, Inr ()))"

definition pool_Get :: "bytes \<Rightarrow> mempool \<Rightarrow> transaction option" where
  "pool_Get i m = fmlookup (pool_txs m) i"

fun pending_loop :: "transaction gomap \<Rightarrow> int \<Rightarrow> bytes list \<Rightarrow> transaction list \<Rightarrow> transaction list" where
  "pending_loop txs n [] result = result"
| "pending_loop txs n (i # ids) result =
     (case fmlookup txs i of
        None \<Rightarrow> pending_loop txs n ids result
      | Some tx \<Rightarrow>
      let result' = result @ [tx] in
      if n \<le> int (length result') then result' else pending_loop txs n ids result')"

text \<open>\<open>make\<close> panics on a negative capacity: \<open>None\<close>.\<close>

definition pool_Pending :: "int \<Rightarrow> mempool \<Rightarrow> transaction list option" where
  "pool_Pending n m = (if n < 0 then None else Some (pending_loop (pool_txs m) n (pool_ord m) []))"

definition pool_Remove :: "bytes list \<Rightarrow> mempool \<Rightarrow> mempool" where
  "pool_Remove ids m =
     (let (txs, removed) = foldl (\<lambda>(txs, removed) i. (fmdrop i txs, fmupd i True removed)) (pool_txs m, fmempty) ids
      in \<lparr>pool_txs = txs, pool_ord = filter (\<lambda>i. fmlookup removed i \<noteq> Some True) (pool_ord m)\<rparr>)"

section \<open>The interface: a queue of transactions\<close>

text \<open>
  What the proposer, the RPC server and the network rely on. \<open>q\<close> is the queue a pool stands for,
  \<open>accept\<close> the admission check.
\<close>

locale tx_queue =
  fixes inv :: "'p \<Rightarrow> bool" and q :: "'p \<Rightarrow> transaction list"
    and add :: "int64 \<Rightarrow> transaction \<Rightarrow> 'p \<Rightarrow> 'p \<times> unit result"
    and pending :: "int \<Rightarrow> 'p \<Rightarrow> transaction list option" and remove :: "bytes list \<Rightarrow> 'p \<Rightarrow> 'p"
  assumes ids: "inv p \<Longrightarrow> distinct (map tx_ID (q p))"
    and add_ok: "inv p \<Longrightarrow> add now tx p = (p', Inr u) \<Longrightarrow> inv p' \<and> q p' = q p @ [tx]"
    and add_error: "add now tx p = (p', Inl e) \<Longrightarrow> p' = p"
    and pending_take: "inv p \<Longrightarrow> 0 < n \<Longrightarrow> pending n p = Some (take (nat n) (q p))"
    and remove_filter: "inv p \<Longrightarrow> inv (remove xs p) \<and> q (remove xs p) = filter (\<lambda>tx. tx_ID tx \<notin> set xs) (q p)"
begin

lemma filter_take:
  "distinct (map f xs) \<Longrightarrow> filter (\<lambda>x. f x \<notin> f ` set (take n xs)) xs = drop n xs"
proof (induction xs arbitrary: n)
  case (Cons x xs)
  show ?case
  proof (cases n)
    case (Suc m)
    have "filter (\<lambda>y. f y \<notin> f ` set (take n (x # xs))) xs = filter (\<lambda>y. f y \<notin> f ` set (take m xs)) xs"
    proof (rule filter_cong [OF refl])
      fix y
      assume "y \<in> set xs"
      then have "f y \<noteq> f x" using Cons.prems by (metis distinct.simps(2) image_eqI list.simps(9) set_map)
      then show "(f y \<notin> f ` set (take n (x # xs))) = (f y \<notin> f ` set (take m xs))" using Suc by simp
    qed
    with Cons Suc show ?thesis by simp
  qed simp
qed simp

text \<open>One round of the proposer: take up to \<open>n\<close> transactions and remove them.\<close>

lemma round_drops:
  assumes "inv p" "0 < n" "pending n p = Some txs"
  shows "inv (remove (map tx_ID txs) p) \<and> q (remove (map tx_ID txs) p) = drop (nat n) (q p)"
  using remove_filter [OF assms(1), of "map tx_ID txs"] filter_take [OF ids [OF assms(1)], of "nat n"]
    pending_take [OF assms(1,2)] assms(3) by simp

definition serve :: "int \<Rightarrow> 'p \<Rightarrow> 'p" where
  "serve n p = (case pending n p of None \<Rightarrow> p | Some txs \<Rightarrow> remove (map tx_ID txs) p)"

lemma rounds_drop:
  "inv p \<Longrightarrow> 0 < n \<Longrightarrow> inv ((serve n ^^ k) p) \<and> q ((serve n ^^ k) p) = drop (k * nat n) (q p)"
proof (induction k)
  case (Suc k)
  then have "inv ((serve n ^^ k) p)" "q ((serve n ^^ k) p) = drop (k * nat n) (q p)" by blast+
  with Suc.prems(2) show ?case
    using round_drops [of "(serve n ^^ k) p" n] pending_take [of "(serve n ^^ k) p" n]
    by (simp add: serve_def [of n "(serve n ^^ k) p"] add.commute)
qed simp

lemma rounds_drain: "inv p \<Longrightarrow> 0 < n \<Longrightarrow> q ((serve n ^^ length (q p)) p) = []"
  using rounds_drop [of p n "length (q p)"] by (cases "nat n") auto

end

section \<open>The pool is a queue\<close>

definition pool_ok :: "env \<Rightarrow> mempool \<Rightarrow> bool" where
  "pool_ok E m \<longleftrightarrow>
     distinct (pool_ord m) \<and> set (pool_ord m) = fset (fmdom (pool_txs m)) \<and> pool_Size m \<le> maxMempoolSize \<and>
     (\<forall>i tx. fmlookup (pool_txs m) i = Some tx \<longrightarrow> tx_ID tx = i \<and> tx_Verify E tx = Inr ())"

definition pool_queue :: "mempool \<Rightarrow> transaction list" where
  "pool_queue m = map (\<lambda>i. the (fmlookup (pool_txs m) i)) (pool_ord m)"

lemma pool_queue_lookup:
  assumes "pool_ok E m" "i \<in> set (pool_ord m)"
  obtains tx where "fmlookup (pool_txs m) i = Some tx" "tx_ID tx = i" "tx_Verify E tx = Inr ()"
  using assms unfolding pool_ok_def by (metis fmlookup_dom_iff)

lemma pool_queue_ids: "pool_ok E m \<Longrightarrow> map tx_ID (pool_queue m) = pool_ord m"
  unfolding pool_queue_def map_map comp_def
  by (rule map_idI) (metis option.sel pool_queue_lookup)

lemma pool_queue_verified: "pool_ok E m \<Longrightarrow> tx \<in> set (pool_queue m) \<Longrightarrow> tx_Verify E tx = Inr ()"
  unfolding pool_queue_def by (auto elim: pool_queue_lookup)

lemma pool_Size_queue: "pool_ok E m \<Longrightarrow> pool_Size m = int (length (pool_queue m))"
  unfolding pool_Size_def pool_queue_def fcard.rep_eq by (simp add: pool_ok_def distinct_card [symmetric])

lemma pool_Add_error: "pool_Add E now tx m = (m', Inl e) \<Longrightarrow> m' = m"
  by (auto simp: pool_Add_def split: sum.splits if_splits)

lemma pool_Add_Inr:
  "pool_Add E now tx m = (m', Inr u) \<longleftrightarrow>
     tx_Verify E tx = Inr () \<and>
     \<not> (tx_Timestamp tx < now \<and> maxTxAge < wrap64 (now - tx_Timestamp tx)) \<and>
     \<not> (now < tx_Timestamp tx \<and> maxTxFuture < wrap64 (tx_Timestamp tx - now)) \<and>
     pool_Size m < maxMempoolSize \<and> fmlookup (pool_txs m) (tx_ID tx) = None \<and>
     m' = \<lparr>pool_txs = fmupd (tx_ID tx) tx (pool_txs m), pool_ord = pool_ord m @ [tx_ID tx]\<rparr>"
  by (auto simp: pool_Add_def split: sum.splits if_splits)

lemma pool_Add_ok:
  assumes "pool_ok E m" "pool_Add E now tx m = (m', Inr u)"
  shows "pool_ok E m' \<and> pool_queue m' = pool_queue m @ [tx]"
proof -
  note a = assms(2) [unfolded pool_Add_Inr]
  have new: "tx_ID tx |\<notin>| fmdom (pool_txs m)" using a by (simp add: fmdom_notI)
  have ord: "tx_ID tx \<notin> set (pool_ord m)" using assms(1) new by (simp add: pool_ok_def)
  have "pool_Size m' = pool_Size m + 1" using a new by (simp add: pool_Size_def fcard_finsert_disjoint)
  then have "pool_ok E m'" using assms(1) a ord by (auto simp: pool_ok_def)
  moreover have "pool_queue m' = pool_queue m @ [tx]" using a ord by (auto simp: pool_queue_def)
  ultimately show ?thesis by blast
qed

lemma pending_loop_take:
  assumes "\<forall>i\<in>set ids. fmlookup txs i \<noteq> None" "int (length result) < n"
  shows "pending_loop txs n ids result = result @ take (nat n - length result) (map (\<lambda>i. the (fmlookup txs i)) ids)"
  using assms
proof (induction ids arbitrary: result)
  case (Cons i ids)
  then obtain tx where tx: "fmlookup txs i = Some tx" by auto
  show ?case
  proof (cases "n \<le> int (length (result @ [tx]))")
    case True
    then have "nat n - length result = 1" using Cons.prems(2) by simp
    then show ?thesis using tx True by simp
  next
    case False
    then have "nat n - length result = Suc (nat n - length (result @ [tx]))" using Cons.prems(2) by simp
    then show ?thesis using tx False Cons.IH [of "result @ [tx]"] Cons.prems(1) by simp
  qed
qed simp

lemma pool_Pending_take:
  assumes "pool_ok E m" "0 < n"
  shows "pool_Pending n m = Some (take (nat n) (pool_queue m))"
proof -
  have "\<forall>i\<in>set (pool_ord m). fmlookup (pool_txs m) i \<noteq> None"
    using assms(1) pool_queue_lookup by (metis option.distinct(1))
  then show ?thesis using assms(2) pending_loop_take [of "pool_ord m" "pool_txs m" "[]" n]
    by (simp add: pool_Pending_def pool_queue_def)
qed

lemma remove_loop:
  "foldl (\<lambda>(txs, removed) i. (fmdrop i txs, fmupd i True removed)) (txs, removed) ids = (txs', removed') \<Longrightarrow>
     fmlookup txs' i = (if i \<in> set ids then None else fmlookup txs i) \<and>
     (fmlookup removed' i = Some True \<longleftrightarrow> i \<in> set ids \<or> fmlookup removed i = Some True)"
  by (induction ids arbitrary: txs removed) (auto split: if_splits)

lemma pool_Remove_simps:
  "fmlookup (pool_txs (pool_Remove ids m)) i = (if i \<in> set ids then None else fmlookup (pool_txs m) i)"
  "pool_ord (pool_Remove ids m) = filter (\<lambda>i. i \<notin> set ids) (pool_ord m)"
  using remove_loop [of "pool_txs m" fmempty ids] by (auto simp: pool_Remove_def split: prod.split)

lemma pool_Remove_ok:
  assumes "pool_ok E m"
  shows "pool_ok E (pool_Remove ids m) \<and>
    pool_queue (pool_Remove ids m) = filter (\<lambda>tx. tx_ID tx \<notin> set ids) (pool_queue m)"
proof
  have d: "fset (fmdom (pool_txs (pool_Remove ids m))) = fset (fmdom (pool_txs m)) - set ids"
    by (auto simp: fmlookup_dom_iff pool_Remove_simps split: if_splits)
  then have "pool_Size (pool_Remove ids m) \<le> pool_Size m"
    by (simp add: pool_Size_def fcard.rep_eq card_mono)
  then show "pool_ok E (pool_Remove ids m)"
    using assms d by (auto simp: pool_ok_def pool_Remove_simps(2) pool_Remove_simps(1) split: if_splits)
  have "tx_ID (the (fmlookup (pool_txs m) i)) = i" if "i \<in> set (pool_ord m)" for i
    using pool_queue_lookup [OF assms that] by (metis option.sel)
  then have "filter (\<lambda>tx. tx_ID tx \<notin> set ids) (pool_queue m) =
      map (\<lambda>i. the (fmlookup (pool_txs m) i)) (filter (\<lambda>i. i \<notin> set ids) (pool_ord m))"
    by (simp add: pool_queue_def filter_map comp_def cong: filter_cong)
  then show "pool_queue (pool_Remove ids m) = filter (\<lambda>tx. tx_ID tx \<notin> set ids) (pool_queue m)"
    by (simp add: pool_queue_def pool_Remove_simps)
qed

interpretation pool: tx_queue "pool_ok E" pool_queue "pool_Add E" pool_Pending pool_Remove
proof
  show "pool_ok E p \<Longrightarrow> distinct (map tx_ID (pool_queue p))" for p
    by (simp add: pool_queue_ids) (simp add: pool_ok_def)
qed (use pool_Add_ok pool_Add_error pool_Pending_take pool_Remove_ok in blast)+

lemma NewMempool_ok: "pool_ok E NewMempool" "pool_queue NewMempool = []"
  by (simp_all add: pool_ok_def NewMempool_def pool_Size_def mempool_consts pool_queue_def fcard_fempty)

text \<open>One round of the block producer on the pool.\<close>

definition pool_round :: "int \<Rightarrow> mempool \<Rightarrow> mempool" where
  "pool_round n m = (case pool_Pending n m of None \<Rightarrow> m | Some txs \<Rightarrow> pool_Remove (map tx_ID txs) m)"

lemma pool_rounds:
  "pool_ok E m \<Longrightarrow> 0 < n \<Longrightarrow> pool_ok E ((pool_round n ^^ k) m) \<and>
     pool_queue ((pool_round n ^^ k) m) = drop (k * nat n) (pool_queue m)"
  using pool.rounds_drop [of E m n k] by (simp add: pool.serve_def [abs_def] pool_round_def [abs_def])

section \<open>Admission\<close>

lemma pool_window:
  assumes "pool_Add E now tx m = (m', Inr u)" "0 \<le> now" "in_int64 (tx_Timestamp tx)" "now - tx_Timestamp tx < 2 ^ 63"
  shows "now - maxTxAge \<le> tx_Timestamp tx \<and> tx_Timestamp tx \<le> now + maxTxFuture"
proof -
  have "wrap64 (now - tx_Timestamp tx) = now - tx_Timestamp tx" if "tx_Timestamp tx < now"
    using that assms(4) by (intro wrap64_id) (simp add: in_int64_def)
  moreover have "wrap64 (tx_Timestamp tx - now) = tx_Timestamp tx - now" if "now < tx_Timestamp tx"
    using that assms(2,3) by (intro wrap64_id) (simp add: in_int64_def)
  ultimately show ?thesis
    using assms(1) unfolding pool_Add_Inr mempool_consts by (cases "tx_Timestamp tx" now rule: linorder_cases) auto
qed

text \<open>Beyond that range the subtraction overflows, and a transaction of the distant past is admitted.\<close>

lemma pool_admits_ancient:
  assumes "tx_Verify E tx = Inr ()" "tx_Timestamp tx = - (2 ^ 63)" "0 \<le> now" "now < 2 ^ 63"
    and "pool_Size m < maxMempoolSize" "fmlookup (pool_txs m) (tx_ID tx) = None"
  shows "is_ok (snd (pool_Add E now tx m))"
proof -
  have "wrap64 (now + 2 ^ 63) = now - 2 ^ 63"
    using assms(3,4) by (simp add: wrap64_def)
  then show ?thesis using assms by (simp add: pool_Add_def mempool_consts)
qed

end
