(* ===== verification/LevelDB.thy ===== *)
theory LevelDB
  imports BlockStore StateView
begin

text \<open>
  \<open>storage/leveldb.go\<close>: the LevelDB wrapper and the block store on it. The package \<open>goleveldb\<close> is a
  parameter; \<open>goleveldb_ok\<close> is what its documentation promises. From it the wrapper meets the contract of
  the key-value interface, and the block store that of the block interface. State, blocks and
  indexes live in one database under disjoint keys.
\<close>

section \<open>The wrapper\<close>

datatype ldb_error = LdbNotFound | LdbFailed string

record 'g goleveldb =
  ldb_Get :: "'g \<Rightarrow> bytes \<Rightarrow> ldb_error + bytes"
  ldb_Put :: "'g \<Rightarrow> bytes \<Rightarrow> bytes \<Rightarrow> 'g \<times> ldb_error option"
  ldb_Delete :: "'g \<Rightarrow> bytes \<Rightarrow> 'g \<times> ldb_error option"
  ldb_Write :: "'g \<Rightarrow> batch_op list \<Rightarrow> 'g \<times> ldb_error option"
  ldb_Iter :: "'g \<Rightarrow> bytes \<Rightarrow> (bytes \<times> bytes) list \<times> ldb_error option"

text \<open>An error of the package is not \<open>core.ErrNotFound\<close>, whatever it says.\<close>

fun ldb_err :: "ldb_error \<Rightarrow> error" where
  "ldb_err LdbNotFound = DBError ''leveldb: not found''"
| "ldb_err (LdbFailed msg) = DBError msg"

definition ldb_result :: "ldb_error option \<Rightarrow> unit result" where
  "ldb_result e = (case e of None \<Rightarrow> Inr () | Some e \<Rightarrow> Inl (ldb_err e))"

definition lvl_Get :: "'g goleveldb \<Rightarrow> 'g \<Rightarrow> bytes \<Rightarrow> bytes result" where
  "lvl_Get G db key =
     (case ldb_Get G db key of
        Inl e \<Rightarrow> if e = LdbNotFound then Inl ErrNotFound else Inl (ldb_err e)
      | Inr val \<Rightarrow> Inr val)"

definition lvl_Set :: "'g goleveldb \<Rightarrow> 'g \<Rightarrow> bytes \<Rightarrow> bytes \<Rightarrow> 'g \<times> unit result" where
  "lvl_Set G db key value = (let (db', e) = ldb_Put G db key value in (db', ldb_result e))"

definition lvl_Delete :: "'g goleveldb \<Rightarrow> 'g \<Rightarrow> bytes \<Rightarrow> 'g \<times> unit result" where
  "lvl_Delete G db key = (let (db', e) = ldb_Delete G db key in (db', ldb_result e))"

definition lvl_NewIterator :: "'g goleveldb \<Rightarrow> 'g \<Rightarrow> bytes \<Rightarrow> (bytes \<times> bytes) list \<times> unit result" where
  "lvl_NewIterator G db p = (let (kvs, e) = ldb_Iter G db p in (kvs, ldb_result e))"

definition lvl_Write :: "'g goleveldb \<Rightarrow> 'g \<Rightarrow> batch_op list \<Rightarrow> 'g \<times> unit result" where
  "lvl_Write G db ops = (let (db', e) = ldb_Write G db ops in (db', ldb_result e))"

definition LevelDB :: "'g goleveldb \<Rightarrow> 'g db_iface" where
  "LevelDB G = \<lparr>DB_Get = lvl_Get G, DB_Set = lvl_Set G, DB_Delete = lvl_Delete G,
     DB_Iter = lvl_NewIterator G, DB_Write = lvl_Write G\<rparr>"

text \<open>
  Documented: a read returns the entry or \<open>ErrNotFound\<close>; \<open>Put\<close>, \<open>Delete\<close> and \<open>Write\<close> are applied, a
  batch in order and as a whole, or fail and change nothing; an iterator over \<open>util.BytesPrefix p\<close>
  yields the entries with prefix \<open>p\<close> once each, unless it reports an error.
\<close>

definition goleveldb_ok :: "'g goleveldb \<Rightarrow> ('g \<Rightarrow> bytes \<rightharpoonup> bytes) \<Rightarrow> bool" where
  "goleveldb_ok G \<gamma> \<longleftrightarrow>
     (\<forall>d. finite (dom (\<gamma> d))) \<and>
     (\<forall>d k. (\<forall>v. ldb_Get G d k = Inr v \<longrightarrow> \<gamma> d k = Some v) \<and> (ldb_Get G d k = Inl LdbNotFound \<longrightarrow> \<gamma> d k = None)) \<and>
     (\<forall>d k v d' e. ldb_Put G d k v = (d', e) \<longrightarrow> \<gamma> d' = (if e = None then (\<gamma> d)(k \<mapsto> v) else \<gamma> d)) \<and>
     (\<forall>d k d' e. ldb_Delete G d k = (d', e) \<longrightarrow> \<gamma> d' = (if e = None then (\<gamma> d)(k := None) else \<gamma> d)) \<and>
     (\<forall>d ops d' e. ldb_Write G d ops = (d', e) \<longrightarrow> \<gamma> d' = (if e = None then fold apply_op ops (\<gamma> d) else \<gamma> d)) \<and>
     (\<forall>d p kvs. ldb_Iter G d p = (kvs, None) \<longrightarrow> distinct (map fst kvs) \<and> map_of kvs = (\<gamma> d) |` {k. has_prefix p k})"

lemma ldb_result_simps:
  "ldb_result e = Inr u \<longleftrightarrow> e = None" "ldb_result e = Inl x \<longleftrightarrow> (\<exists>y. e = Some y \<and> x = ldb_err y)"
  by (auto simp: ldb_result_def split: option.splits)

lemma ldb_err_not_found [simp]: "ldb_err e \<noteq> ErrNotFound"
  by (cases e) auto

lemma lvl_result:
  "(case r of (d', e) \<Rightarrow> (d', ldb_result e)) = (d1, Inr u) \<longleftrightarrow> r = (d1, None)"
  "(case r of (d', e) \<Rightarrow> (d', ldb_result e)) = (d1, Inl x) \<longleftrightarrow> (\<exists>y. r = (d1, Some y) \<and> x = ldb_err y)"
  by (cases r; auto simp: ldb_result_simps)+

theorem LevelDB_kv_db:
  assumes "goleveldb_ok G \<gamma>"
  shows "kv_db (LevelDB G) \<gamma>"
proof
  note g = assms [unfolded goleveldb_ok_def]
  note d = LevelDB_def lvl_Set_def lvl_Delete_def lvl_Write_def lvl_NewIterator_def Let_def
  fix db k v d' u e ops p kvs
  show "finite (dom (\<gamma> db))" using g by blast
  show "DB_Get (LevelDB G) db k = Inr v \<Longrightarrow> \<gamma> db k = Some v"
    using g by (auto simp: LevelDB_def lvl_Get_def split: sum.splits if_splits)
  show "DB_Get (LevelDB G) db k = Inl ErrNotFound \<Longrightarrow> \<gamma> db k = None"
    using g by (auto simp: LevelDB_def lvl_Get_def split: sum.splits if_splits)
  show "DB_Set (LevelDB G) db k v = (d', Inr u) \<Longrightarrow> \<gamma> d' = (\<gamma> db)(k \<mapsto> v)"
    "DB_Set (LevelDB G) db k v = (d', Inl e) \<Longrightarrow> \<gamma> d' = \<gamma> db"
    using g by (auto simp: d lvl_result)
  show "DB_Delete (LevelDB G) db k = (d', Inr u) \<Longrightarrow> \<gamma> d' = (\<gamma> db)(k := None)"
    "DB_Delete (LevelDB G) db k = (d', Inl e) \<Longrightarrow> \<gamma> d' = \<gamma> db"
    using g by (auto simp: d lvl_result)
  show "DB_Write (LevelDB G) db ops = (d', Inr u) \<Longrightarrow> \<gamma> d' = fold apply_op ops (\<gamma> db)"
    "DB_Write (LevelDB G) db ops = (d', Inl e) \<Longrightarrow> \<gamma> d' = \<gamma> db"
    using g by (auto simp: d lvl_result)
  show "DB_Iter (LevelDB G) db p = (kvs, Inr u) \<Longrightarrow>
      distinct (map fst kvs) \<and> map_of kvs = (\<gamma> db) |` {k. has_prefix p k}"
    using g by (auto simp: d lvl_result)
qed

section \<open>The block store\<close>

definition block_key :: "bytes \<Rightarrow> bytes" where "block_key hash = ''block:'' @ hash"
definition height_key :: "int64 \<Rightarrow> bytes" where "height_key height = ''height:'' @ print_int height"
definition tip_key :: bytes where "tip_key = ''chain:tip''"

lemmas chain_key_defs = block_key_def height_key_def tip_key_def

definition lbs_PutBlock :: "'d db_iface \<Rightarrow> 'd \<Rightarrow> stored_block \<Rightarrow> 'd \<times> unit result" where
  "lbs_PutBlock I d b = DB_Set I d (block_key (sb_Hash b)) (marshal enc_block b)"

definition lbs_GetBlock :: "'d db_iface \<Rightarrow> 'd \<Rightarrow> bytes \<Rightarrow> stored_block result" where
  "lbs_GetBlock I d hash =
     (case DB_Get I d (block_key hash) of Inl e \<Rightarrow> Inl e | Inr data \<Rightarrow> unmarshal dec_block data)"

definition lbs_PutBlockByHeight :: "'d db_iface \<Rightarrow> 'd \<Rightarrow> int64 \<Rightarrow> bytes \<Rightarrow> 'd \<times> unit result" where
  "lbs_PutBlockByHeight I d height hash = DB_Set I d (height_key height) hash"

definition lbs_GetBlockByHeight :: "'d db_iface \<Rightarrow> 'd \<Rightarrow> int64 \<Rightarrow> stored_block result" where
  "lbs_GetBlockByHeight I d height =
     (case DB_Get I d (height_key height) of Inl e \<Rightarrow> Inl e | Inr hash \<Rightarrow> lbs_GetBlock I d hash)"

definition lbs_GetTip :: "'d db_iface \<Rightarrow> 'd \<Rightarrow> bytes result" where
  "lbs_GetTip I d =
     (case DB_Get I d tip_key of
        Inl e \<Rightarrow> if e = ErrNotFound then Inr [] else Inl e
      | Inr val \<Rightarrow> Inr val)"

definition lbs_SetTip :: "'d db_iface \<Rightarrow> 'd \<Rightarrow> bytes \<Rightarrow> 'd \<times> unit result" where
  "lbs_SetTip I d hash = DB_Set I d tip_key hash"

definition lbs_CommitBlock :: "'d db_iface \<Rightarrow> 'd \<Rightarrow> stored_block \<Rightarrow> 'd \<times> unit result" where
  "lbs_CommitBlock I d b =
     DB_Write I d
       [BatchSet (block_key (sb_Hash b)) (marshal enc_block b),
        BatchSet (height_key (hdr_Height (sb_Header b))) (sb_Hash b),
        BatchSet tip_key (sb_Hash b)]"

definition LevelBlockStore :: "'d db_iface \<Rightarrow> 'd block_db" where
  "LevelBlockStore I = \<lparr>BS_GetBlock = lbs_GetBlock I, BS_PutBlock = lbs_PutBlock I,
     BS_GetBlockByHeight = lbs_GetBlockByHeight I, BS_PutBlockByHeight = lbs_PutBlockByHeight I,
     BS_GetTip = lbs_GetTip I, BS_SetTip = lbs_SetTip I, BS_CommitBlock = lbs_CommitBlock I\<rparr>"

text \<open>What the entries of a store mean as blocks, heights and tip.\<close>

definition stored_blocks :: "(bytes \<rightharpoonup> bytes) \<Rightarrow> bytes \<rightharpoonup> stored_block" where
  "stored_blocks m h =
     (case m (block_key h) of
        None \<Rightarrow> None
      | Some v \<Rightarrow> (case unmarshal dec_block v of Inl _ \<Rightarrow> None | Inr b \<Rightarrow> Some b))"

definition stored_heights :: "(bytes \<rightharpoonup> bytes) \<Rightarrow> int64 \<rightharpoonup> bytes" where
  "stored_heights m n = m (height_key n)"

definition stored_tip :: "(bytes \<rightharpoonup> bytes) \<Rightarrow> bytes" where
  "stored_tip m = (case m tip_key of None \<Rightarrow> [] | Some t \<Rightarrow> t)"

lemma chain_keys [simp]:
  "block_key g = block_key h \<longleftrightarrow> g = h" "height_key i = height_key j \<longleftrightarrow> i = j"
  "block_key h \<noteq> height_key i" "height_key i \<noteq> block_key h" "block_key h \<noteq> tip_key" "tip_key \<noteq> block_key h"
  "height_key i \<noteq> tip_key" "tip_key \<noteq> height_key i"
  by (simp_all add: chain_key_defs print_int_inject)

text \<open>A decoding error is never \<open>ErrNotFound\<close>.\<close>

definition json_err :: "'a result \<Rightarrow> bool" where
  "json_err r \<longleftrightarrow> (\<forall>e. r = Inl e \<longrightarrow> e = JSONError)"

lemma json_err_simps [simp]:
  "json_err (Inr x)" "json_err (Inl JSONError)" "json_err (map_result f r) = json_err r"
  "json_err (dec_string s j)" "json_err (dec_int64 i j)" "json_err (dec_uint64 w j)"
  by (auto simp: json_err_def dec_string_def dec_int64_def dec_uint64_def parse_uint64_def parse_int64_def Let_def
      split: json.splits if_splits prod.splits) (auto simp: map_result_def split: sum.splits)

lemma json_err_bind: "json_err r \<Longrightarrow> (\<And>x. json_err (f x)) \<Longrightarrow> json_err (bind_result r f)"
  by (cases r) (auto simp: json_err_def)

lemma json_err_struct:
  assumes "\<And>n v x. json_err (f n v x)"
  shows "json_err (decode_struct names f a j)"
proof -
  have "json_err (decode_fields names f ms a)" for ms
    by (induction ms arbitrary: a) (auto split: option.split intro!: json_err_bind assms)
  then show ?thesis by (simp add: decode_struct_def split: json.split)
qed

lemma json_err_ptrs:
  assumes "\<And>x j. json_err (dec x j)"
  shows "json_err (dec_ptrs dec zero old j)"
proof -
  have "json_err (dec_ptr_elems dec zero old vs)" for old vs
    by (induction vs arbitrary: old) (auto simp: dec_ptr_def assms intro!: json_err_bind)
  then show ?thesis by (simp add: dec_ptrs_def split: json.split)
qed

lemma json_err_block: "json_err (dec_block_into b j)"
  unfolding dec_block_into_def
  by (intro json_err_struct)
    (simp add: block_field_def dec_header_into_def dec_transaction_into_def header_field_def transaction_field_def
      json_err_struct json_err_ptrs)

lemma unmarshal_not_found: "unmarshal dec_block v \<noteq> Inl ErrNotFound"
  using json_err_block [of zero_block] by (auto simp: unmarshal_def dec_block_def json_err_def split: option.splits)

sublocale kv_db \<subseteq> lbs: block_store "LevelBlockStore I" "\<lambda>d. stored_blocks (\<alpha> d)" "\<lambda>d. stored_heights (\<alpha> d)"
    "\<lambda>d. stored_tip (\<alpha> d)" stored_ok wire_block
proof
  note defs = LevelBlockStore_def lbs_GetBlock_def lbs_GetBlockByHeight_def lbs_GetTip_def lbs_CommitBlock_def
    stored_blocks_def stored_heights_def stored_tip_def
  fix d d' h b n t u e
  show get: "BS_GetBlock (LevelBlockStore I) d h = Inr b \<Longrightarrow> stored_blocks (\<alpha> d) h = Some b" for h
    by (auto simp: defs split: sum.splits dest!: get_found)
  show "BS_GetBlock (LevelBlockStore I) d h = Inl ErrNotFound \<Longrightarrow> stored_blocks (\<alpha> d) h = None"
    using unmarshal_not_found by (auto simp: defs split: sum.splits dest!: get_missing)
  show "BS_GetBlockByHeight (LevelBlockStore I) d n = Inr b \<Longrightarrow>
      \<exists>h. stored_heights (\<alpha> d) n = Some h \<and> stored_blocks (\<alpha> d) h = Some b"
    using get by (auto simp: LevelBlockStore_def lbs_GetBlockByHeight_def stored_heights_def split: sum.splits dest!: get_found)
  show "BS_GetTip (LevelBlockStore I) d = Inr t \<Longrightarrow> stored_tip (\<alpha> d) = t"
    by (auto simp: defs split: sum.splits if_splits dest: get_found get_missing)
  show "BS_CommitBlock (LevelBlockStore I) d b = (d', Inr u) \<Longrightarrow> stored_ok b \<Longrightarrow>
      stored_blocks (\<alpha> d') = (stored_blocks (\<alpha> d))(sb_Hash b \<mapsto> wire_block b) \<and>
      stored_heights (\<alpha> d') = (stored_heights (\<alpha> d))(hdr_Height (sb_Header b) \<mapsto> sb_Hash b) \<and>
      stored_tip (\<alpha> d') = sb_Hash b"
    by (auto simp: defs fun_eq_iff unmarshal_block dest!: write_ok)
  show "BS_CommitBlock (LevelBlockStore I) d b = (d', Inl e) \<Longrightarrow>
      stored_blocks (\<alpha> d') = stored_blocks (\<alpha> d) \<and> stored_heights (\<alpha> d') = stored_heights (\<alpha> d) \<and>
      stored_tip (\<alpha> d') = stored_tip (\<alpha> d)"
    by (auto simp: LevelBlockStore_def lbs_CommitBlock_def dest: write_error)
qed (simp_all add: wire_block_def)

section \<open>One database, disjoint keys\<close>

lemma chain_not_state [simp]:
  "\<not> state_key (block_key h)" "\<not> state_key (height_key i)" "\<not> state_key tip_key"
  by (simp_all add: state_key_def chain_key_defs statePrefixes_def prefix_defs has_prefix_def)

end
