(* ===== verification/Chain.thy ===== *)
theory Chain
  imports LevelDB
begin

text \<open>
  \<open>core/blockchain.go\<close>: the canonical chain over a block store. A block is added only on top of the
  tip; the stored chain is linked, and \<open>Init\<close> finds it again after a restart.
\<close>

section \<open>The blockchain\<close>

record 'b blockchain =
  bc_store :: 'b
  bc_tip :: "stored_block option"
  bc_height :: int64

definition NewBlockchain :: "'b \<Rightarrow> 'b blockchain" where
  "NewBlockchain store = \<lparr>bc_store = store, bc_tip = None, bc_height = 0\<rparr>"

definition bc_Init :: "'b block_db \<Rightarrow> 'b blockchain \<Rightarrow> 'b blockchain \<times> unit result" where
  "bc_Init B bc =
     (case BS_GetTip B (bc_store bc) of
        Inl e \<Rightarrow> (bc, Inl (Wrapf ''get tip'' e))
      | Inr tipHash \<Rightarrow>
      if tipHash = [] then (bc, Inr ())
      else case BS_GetBlock B (bc_store bc) tipHash of
        Inl e \<Rightarrow> (bc, Inl (Wrapf ''load tip block'' e))
      | Inr tip \<Rightarrow> (bc\<lparr>bc_tip := Some tip, bc_height := hdr_Height (sb_Header tip)\<rparr>, Inr ()))"

definition bc_AddBlock :: "'b block_db \<Rightarrow> stored_block \<Rightarrow> 'b blockchain \<Rightarrow> 'b blockchain \<times> unit result" where
  "bc_AddBlock B b bc =
     (let commit =
        (case BS_CommitBlock B (bc_store bc) b of
           (d, Inl e) \<Rightarrow> (bc\<lparr>bc_store := d\<rparr>, Inl (Wrapf ''commit block'' e))
         | (d, Inr _) \<Rightarrow> (\<lparr>bc_store = d, bc_tip = Some b, bc_height = hdr_Height (sb_Header b)\<rparr>, Inr ()))
      in case bc_tip bc of
        None \<Rightarrow> commit
      | Some tip \<Rightarrow>
      if hdr_Height (sb_Header b) \<le> bc_height bc then (bc, Inl (Errorf ''block height <= current tip (possible fork)''))
      else if hdr_Height (sb_Header b) \<noteq> wrap64 (bc_height bc + 1)
      then (bc, Inl (Errorf ''block height does not follow tip''))
      else if hdr_PrevHash (sb_Header b) \<noteq> sb_Hash tip then (bc, Inl (Errorf ''prev_hash mismatch''))
      else commit)"

definition bc_GetBlock :: "'b block_db \<Rightarrow> 'b blockchain \<Rightarrow> bytes \<Rightarrow> stored_block result" where
  "bc_GetBlock B bc hash = BS_GetBlock B (bc_store bc) hash"

definition bc_GetBlockByHeight :: "'b block_db \<Rightarrow> 'b blockchain \<Rightarrow> int64 \<Rightarrow> stored_block result" where
  "bc_GetBlockByHeight B bc height = BS_GetBlockByHeight B (bc_store bc) height"

section \<open>Linked chains\<close>

abbreviation sb_Height :: "stored_block \<Rightarrow> int64" where
  "sb_Height b \<equiv> hdr_Height (sb_Header b)"

text \<open>Oldest block first.\<close>

fun linked :: "stored_block list \<Rightarrow> bool" where
  "linked [] = True"
| "linked [b] = True"
| "linked (b # c # bs) =
     (sb_Height c = sb_Height b + 1 \<and> hdr_PrevHash (sb_Header c) = sb_Hash b \<and> linked (c # bs))"

lemma linked_snoc:
  "bs \<noteq> [] \<Longrightarrow> linked (bs @ [b]) \<longleftrightarrow>
     linked bs \<and> sb_Height b = sb_Height (last bs) + 1 \<and> hdr_PrevHash (sb_Header b) = sb_Hash (last bs)"
  by (induction bs rule: linked.induct) auto

lemma linked_heights: "linked bs \<Longrightarrow> i < length bs \<Longrightarrow> sb_Height (bs ! i) = sb_Height (hd bs) + int i"
proof (induction bs arbitrary: i rule: linked.induct)
  case (3 b c bs)
  then show ?case by (cases i) auto
qed auto

lemma linked_height_le_last: "linked bs \<Longrightarrow> b \<in> set bs \<Longrightarrow> sb_Height b \<le> sb_Height (last bs)"
proof -
  assume l: "linked bs" and "b \<in> set bs"
  then obtain i where "i < length bs" "bs ! i = b" by (auto simp: in_set_conv_nth)
  then show ?thesis
    using linked_heights [OF l, of i] linked_heights [OF l, of "length bs - 1"] by (cases "bs = []") (auto simp: last_conv_nth)
qed

text \<open>The chain object and its store hold the blocks \<open>bs\<close>, and no other height is stored.\<close>

definition chain_holds ::
  "('b \<Rightarrow> bytes \<rightharpoonup> stored_block) \<Rightarrow> ('b \<Rightarrow> int64 \<rightharpoonup> bytes) \<Rightarrow> ('b \<Rightarrow> bytes) \<Rightarrow> (stored_block \<Rightarrow> stored_block) \<Rightarrow>
   'b blockchain \<Rightarrow> stored_block list \<Rightarrow> bool" where
  "chain_holds blocks heights tip norm bc bs \<longleftrightarrow> linked bs \<and>
     (if bs = [] then bc_tip bc = None \<and> tip (bc_store bc) = []
      else (\<exists>t. bc_tip bc = Some t \<and> sb_Header t = sb_Header (last bs) \<and> sb_Hash t = sb_Hash (last bs)) \<and>
        bc_height bc = sb_Height (last bs) \<and> tip (bc_store bc) = sb_Hash (last bs)) \<and>
     (\<forall>b\<in>set bs. blocks (bc_store bc) (sb_Hash b) = Some (norm b) \<and>
        heights (bc_store bc) (sb_Height b) = Some (sb_Hash b)) \<and>
     dom (heights (bc_store bc)) = sb_Height ` set bs"

context block_store
begin

abbreviation holds :: "'b blockchain \<Rightarrow> stored_block list \<Rightarrow> bool" where
  "holds \<equiv> chain_holds blocks heights tip norm"

lemma AddBlock_error:
  assumes "bc_AddBlock B b bc = (bc', Inl e)"
  shows "bc_tip bc' = bc_tip bc \<and> bc_height bc' = bc_height bc \<and> (holds bc' bs \<longleftrightarrow> holds bc bs)"
  using assms commit_error [of "bc_store bc" b]
  by (auto simp: bc_AddBlock_def chain_holds_def Let_def split: option.splits if_splits prod.splits sum.splits)

lemma AddBlock_parts:
  assumes "bc_AddBlock B b bc = (bc', Inr u)"
  obtains d where "BS_CommitBlock B (bc_store bc) b = (d, Inr ())"
    "bc' = \<lparr>bc_store = d, bc_tip = Some b, bc_height = sb_Height b\<rparr>"
    "\<And>t. bc_tip bc = Some t \<Longrightarrow> bc_height bc < sb_Height b \<and> sb_Height b = wrap64 (bc_height bc + 1) \<and>
       hdr_PrevHash (sb_Header b) = sb_Hash t"
  using assms
  by (auto simp: bc_AddBlock_def Let_def not_le split: option.splits if_splits prod.splits sum.splits)

lemma wrap64_next: "in_int64 x \<Longrightarrow> x < wrap64 (x + 1) \<Longrightarrow> wrap64 (x + 1) = x + 1"
  by (cases "x = 2 ^ 63 - 1") (auto simp: wrap64_def in_int64_def)

lemma AddBlock_holds:
  assumes "holds bc bs" "bc_AddBlock B b bc = (bc', Inr u)" "ok b" "sb_Hash b \<notin> sb_Hash ` set bs"
    and "in_int64 (bc_height bc)"
  shows "holds bc' (bs @ [b])"
  using assms(2)
proof (rule AddBlock_parts)
  fix d
  assume c: "BS_CommitBlock B (bc_store bc) b = (d, Inr ())"
    "bc' = \<lparr>bc_store = d, bc_tip = Some b, bc_height = sb_Height b\<rparr>"
    "\<And>t. bc_tip bc = Some t \<Longrightarrow> bc_height bc < sb_Height b \<and> sb_Height b = wrap64 (bc_height bc + 1) \<and>
       hdr_PrevHash (sb_Header b) = sb_Hash t"
  note new = commit_ok [OF c(1) assms(3)]
  have next_block: "sb_Height b = sb_Height (last bs) + 1 \<and> hdr_PrevHash (sb_Header b) = sb_Hash (last bs)" if "bs \<noteq> []"
    using that assms(1,5) c(3) wrap64_next [of "bc_height bc"] by (fastforce simp: chain_holds_def)
  have l: "linked (bs @ [b])"
    using assms(1) next_block by (cases "bs = []") (simp_all add: linked_snoc chain_holds_def)
  have "sb_Height x \<noteq> sb_Height b" if "x \<in> set bs" for x
  proof -
    have "sb_Height x \<le> sb_Height (last bs)" "bs \<noteq> []"
      using that assms(1) linked_height_le_last by (auto simp: chain_holds_def)
    then show ?thesis using next_block by simp
  qed
  moreover have "sb_Hash x \<noteq> sb_Hash b" if "x \<in> set bs" for x using assms(4) that by (metis image_eqI)
  ultimately show "holds bc' (bs @ [b])"
    using assms(1) l new c(2) by (simp add: chain_holds_def)
qed

end

text \<open>A store that reports no I/O error answers every read.\<close>

locale healthy_blocks = block_store +
  assumes get_present: "blocks d h = Some b \<Longrightarrow> BS_GetBlock B d h = Inr b"
    and get_height_present: "heights d n = Some h \<Longrightarrow> blocks d h = Some b \<Longrightarrow> BS_GetBlockByHeight B d n = Inr b"
    and get_tip_present: "BS_GetTip B d = Inr (tip d)"
begin

lemma GetBlock_holds:
  "holds bc bs \<Longrightarrow> b \<in> set bs \<Longrightarrow> bc_GetBlock B bc (sb_Hash b) = Inr (norm b)"
  "holds bc bs \<Longrightarrow> b \<in> set bs \<Longrightarrow> bc_GetBlockByHeight B bc (sb_Height b) = Inr (norm b)"
  by (simp_all add: chain_holds_def bc_GetBlock_def bc_GetBlockByHeight_def get_present get_height_present)

text \<open>After a restart \<open>Init\<close> finds the chain that was stored.\<close>

lemma Init_holds:
  assumes "holds bc bs" "\<forall>b\<in>set bs. sb_Hash b \<noteq> []"
  shows "\<exists>bc'. bc_Init B (NewBlockchain (bc_store bc)) = (bc', Inr ()) \<and> holds bc' bs"
proof (cases "bs = []")
  case True
  then show ?thesis
    using assms(1) by (simp add: bc_Init_def NewBlockchain_def get_tip_present chain_holds_def)
next
  case False
  then have l: "last bs \<in> set bs" by simp
  then have "blocks (bc_store bc) (sb_Hash (last bs)) = Some (norm (last bs))" "tip (bc_store bc) = sb_Hash (last bs)"
    using assms(1) False by (simp_all add: chain_holds_def)
  then show ?thesis
    using assms l False get_present norm_keeps
    by (simp add: bc_Init_def NewBlockchain_def get_tip_present chain_holds_def)
qed

end

interpretation mbs: healthy_blocks MemBlockStore "\<lambda>s. fmlookup (mbs_blocks s)" "\<lambda>s. fmlookup (mbs_byH s)" mbs_tip
    "\<lambda>b. True" "\<lambda>b. b"
  by unfold_locales (auto simp: mbs_defs)

sublocale healthy_db \<subseteq> lbs: healthy_blocks "LevelBlockStore I" "\<lambda>d. stored_blocks (\<alpha> d)"
    "\<lambda>d. stored_heights (\<alpha> d)" "\<lambda>d. stored_tip (\<alpha> d)" stored_ok wire_block
  by unfold_locales
    (auto simp: LevelBlockStore_def lbs_GetBlock_def lbs_GetBlockByHeight_def lbs_GetTip_def stored_blocks_def
      stored_heights_def stored_tip_def healthy_get [OF healthy] split: option.splits sum.splits)

section \<open>Chains on the persistent store\<close>

text \<open>A blockchain object over the persistent store, and the blocks added to it, oldest first.\<close>

abbreviation ldb_chain :: "('d \<Rightarrow> bytes \<rightharpoonup> bytes) \<Rightarrow> 'd blockchain \<Rightarrow> stored_block list \<Rightarrow> bool" where
  "ldb_chain \<alpha> \<equiv> chain_holds (\<lambda>d. stored_blocks (\<alpha> d)) (\<lambda>d. stored_heights (\<alpha> d)) (\<lambda>d. stored_tip (\<alpha> d)) wire_block"

context kv_db
begin

lemma chain_AddBlock:
  assumes "ldb_chain \<alpha> bc bs" "bc_AddBlock (LevelBlockStore I) b bc = (bc', r)"
    and "stored_ok b" "sb_Hash b \<notin> sb_Hash ` set bs" "in_int64 (bc_height bc)"
  shows "ldb_chain \<alpha> bc' (if is_ok r then bs @ [b] else bs)"
  using lbs.AddBlock_error [of b bc bc' _ bs] lbs.AddBlock_holds [OF assms(1) _ assms(3-5)] assms(1,2)
  by (cases r) auto

end

context healthy_db
begin

lemma chain_Init:
  "ldb_chain \<alpha> bc bs \<Longrightarrow> \<forall>b\<in>set bs. sb_Hash b \<noteq> [] \<Longrightarrow>
     \<exists>bc'. bc_Init (LevelBlockStore I) (NewBlockchain (bc_store bc)) = (bc', Inr ()) \<and> ldb_chain \<alpha> bc' bs"
  by (rule lbs.Init_holds)

lemma chain_Get:
  assumes "ldb_chain \<alpha> bc bs" "b \<in> set bs"
  shows "bc_GetBlock (LevelBlockStore I) bc (sb_Hash b) = Inr (wire_block b)"
    "bc_GetBlockByHeight (LevelBlockStore I) bc (sb_Height b) = Inr (wire_block b)"
  using lbs.GetBlock_holds [OF assms] by blast+

lemma chain_CommitBlock:
  assumes "BS_CommitBlock (LevelBlockStore I) d b = (d', Inr u)" "stored_ok b"
  shows "BS_GetBlock (LevelBlockStore I) d' (sb_Hash b) = Inr (wire_block b)"
    "BS_GetBlockByHeight (LevelBlockStore I) d' (sb_Height b) = Inr (wire_block b)"
    "BS_GetTip (LevelBlockStore I) d' = Inr (sb_Hash b)"
  using lbs.commit_ok [OF assms] lbs.get_present lbs.get_height_present lbs.get_tip_present
  by auto

text \<open>A block with a payload nested so deep that the stored text is refused when it is read back.\<close>

lemma chain_deep:
  assumes "bc_AddBlock (LevelBlockStore I) b bc = (bc', Inr u)" "sb_Hash b \<noteq> []"
    and "Some t \<in> set (sb_list b)" "max_nesting < jdepth (enc_raw (tx_Payload t)) + 3"
    and "\<And>tx. Some tx \<in> set (sb_list b) \<Longrightarrow> tx_ok tx"
  shows "bc_Init (LevelBlockStore I) (NewBlockchain (bc_store bc')) =
    (NewBlockchain (bc_store bc'), Inl (Wrapf ''load tip block'' JSONError))"
proof -
  obtain d where d: "BS_CommitBlock (LevelBlockStore I) (bc_store bc) b = (d, Inr ())"
    "bc' = \<lparr>bc_store = d, bc_tip = Some b, bc_height = sb_Height b\<rparr>"
    by (rule lbs.AddBlock_parts [OF assms(1)])
  then have "\<alpha> d = fold apply_op [BatchSet (block_key (sb_Hash b)) (marshal enc_block b),
      BatchSet (height_key (sb_Height b)) (sb_Hash b), BatchSet tip_key (sb_Hash b)] (\<alpha> (bc_store bc))"
    by (intro write_ok) (simp add: LevelBlockStore_def lbs_CommitBlock_def)
  then have "\<alpha> d tip_key = Some (sb_Hash b)" "\<alpha> d (block_key (sb_Hash b)) = Some (marshal enc_block b)"
    by simp_all
  then show ?thesis
    using d(2) assms(2) deep_block_unreadable [OF assms(3-5)]
    by (simp add: bc_Init_def NewBlockchain_def LevelBlockStore_def lbs_GetTip_def lbs_GetBlock_def healthy_get [OF healthy])
qed

end

end
