(* ===== verification/Consensus.thy ===== *)
theory Consensus
  imports Genesis Mempool Chain
begin

text \<open>
  \<open>consensus/poa.go\<close>: whose turn it is, producing a block, and validating one. The node's state is one
  database shared by the world state and the block store, the chain object and the pool.
\<close>

section \<open>The node\<close>

text \<open>
  What a call ends in: a value, an error, \<open>log.Fatalf\<close> (the process exits), or a run-time panic.
\<close>

datatype 'a outcome = Ok 'a | Err error | Fatal | Panic

text \<open>
  The database is the one of the world state; the chain object reads and writes the same one
  (\<open>main.go\<close> passes one LevelDB to both), so \<open>nd_chain\<close> supplies it and \<open>nd_set_chain\<close> takes it back.
\<close>

record 'd node =
  nd_state :: "'d statedb"
  nd_bc :: "'d blockchain"
  nd_pool :: mempool

definition nd_chain :: "'d node \<Rightarrow> 'd blockchain" where
  "nd_chain nd = (nd_bc nd)\<lparr>bc_store := sdb_db (nd_state nd)\<rparr>"

definition nd_set_chain :: "'d blockchain \<Rightarrow> 'd node \<Rightarrow> 'd node" where
  "nd_set_chain bc nd = nd\<lparr>nd_bc := bc, nd_state := (nd_state nd)\<lparr>sdb_db := bc_store bc\<rparr>\<rparr>"

section \<open>Round robin\<close>

text \<open>\<open>Validators[int(height % int64(len))]\<close>; \<open>None\<close> is the panic on a negative index.\<close>

definition proposer_at :: "bytes list \<Rightarrow> int64 \<Rightarrow> bytes option" where
  "proposer_at vs height =
     (let idx = go_rem height (int (length vs)) in if idx < 0 then None else Some (vs ! nat idx))"

definition IsProposer :: "env \<Rightarrow> config \<Rightarrow> bytes \<Rightarrow> 'd node \<Rightarrow> bool option" where
  "IsProposer E cfg priv nd =
     (if cfg_Validators cfg = [] then Some False
      else map_option (\<lambda>v. v = Hex (Public E priv))
        (proposer_at (cfg_Validators cfg) (wrap64 (bc_height (nd_chain nd) + 1))))"

section \<open>Producing a block\<close>

definition ProduceBlock ::
  "env \<Rightarrow> 'd db_iface \<Rightarrow> 'd block_db \<Rightarrow> 'd emitter \<Rightarrow> int64 \<Rightarrow> config \<Rightarrow> bytes \<Rightarrow> 'd node \<Rightarrow> 'd node \<times> block outcome" where
  "ProduceBlock E I B em now cfg priv nd =
     (case IsProposer E cfg priv nd of
        None \<Rightarrow> (nd, Panic)
      | Some False \<Rightarrow> (nd, Err (Errorf ''not the proposer for this round''))
      | Some True \<Rightarrow>
      let limit = (if cfg_MaxBlockTxs cfg \<le> 0 then 500 else cfg_MaxBlockTxs cfg) in
      case pool_Pending limit (nd_pool nd) of
        None \<Rightarrow> (nd, Panic)
      | Some txs \<Rightarrow>
      let (prevHash, nextHeight) =
            (case bc_tip (nd_chain nd) of
               None \<Rightarrow> (GenesisHash, 1)
             | Some tip \<Rightarrow> (sb_Hash tip, wrap64 (hdr_Height (sb_Header tip) + 1)));
          b0 = NewBlock E (gen_ChainID (cfg_Genesis cfg)) nextHeight prevHash (Hex (Public E priv)) txs now in
      case ExecuteBlock E I (Some em) b0 (nd_state nd) of
        (s1, Inl e) \<Rightarrow> (nd\<lparr>nd_state := s1\<rparr>, Err (Wrapf ''execute block'' e))
      | (s1, Inr _) \<Rightarrow>
      let b1 = b0\<lparr>blk_Header := (blk_Header b0)\<lparr>hdr_StateRoot := ComputeRoot E I s1\<rparr>\<rparr>;
          b = blk_Sign E priv b1;
          nd1 = nd\<lparr>nd_state := s1\<rparr> in
      case bc_AddBlock B (store_form False b) (nd_chain nd1) of
        (bc, Inl e) \<Rightarrow> (nd_set_chain bc nd1, Err (Wrapf ''add block'' e))
      | (bc, Inr _) \<Rightarrow>
      let nd2 = nd_set_chain bc nd1 in
      case Commit E I (nd_state nd2) of
        (s2, Inl e) \<Rightarrow> (nd2\<lparr>nd_state := s2\<rparr>, Fatal)
      | (s2, Inr _) \<Rightarrow>
      let ev = \<lparr>ev_Type = EventBlockCommit, ev_TxID = [], ev_BlockHeight = hdr_Height (blk_Header b),
                ev_Data = [(''hash'', DStr (blk_Hash b)), (''txs'', DInt (int (length (blk_Transactions b))))]\<rparr>;
          s3 = emit_event (Some em) ev s2 in
      (nd2\<lparr>nd_state := s3, nd_pool := pool_Remove (map tx_ID txs) (nd_pool nd)\<rparr>, Ok b))"

text \<open>One tick of \<open>Run\<close>: an error of \<open>ProduceBlock\<close> is logged, a panic or \<open>log.Fatalf\<close> ends the process.\<close>

definition poa_tick ::
  "env \<Rightarrow> 'd db_iface \<Rightarrow> 'd block_db \<Rightarrow> 'd emitter \<Rightarrow> int64 \<Rightarrow> config \<Rightarrow> bytes \<Rightarrow> 'd node \<Rightarrow> 'd node \<times> block option outcome" where
  "poa_tick E I B em now cfg priv nd =
     (case IsProposer E cfg priv nd of
        None \<Rightarrow> (nd, Panic)
      | Some False \<Rightarrow> (nd, Ok None)
      | Some True \<Rightarrow>
      case ProduceBlock E I B em now cfg priv nd of
        (nd', Ok b) \<Rightarrow> (nd', Ok (Some b))
      | (nd', Err e) \<Rightarrow> (nd', Ok None)
      | (nd', Fatal) \<Rightarrow> (nd', Fatal)
      | (nd', Panic) \<Rightarrow> (nd', Panic))"

section \<open>Validating a block\<close>

definition maxBlockTimeDrift :: int64 where
  "maxBlockTimeDrift = 15 * 1000000000"

text \<open>\<open>Block.Verify\<close> reads the header, the hash and the signature only.\<close>

definition sb_Verify :: "env \<Rightarrow> bytes \<Rightarrow> stored_block \<Rightarrow> unit result" where
  "sb_Verify E pub b =
     blk_Verify E pub \<lparr>blk_Header = sb_Header b, blk_Transactions = [], blk_Hash = sb_Hash b, blk_Signature = sb_Signature b\<rparr>"

definition validate_link :: "int64 \<Rightarrow> header \<Rightarrow> stored_block option \<Rightarrow> unit outcome" where
  "validate_link now h tip =
     (if wrap64 (now + maxBlockTimeDrift) < hdr_Timestamp h then Err (Errorf ''block timestamp too far in future'')
      else case tip of
        None \<Rightarrow> if \<not> IsGenesisHash (hdr_PrevHash h) then Err (Errorf ''first block must reference genesis prev-hash'') else Ok ()
      | Some tip \<Rightarrow>
      if hdr_PrevHash h \<noteq> sb_Hash tip then Err (Errorf ''prev_hash mismatch'')
      else if hdr_Height h \<noteq> wrap64 (hdr_Height (sb_Header tip) + 1) then Err (Errorf ''height mismatch'')
      else if hdr_Timestamp h < hdr_Timestamp (sb_Header tip) then Err (Errorf ''block timestamp < previous block'')
      else Ok ())"

definition ValidateBlock ::
  "env \<Rightarrow> int64 \<Rightarrow> config \<Rightarrow> stored_block option \<Rightarrow> stored_block \<Rightarrow> unit outcome" where
  "ValidateBlock E now cfg tip b =
     (let h = sb_Header b in
      if cfg_Validators cfg = [] then Err (Errorf ''no validators configured'')
      else if hdr_ChainID h \<noteq> gen_ChainID (cfg_Genesis cfg) then Err (Errorf ''chain ID mismatch'')
      else case proposer_at (cfg_Validators cfg) (hdr_Height h) of
        None \<Rightarrow> Panic
      | Some expected \<Rightarrow>
      if hdr_Proposer h \<noteq> expected then Err (Errorf ''wrong proposer'')
      else case PubKeyFromHex (hdr_Proposer h) of
        Inl e \<Rightarrow> Err (Wrapf ''invalid proposer pubkey'' e)
      | Inr pub \<Rightarrow>
      case sb_Verify E pub b of
        Inl e \<Rightarrow> Err (Wrapf ''block signature invalid'' e)
      | Inr _ \<Rightarrow>
      case block_of b of
        None \<Rightarrow> Panic
      | Some blk \<Rightarrow>
      if hdr_TxRoot h \<noteq> ComputeTxRoot E (blk_Transactions blk) then Err (Errorf ''tx_root mismatch'')
      else validate_link now h tip)"

section \<open>Whose turn it is\<close>

lemma proposer_at_mod:
  "vs \<noteq> [] \<Longrightarrow> 0 \<le> h \<Longrightarrow> proposer_at vs h = Some (vs ! nat (h mod int (length vs)))"
  by (simp add: proposer_at_def go_rem_nonneg Let_def not_less)

lemma go_rem_less:
  assumes "0 < n"
  shows "go_rem a n < n"
proof (cases "a < 0")
  case True
  have "0 \<le> - a mod n" using assms by simp
  then have "- (- a mod n) < n" using assms by linarith
  then show ?thesis using True assms by (simp add: go_rem_def)
next
  case False
  then show ?thesis using assms by (simp add: go_rem_nonneg)
qed

lemma proposer_at_in:
  assumes "vs \<noteq> []" "proposer_at vs h = Some v"
  shows "v \<in> set vs"
proof -
  have "go_rem h (int (length vs)) < int (length vs)" using assms(1) by (intro go_rem_less) simp
  then show ?thesis using assms(2) by (auto simp: proposer_at_def Let_def split: if_splits)
qed

text \<open>A negative height that is no multiple of the number of validators makes the index negative.\<close>

lemma proposer_at_negative:
  assumes "vs \<noteq> []" "h < 0" "\<not> int (length vs) dvd h"
  shows "proposer_at vs h = None"
proof -
  have "- h mod int (length vs) \<noteq> 0" using assms(3) by (simp add: dvd_eq_mod_eq_0 [symmetric])
  moreover have "0 \<le> - h mod int (length vs)" using assms(1) by simp
  ultimately show ?thesis using assms(2) by (simp add: proposer_at_def go_rem_def Let_def)
qed

lemma round_robin:
  assumes "distinct vs" "v \<in> set vs" "0 \<le> h"
  shows "\<exists>!k. k < length vs \<and> proposer_at vs (h + int k) = Some v"
proof -
  define n where "n = int (length vs)"
  have n: "0 < n" using assms(2) by (cases vs) (simp_all add: n_def)
  have p: "proposer_at vs (h + int k) = Some (vs ! nat ((h + int k) mod n))" for k
    using assms(2,3) proposer_at_mod [of vs "h + int k"] by (cases vs) (simp_all add: n_def)
  obtain i where i: "i < length vs" "vs ! i = v" using assms(2) by (auto simp: in_set_conv_nth)
  have iff: "proposer_at vs (h + int k) = Some v \<longleftrightarrow> (h + int k) mod n = int i" for k
  proof -
    have "nat ((h + int k) mod n) < length vs" using n by (simp add: n_def nat_less_iff)
    then show ?thesis
      using p i assms(1) n by (auto simp: nth_eq_iff_index_eq nat_eq_iff)
  qed
  show ?thesis
  proof (rule ex1I [of _ "nat ((int i - h) mod n)"])
    have "(h + (int i - h) mod n) mod n = int i" using i(1) by (simp add: mod_add_right_eq n_def)
    then show "nat ((int i - h) mod n) < length vs \<and> proposer_at vs (h + int (nat ((int i - h) mod n))) = Some v"
      using n iff [of "nat ((int i - h) mod n)"] by (simp add: nat_less_iff) (simp add: n_def)
  next
    fix k
    assume k: "k < length vs \<and> proposer_at vs (h + int k) = Some v"
    then have "(int i - h) mod n = (h + int k - h) mod n" using iff by (metis mod_diff_left_eq)
    then show "k = nat ((int i - h) mod n)" using k by (simp add: n_def)
  qed
qed

lemma ValidateBlock_Ok:
  "ValidateBlock E now cfg tip b = Ok u \<longleftrightarrow>
     (\<exists>pub blk. hdr_ChainID (sb_Header b) = gen_ChainID (cfg_Genesis cfg) \<and> cfg_Validators cfg \<noteq> [] \<and>
        proposer_at (cfg_Validators cfg) (sb_Height b) = Some (hdr_Proposer (sb_Header b)) \<and>
        PubKeyFromHex (hdr_Proposer (sb_Header b)) = Inr pub \<and> block_of b = Some blk \<and>
        blk_Verify E pub blk = Inr () \<and> hdr_TxRoot (sb_Header b) = ComputeTxRoot E (blk_Transactions blk) \<and>
        validate_link now (sb_Header b) tip = Ok ())"
  by (auto simp: ValidateBlock_def sb_Verify_def blk_Verify_def block_of_def Let_def ComputeHash_def
      split: option.splits sum.splits if_splits)

section \<open>What a produced block is\<close>

lemma ProduceBlock_Ok:
  assumes "ProduceBlock E I B em now cfg priv nd = (nd', Ok b)"
  obtains txs prev h s1 bc s2 b0 b1 where
    "IsProposer E cfg priv nd = Some True"
    "pool_Pending (if cfg_MaxBlockTxs cfg \<le> 0 then 500 else cfg_MaxBlockTxs cfg) (nd_pool nd) = Some txs"
    "(prev, h) = (case bc_tip (nd_bc nd) of None \<Rightarrow> (GenesisHash, 1)
       | Some tip \<Rightarrow> (sb_Hash tip, wrap64 (sb_Height tip + 1)))"
    "b0 = NewBlock E (gen_ChainID (cfg_Genesis cfg)) h prev (Hex (Public E priv)) txs now"
    "ExecuteBlock E I (Some em) b0 (nd_state nd) = (s1, Inr ())"
    "b1 = b0\<lparr>blk_Header := (blk_Header b0)\<lparr>hdr_StateRoot := ComputeRoot E I s1\<rparr>\<rparr>" "b = blk_Sign E priv b1"
    "bc_AddBlock B (store_form False b) ((nd_bc nd)\<lparr>bc_store := sdb_db s1\<rparr>) = (bc, Inr ())"
    "Commit E I (s1\<lparr>sdb_db := bc_store bc\<rparr>) = (s2, Inr ())"
    "nd' = \<lparr>nd_state = emit_event (Some em) \<lparr>ev_Type = EventBlockCommit, ev_TxID = [],
        ev_BlockHeight = hdr_Height (blk_Header b),
        ev_Data = [(''hash'', DStr (blk_Hash b)), (''txs'', DInt (int (length (blk_Transactions b))))]\<rparr> s2,
       nd_bc = bc, nd_pool = pool_Remove (map tx_ID txs) (nd_pool nd)\<rparr>"
  using assms
  by (cases nd) (auto simp: ProduceBlock_def Let_def nd_chain_def nd_set_chain_def split: option.splits bool.splits prod.splits
      sum.splits intro: that)

lemma ProduceBlock_Err:
  assumes "ProduceBlock E I B em now cfg priv nd = (nd', Err e)"
  obtains (same) "nd' = nd"
  | (executed) txs prev h s1 b0 r where
    "pool_Pending (if cfg_MaxBlockTxs cfg \<le> 0 then 500 else cfg_MaxBlockTxs cfg) (nd_pool nd) = Some txs"
    "b0 = NewBlock E (gen_ChainID (cfg_Genesis cfg)) h prev (Hex (Public E priv)) txs now"
    "(prev, h) = (case bc_tip (nd_bc nd) of None \<Rightarrow> (GenesisHash, 1)
       | Some tip \<Rightarrow> (sb_Hash tip, wrap64 (sb_Height tip + 1)))"
    "ExecuteBlock E I (Some em) b0 (nd_state nd) = (s1, r)"
    "nd' = nd\<lparr>nd_state := s1\<rparr> \<and> \<not> is_ok r \<or>
     (\<exists>b1 b bc e. b1 = b0\<lparr>blk_Header := (blk_Header b0)\<lparr>hdr_StateRoot := ComputeRoot E I s1\<rparr>\<rparr> \<and> b = blk_Sign E priv b1 \<and>
        bc_AddBlock B (store_form False b) (nd_chain (nd\<lparr>nd_state := s1\<rparr>)) = (bc, Inl e) \<and>
        nd' = nd_set_chain bc (nd\<lparr>nd_state := s1\<rparr>))"
proof (cases "IsProposer E cfg priv nd = Some True")
  case False
  then show ?thesis using assms same by (auto simp: ProduceBlock_def split: option.splits bool.splits)
next
  case True
  define txs where "txs = pool_Pending (if cfg_MaxBlockTxs cfg \<le> 0 then 500 else cfg_MaxBlockTxs cfg) (nd_pool nd)"
  define ph where "ph = (case bc_tip (nd_bc nd) of None \<Rightarrow> (GenesisHash, 1)
     | Some tip \<Rightarrow> (sb_Hash tip, wrap64 (sb_Height tip + 1)))"
  obtain ts where ts: "txs = Some ts"
    using assms True by (cases txs) (auto simp: ProduceBlock_def txs_def [symmetric])
  obtain s1 r where x: "ExecuteBlock E I (Some em) (NewBlock E (gen_ChainID (cfg_Genesis cfg)) (snd ph) (fst ph)
      (Hex (Public E priv)) ts now) (nd_state nd) = (s1, r)" by fastforce
  have ph': "(case bc_tip (nd_chain nd) of None \<Rightarrow> (GenesisHash, 1)
     | Some tip \<Rightarrow> (sb_Hash tip, wrap64 (sb_Height tip + 1))) = (fst ph, snd ph)"
    by (simp add: ph_def nd_chain_def)
  show ?thesis
  proof (rule executed [OF txs_def [symmetric, unfolded ts] refl _ x])
    show "(fst ph, snd ph) = (case bc_tip (nd_bc nd) of None \<Rightarrow> (GenesisHash, 1)
       | Some tip \<Rightarrow> (sb_Hash tip, wrap64 (sb_Height tip + 1)))" by (simp add: ph_def)
  qed (use assms True x in \<open>auto simp: ProduceBlock_def Let_def txs_def [symmetric, unfolded ts] ph' split: prod.splits sum.splits\<close>)
qed

end
