(* ===== verification/Indexer.thy ===== *)
theory Indexer
  imports Consensus
begin

text \<open>
  \<open>indexer/indexer.go\<close>: lists of asset and session IDs kept in the node's database under their own
  prefix and updated by the events of the virtual machine. Errors of a handler are logged and dropped.
\<close>

section \<open>The lists\<close>

definition prefixOwnerAssets :: bytes where "prefixOwnerAssets = ''idx:owner:asset:''"
definition prefixPlayerSession :: bytes where "prefixPlayerSession = ''idx:player:session:''"

text \<open>A \<open>[]string\<close> that may be nil; \<open>null\<close> decodes to nil, a JSON array never does.\<close>

definition dec_ids :: "json \<Rightarrow> bytes list option result" where
  "dec_ids j = (if j = JNull then Inr None else map_result Some (dec_strings [] j))"

definition enc_ids :: "bytes list \<Rightarrow> json" where
  "enc_ids ids = JArr (map enc_string ids)"

definition idx_getList :: "'d db_iface \<Rightarrow> 'd \<Rightarrow> bytes \<Rightarrow> bytes list option result" where
  "idx_getList I d key =
     (case DB_Get I d key of
        Inl e \<Rightarrow> if is_not_found e then Inr None else Inl e
      | Inr data \<Rightarrow>
      case unmarshal dec_ids data of
        Inl e \<Rightarrow> Inl (Wrapf ''indexer unmarshal'' e)
      | Inr ids \<Rightarrow> Inr ids)"

definition ids_list :: "bytes list option \<Rightarrow> bytes list" where
  "ids_list ids = (case ids of None \<Rightarrow> [] | Some xs \<Rightarrow> xs)"

definition idx_addToList :: "'d db_iface \<Rightarrow> bytes \<Rightarrow> bytes \<Rightarrow> 'd \<Rightarrow> 'd \<times> unit result" where
  "idx_addToList I key value d =
     (case idx_getList I d key of
        Inl e \<Rightarrow> (d, Inl (Wrapf ''read list'' e))
      | Inr ids \<Rightarrow>
      if value \<in> set (ids_list ids) then (d, Inr ())
      else DB_Set I d key (marshal enc_ids (ids_list ids @ [value])))"

definition idx_removeFromList :: "'d db_iface \<Rightarrow> bytes \<Rightarrow> bytes \<Rightarrow> 'd \<Rightarrow> 'd \<times> unit result" where
  "idx_removeFromList I key value d =
     (case idx_getList I d key of
        Inl e \<Rightarrow> (d, Inl (Wrapf ''read list'' e))
      | Inr None \<Rightarrow> (d, Inr ())
      | Inr (Some ids) \<Rightarrow> DB_Set I d key (marshal enc_ids (filter (\<lambda>i. i \<noteq> value) ids)))"

definition GetAssetsByOwner :: "'d db_iface \<Rightarrow> 'd \<Rightarrow> bytes \<Rightarrow> bytes list option result" where
  "GetAssetsByOwner I d owner = idx_getList I d (prefixOwnerAssets @ owner)"

definition GetSessionsByPlayer :: "'d db_iface \<Rightarrow> 'd \<Rightarrow> bytes \<Rightarrow> bytes list option result" where
  "GetSessionsByPlayer I d player = idx_getList I d (prefixPlayerSession @ player)"

section \<open>The event handlers\<close>

definition onAssetMinted :: "'d db_iface \<Rightarrow> 'd subscriber" where
  "onAssetMinted I ev d =
     (let owner = data_string ev ''owner''; assetID = data_string ev ''asset_id'' in
      if owner = [] \<or> assetID = [] then (d, False)
      else (fst (idx_addToList I (prefixOwnerAssets @ owner) assetID d), False))"

definition onAssetTransferred :: "'d db_iface \<Rightarrow> 'd subscriber" where
  "onAssetTransferred I ev d =
     (let from = data_string ev ''from''; to = data_string ev ''to''; assetID = data_string ev ''asset_id'' in
      if assetID = [] \<or> from = [] \<or> to = [] then (d, False)
      else let d1 = fst (idx_removeFromList I (prefixOwnerAssets @ from) assetID d)
           in (fst (idx_addToList I (prefixOwnerAssets @ to) assetID d1), False))"

definition onAssetBurned :: "'d db_iface \<Rightarrow> 'd subscriber" where
  "onAssetBurned I ev d =
     (let owner = data_string ev ''owner''; assetID = data_string ev ''asset_id'' in
      if owner = [] \<or> assetID = [] then (d, False)
      else (fst (idx_removeFromList I (prefixOwnerAssets @ owner) assetID d), False))"

text \<open>An element \<open>p.(string)\<close> of the player list.\<close>

fun dyn_string :: "dyn \<Rightarrow> bytes" where
  "dyn_string (DStr s) = s"
| "dyn_string _ = []"

definition onSessionOpen :: "'d db_iface \<Rightarrow> 'd subscriber" where
  "onSessionOpen I ev d =
     (let sessionID = data_string ev ''session_id''; players = data_anys ev ''players'' in
      if sessionID = [] then (d, False)
      else (foldl (\<lambda>d p. let player = dyn_string p in
              if player \<noteq> [] then fst (idx_addToList I (prefixPlayerSession @ player) sessionID d) else d) d players,
            False))"

definition NewIndexer :: "'d db_iface \<Rightarrow> 'd emitter \<Rightarrow> 'd emitter" where
  "NewIndexer I em =
     Subscribe EventSessionOpen (onSessionOpen I)
       (Subscribe EventAssetBurned (onAssetBurned I)
         (Subscribe EventAssetTransfer (onAssetTransferred I)
           (Subscribe EventAssetMinted (onAssetMinted I) em)))"

section \<open>The indexer keeps to its own keys\<close>

definition index_key :: "bytes \<Rightarrow> bool" where
  "index_key k \<longleftrightarrow> has_prefix ''idx:'' k"

lemma index_keys [simp]:
  "index_key (prefixOwnerAssets @ k)" "index_key (prefixPlayerSession @ k)"
  "\<not> index_key (block_key h)" "\<not> index_key (height_key i)" "\<not> index_key tip_key"
  by (auto simp: index_key_def has_prefix_def prefixOwnerAssets_def prefixPlayerSession_def
      block_key_def height_key_def tip_key_def)

lemma state_not_index: "state_key k \<Longrightarrow> \<not> index_key k"
  by (cases k) (auto simp: index_key_def has_prefix_def state_key_def statePrefixes_def prefix_defs)

text \<open>A step of the database that changes at most the indexer's keys.\<close>

definition index_step :: "('d \<Rightarrow> bytes \<rightharpoonup> bytes) \<Rightarrow> 'd \<Rightarrow> 'd \<Rightarrow> bool" where
  "index_step \<alpha> d d' \<longleftrightarrow> (\<forall>k. \<not> index_key k \<longrightarrow> \<alpha> d' k = \<alpha> d k)"

lemma index_step_refl [simp]: "index_step \<alpha> d d"
  by (simp add: index_step_def)

lemma index_step_trans: "index_step \<alpha> d e \<Longrightarrow> index_step \<alpha> e f \<Longrightarrow> index_step \<alpha> d f"
  by (simp add: index_step_def)

definition index_emitter :: "('d \<Rightarrow> bytes \<rightharpoonup> bytes) \<Rightarrow> 'd emitter \<Rightarrow> bool" where
  "index_emitter \<alpha> em \<longleftrightarrow> (\<forall>t. \<forall>h\<in>set (handlers_of em t). \<forall>ev d. index_step \<alpha> d (fst (h ev d)))"

lemma foldl_index_step:
  assumes "\<And>d x. x \<in> set xs \<Longrightarrow> index_step \<alpha> d (f d x)"
  shows "index_step \<alpha> d (foldl f d xs)"
  using assms
proof (induction xs arbitrary: d)
  case (Cons x xs)
  have "index_step \<alpha> d (f d x)" "index_step \<alpha> (f d x) (foldl f (f d x) xs)" using Cons by simp_all
  then show ?case using index_step_trans by simp
qed simp

lemma index_emitter_New [simp]: "index_emitter \<alpha> NewEmitter"
  by (simp add: index_emitter_def)

lemma index_emitter_Subscribe:
  "index_emitter \<alpha> em \<Longrightarrow> (\<And>ev d. index_step \<alpha> d (fst (h ev d))) \<Longrightarrow> index_emitter \<alpha> (Subscribe t h em)"
  by (auto simp: index_emitter_def)

lemma Emit_index_step: "index_emitter \<alpha> em \<Longrightarrow> index_step \<alpha> d (Emit em ev d)"
  unfolding Emit_def by (rule foldl_index_step) (simp add: index_emitter_def)

context kv_db
begin

lemma Set_index_step: "index_key k \<Longrightarrow> index_step \<alpha> d (fst (DB_Set I d k v))"
  using set_ok [of d k v] set_error [of d k v]
  by (cases "DB_Set I d k v"; cases "snd (DB_Set I d k v)") (auto simp: index_step_def)

lemma list_index_step:
  "index_key k \<Longrightarrow> index_step \<alpha> d (fst (idx_addToList I k v d))"
  "index_key k \<Longrightarrow> index_step \<alpha> d (fst (idx_removeFromList I k v d))"
  by (auto simp: idx_addToList_def idx_removeFromList_def Set_index_step split: sum.split option.split)

lemma move_index_step:
  "index_key j \<Longrightarrow> index_key k \<Longrightarrow> index_step \<alpha> d (fst (idx_addToList I k v (fst (idx_removeFromList I j w d))))"
  by (rule index_step_trans [OF list_index_step(2) list_index_step(1)])

lemma NewIndexer_index: "index_emitter \<alpha> em \<Longrightarrow> index_emitter \<alpha> (NewIndexer I em)"
  unfolding NewIndexer_def
  by (intro index_emitter_Subscribe)
    (auto simp: onAssetMinted_def onAssetTransferred_def onAssetBurned_def onSessionOpen_def Let_def
      list_index_step move_index_step intro!: foldl_index_step)

end

context healthy_db
begin

lemma index_step_keeps: "index_step \<alpha> d d' \<Longrightarrow> db_keeps I d d'"
  by (simp add: index_step_def db_keeps_def healthy_get [OF healthy] state_not_index)

lemma index_emitter_ok: "index_emitter \<alpha> em \<Longrightarrow> emitter_ok I em"
  by (auto simp: index_emitter_def emitter_ok_def subscriber_ok_def intro: index_step_keeps)

end

section \<open>Execution changes only the indexer's keys of the store\<close>

definition index_events :: "('d \<Rightarrow> bytes \<rightharpoonup> bytes) \<Rightarrow> 'd emitter option \<Rightarrow> bool" where
  "index_events \<alpha> em \<longleftrightarrow> (\<forall>e. em = Some e \<longrightarrow> index_emitter \<alpha> e)"

lemma emit_event_index:
  "index_events \<alpha> em \<Longrightarrow> index_step \<alpha> d (sdb_db s) \<Longrightarrow> index_step \<alpha> d (sdb_db (emit_event em ev s))"
  by (cases em) (auto simp: emit_event_def index_events_def intro: index_step_trans Emit_index_step)

lemma ctx_emit_index:
  "index_events \<alpha> (ctx_Emitter ctx) \<Longrightarrow> index_step \<alpha> d (sdb_db s) \<Longrightarrow> index_step \<alpha> d (sdb_db (ctx_emit ctx t dat s))"
  by (simp add: ctx_emit_def emit_event_index)

lemma lock_stakes_db: "lock_stakes I stakes ps s = (s', r) \<Longrightarrow> sdb_db s' = sdb_db s"
  by (induction ps arbitrary: s) (fastforce split: sum.splits if_splits)+

lemma pay_rewards_db: "pay_rewards I krs s = (s', r) \<Longrightarrow> sdb_db s' = sdb_db s"
  by (induction krs arbitrary: s) (fastforce split: sum.splits if_splits)+

lemma reg_Execute_index:
  assumes "reg_Execute globalRegistry ty ctx p s = (s', Inr u)" "index_events \<alpha> (ctx_Emitter ctx)"
  shows "index_step \<alpha> (sdb_db s) (sdb_db s')"
  using assms(1)
proof (cases rule: reg_Execute_cases)
  case session_open
  from session_open(2) assms(2) show ?thesis
    by (elim handleSessionOpen_ok) (auto split: if_splits dest: lock_stakes_db intro!: ctx_emit_index)
next
  case session_result
  from session_result(2) assms(2) show ?thesis
    by (elim handleSessionResult_ok) (auto dest: pay_rewards_db intro!: ctx_emit_index)
qed (use assms(2) in \<open>auto elim!: handleTransfer_ok handleMintAsset_ok handleBurnAsset_ok
      handleTransferAsset_ok handleRegisterTemplate_ok handleListMarket_ok handleBuyMarket_ok intro!: ctx_emit_index\<close>)

lemma ExecuteTx_index:
  assumes "ExecuteTx E I em block tx s = (s', r)" "index_events \<alpha> em"
  shows "index_step \<alpha> (sdb_db s) (sdb_db s')"
proof (cases r)
  case (Inl e)
  then show ?thesis
    using assms by (cases rule: ExecuteTx_cases [of E tx I em block s]) auto
next
  case (Inr u)
  from assms(1) [unfolded Inr] show ?thesis
  proof (rule ExecuteTx_parts)
    fix s1 s2
    assume c: "charge_fee I block tx (fst (Snapshot s)) = (s1, Inr ())"
      and r: "reg_Execute globalRegistry (tx_Type tx)
        \<lparr>ctx_Env = E, ctx_DB = I, ctx_Block = block, ctx_Tx = tx, ctx_Emitter = em\<rparr> (tx_Payload tx) s1 = (s2, Inr ())"
      and s': "s' = emit_event em \<lparr>ev_Type = EventTxExecuted, ev_TxID = tx_ID tx,
        ev_BlockHeight = hdr_Height (blk_Header block),
        ev_Data = [(''type'', DStr (tx_Type tx)), (''from'', DStr (tx_From tx))]\<rparr> s2"
    have "sdb_db s1 = sdb_db s" using charge_fee_keeps(2) [of I block tx "fst (Snapshot s)"] c by (simp add: Snapshot_simps)
    then show ?thesis using reg_Execute_index [OF r, of \<alpha>] assms(2) s' by (simp add: emit_event_index)
  qed
qed

lemma execute_txs_index:
  "execute_txs E I em block txs s = (s', r) \<Longrightarrow> index_events \<alpha> em \<Longrightarrow> index_step \<alpha> (sdb_db s) (sdb_db s')"
proof (induction txs arbitrary: s)
  case (Cons tx txs)
  obtain s1 r1 where 1: "ExecuteTx E I em block tx s = (s1, r1)" by fastforce
  note step = ExecuteTx_index [OF 1 Cons.prems(2)]
  show ?case
  proof (cases r1)
    case (Inr u)
    then have "index_step \<alpha> (sdb_db s1) (sdb_db s')" using Cons 1 by simp
    with step show ?thesis by (rule index_step_trans)
  qed (use Cons.prems 1 step in simp)
qed simp

end
