(* ===== verification/Network.thy ===== *)
theory Network
  imports Indexer
begin

text \<open>
  \<open>network/peer.go\<close>, \<open>network/node.go\<close> and \<open>network/sync.go\<close>: messages and their frames on a
  connection, the peers of a node and the handlers that run when a message arrives. A handler acts on the
  node (state, chain, pool) and on the peer it answers to.
\<close>

section \<open>Messages\<close>

definition MsgHello :: bytes where "MsgHello = ''hello''"
definition MsgTx :: bytes where "MsgTx = ''tx''"
definition MsgBlock :: bytes where "MsgBlock = ''block''"
definition MsgGetBlocks :: bytes where "MsgGetBlocks = ''get_blocks''"
definition MsgBlocks :: bytes where "MsgBlocks = ''blocks''"

lemmas msg_type_defs = MsgHello_def MsgTx_def MsgBlock_def MsgGetBlocks_def MsgBlocks_def

record message =
  msg_Type :: bytes
  msg_Payload :: "json option"

definition enc_message :: "message \<Rightarrow> json" where
  "enc_message m = JObj [(''type'', enc_string (msg_Type m)), (''payload'', enc_raw (msg_Payload m))]"

definition message_field :: "bytes \<Rightarrow> json \<Rightarrow> message \<Rightarrow> message result" where
  "message_field k v m =
     (if k = ''type'' then map_result (\<lambda>x. m\<lparr>msg_Type := x\<rparr>) (dec_string (msg_Type m) v)
      else Inr (m\<lparr>msg_Payload := Some v\<rparr>))"

definition dec_message :: "json \<Rightarrow> message result" where
  "dec_message = decode_struct [''type'', ''payload''] message_field \<lparr>msg_Type = [], msg_Payload = None\<rparr>"

section \<open>Peers\<close>

text \<open>
  A \<open>net.Conn\<close>: setting the deadlines, writing, reading exactly \<open>n\<close> bytes (\<open>io.ReadFull\<close>) and
  closing.
\<close>

record 'c conn_iface =
  conn_SetWriteDeadline :: "'c \<Rightarrow> unit result"
  conn_Write :: "'c \<Rightarrow> bytes \<Rightarrow> 'c \<times> unit result"
  conn_SetReadDeadline :: "'c \<Rightarrow> unit result"
  conn_ReadFull :: "'c \<Rightarrow> nat \<Rightarrow> 'c \<times> bytes result"
  conn_Close :: "'c \<Rightarrow> 'c"

record 'c peer =
  peer_ID :: bytes
  peer_Addr :: bytes
  peer_conn :: 'c
  peer_closed :: bool

definition NewPeer :: "bytes \<Rightarrow> bytes \<Rightarrow> 'c \<Rightarrow> 'c peer" where
  "NewPeer i addr conn = \<lparr>peer_ID = i, peer_Addr = addr, peer_conn = conn, peer_closed = False\<rparr>"

text \<open>\<open>dial\<close> is \<open>net.Dial\<close> or \<open>tls.Dial\<close>, whichever the configuration selects.\<close>

definition Connect :: "(bytes \<Rightarrow> 'c result) \<Rightarrow> bytes \<Rightarrow> bytes \<Rightarrow> 'c peer result" where
  "Connect dial i addr =
     (case dial addr of
        Inl e \<Rightarrow> Inl (Wrapf ''connect'' e)
      | Inr conn \<Rightarrow> Inr (NewPeer i addr conn))"

definition peer_Send :: "'c conn_iface \<Rightarrow> message \<Rightarrow> 'c peer \<Rightarrow> 'c peer \<times> unit result" where
  "peer_Send C msg p =
     (let data = marshal enc_message msg in
      if peer_closed p then (p, Inl (Errorf ''peer closed''))
      else case conn_SetWriteDeadline C (peer_conn p) of
        Inl e \<Rightarrow> (p, Inl (Wrapf ''set write deadline'' e))
      | Inr _ \<Rightarrow>
      case conn_Write C (peer_conn p) (be32 (length data)) of
        (c, Inl e) \<Rightarrow> (p\<lparr>peer_conn := c\<rparr>, Inl e)
      | (c, Inr _) \<Rightarrow>
      case conn_Write C c data of (c', r) \<Rightarrow> (p\<lparr>peer_conn := c'\<rparr>, r))"

definition max_message :: nat where
  "max_message = 10 * 1024 * 1024"

definition peer_Receive :: "'c conn_iface \<Rightarrow> 'c peer \<Rightarrow> 'c peer \<times> message result" where
  "peer_Receive C p =
     (case conn_SetReadDeadline C (peer_conn p) of
        Inl e \<Rightarrow> (p, Inl (Wrapf ''set read deadline'' e))
      | Inr _ \<Rightarrow>
      case conn_ReadFull C (peer_conn p) 4 of
        (c, Inl e) \<Rightarrow> (p\<lparr>peer_conn := c\<rparr>, Inl e)
      | (c, Inr header) \<Rightarrow>
      let len = from_be32 header in
      if max_message < len then (p\<lparr>peer_conn := c\<rparr>, Inl (Errorf ''message too large''))
      else case conn_ReadFull C c len of
        (c', Inl e) \<Rightarrow> (p\<lparr>peer_conn := c'\<rparr>, Inl e)
      | (c', Inr buf) \<Rightarrow> (p\<lparr>peer_conn := c'\<rparr>, unmarshal dec_message buf))"

definition peer_Close :: "'c conn_iface \<Rightarrow> 'c peer \<Rightarrow> 'c peer" where
  "peer_Close C p =
     (if peer_closed p then p else p\<lparr>peer_closed := True, peer_conn := conn_Close C (peer_conn p)\<rparr>)"

section \<open>The node's peers and handlers\<close>

text \<open>A handler gets the time, the peer and the message; it may panic or end the process.\<close>

type_synonym ('s, 'c) msg_handler = "int64 \<Rightarrow> 'c peer \<Rightarrow> message \<Rightarrow> 's \<Rightarrow> 's \<times> 'c peer \<times> unit outcome"

record ('s, 'c) p2p =
  p2p_nodeID :: bytes
  p2p_maxPeers :: int
  p2p_peers :: "'c peer gomap"
  p2p_handlers :: "(bytes, ('s, 'c) msg_handler) fmap"

definition DefaultMaxPeers :: int where "DefaultMaxPeers = 50"

definition p2p_Handle :: "bytes \<Rightarrow> ('s, 'c) msg_handler \<Rightarrow> ('s, 'c) p2p \<Rightarrow> ('s, 'c) p2p" where
  "p2p_Handle t h n = n\<lparr>p2p_handlers := fmupd t h (p2p_handlers n)\<rparr>"

definition handleTx :: "env \<Rightarrow> ('d node, 'c) msg_handler" where
  "handleTx E now peer msg nd =
     (case unmarshal_raw dec_transaction (msg_Payload msg) of
        Inl e \<Rightarrow> (nd, peer, Ok ())
      | Inr tx \<Rightarrow> (nd\<lparr>nd_pool := fst (pool_Add E now tx (nd_pool nd))\<rparr>, peer, Ok ()))"

definition NewNode :: "env \<Rightarrow> bytes \<Rightarrow> ('d node, 'c) p2p" where
  "NewNode E nodeID = p2p_Handle MsgTx (handleTx E)
     \<lparr>p2p_nodeID = nodeID, p2p_maxPeers = DefaultMaxPeers, p2p_peers = fmempty, p2p_handlers = fmempty\<rparr>"

definition p2p_Peer :: "bytes \<Rightarrow> ('s, 'c) p2p \<Rightarrow> 'c peer option" where
  "p2p_Peer i n = fmlookup (p2p_peers n) i"

text \<open>The announcement \<open>map[string]string\{"node_id": ...\}\<close>; what it says of a failed send is a log line.\<close>

definition hello_message :: "bytes \<Rightarrow> message" where
  "hello_message nodeID = \<lparr>msg_Type = MsgHello, msg_Payload = Some (JObj [(''node_id'', enc_string nodeID)])\<rparr>"

definition AddPeer ::
  "'c conn_iface \<Rightarrow> (bytes \<Rightarrow> 'c result) \<Rightarrow> bytes \<Rightarrow> bytes \<Rightarrow> ('s, 'c) p2p \<Rightarrow> ('s, 'c) p2p \<times> unit result" where
  "AddPeer C dial i addr n =
     (case Connect dial i addr of
        Inl e \<Rightarrow> (n, Inl e)
      | Inr peer \<Rightarrow>
      (n\<lparr>p2p_peers := fmupd i (fst (peer_Send C (hello_message (p2p_nodeID n)) peer)) (p2p_peers n)\<rparr>, Inr ()))"

text \<open>One connection of \<open>acceptLoop\<close>; a connection over the limit is closed.\<close>

definition accept_conn :: "'c conn_iface \<Rightarrow> bytes \<Rightarrow> 'c \<Rightarrow> ('s, 'c) p2p \<Rightarrow> ('s, 'c) p2p \<times> 'c option" where
  "accept_conn C addr conn n =
     (if p2p_maxPeers n \<le> int (fcard (fmdom (p2p_peers n))) then (n, Some (conn_Close C conn))
      else (n\<lparr>p2p_peers := fmupd addr (NewPeer addr addr conn) (p2p_peers n)\<rparr>, None))"

definition Broadcast :: "'c conn_iface \<Rightarrow> message \<Rightarrow> ('s, 'c) p2p \<Rightarrow> ('s, 'c) p2p" where
  "Broadcast C msg n = n\<lparr>p2p_peers := fmmap (\<lambda>p. fst (peer_Send C msg p)) (p2p_peers n)\<rparr>"

definition BroadcastTx :: "'c conn_iface \<Rightarrow> transaction \<Rightarrow> ('s, 'c) p2p \<Rightarrow> ('s, 'c) p2p" where
  "BroadcastTx C tx = Broadcast C \<lparr>msg_Type = MsgTx, msg_Payload = Some (enc_transaction tx)\<rparr>"

definition BroadcastBlock :: "'c conn_iface \<Rightarrow> stored_block \<Rightarrow> ('s, 'c) p2p \<Rightarrow> ('s, 'c) p2p" where
  "BroadcastBlock C b = Broadcast C \<lparr>msg_Type = MsgBlock, msg_Payload = Some (enc_block b)\<rparr>"

text \<open>\<open>Stop\<close> closes every peer.\<close>

definition p2p_Stop :: "'c conn_iface \<Rightarrow> ('s, 'c) p2p \<Rightarrow> ('s, 'c) p2p" where
  "p2p_Stop C n = n\<lparr>p2p_peers := fmmap (peer_Close C) (p2p_peers n)\<rparr>"

text \<open>
  \<open>readLoop\<close>: messages are handled one after another until a read fails; a panic of a handler is
  recovered and ends the loop, \<open>log.Fatalf\<close> ends the process. At the end the peer is closed and
  forgotten (\<open>peer_gone\<close>). The first argument is fuel; \<open>None\<close> means it has run out.
\<close>

fun readLoop ::
  "nat \<Rightarrow> 'c conn_iface \<Rightarrow> (bytes, ('s, 'c) msg_handler) fmap \<Rightarrow> (nat \<Rightarrow> int64) \<Rightarrow> 'c peer \<Rightarrow> 's \<Rightarrow>
   ('s \<times> 'c peer \<times> unit outcome) option" where
  "readLoop 0 C hs clock p s = None"
| "readLoop (Suc n) C hs clock p s =
     (case peer_Receive C p of
        (p1, Inl e) \<Rightarrow> Some (s, peer_Close C p1, Ok ())
      | (p1, Inr msg) \<Rightarrow>
      case fmlookup hs (msg_Type msg) of
        None \<Rightarrow> readLoop n C hs clock p1 s
      | Some h \<Rightarrow>
      case h (clock n) p1 msg s of
        (s', p2, Fatal) \<Rightarrow> Some (s', p2, Fatal)
      | (s', p2, Panic) \<Rightarrow> Some (s', peer_Close C p2, Ok ())
      | (s', p2, _) \<Rightarrow> readLoop n C hs clock p2 s')"

definition peer_gone :: "bytes \<Rightarrow> ('s, 'c) p2p \<Rightarrow> ('s, 'c) p2p" where
  "peer_gone i n = n\<lparr>p2p_peers := fmdrop i (p2p_peers n)\<rparr>"

section \<open>Synchronisation\<close>

record get_blocks_request =
  gb_FromHeight :: int64
  gb_Limit :: int64

definition enc_get_blocks :: "get_blocks_request \<Rightarrow> json" where
  "enc_get_blocks r = JObj [(''from_height'', enc_int64 (gb_FromHeight r)), (''limit'', enc_int64 (gb_Limit r))]"

definition get_blocks_field :: "bytes \<Rightarrow> json \<Rightarrow> get_blocks_request \<Rightarrow> get_blocks_request result" where
  "get_blocks_field k v r =
     (if k = ''from_height'' then map_result (\<lambda>x. r\<lparr>gb_FromHeight := x\<rparr>) (dec_int64 (gb_FromHeight r) v)
      else map_result (\<lambda>x. r\<lparr>gb_Limit := x\<rparr>) (dec_int64 (gb_Limit r) v))"

definition dec_get_blocks :: "json \<Rightarrow> get_blocks_request result" where
  "dec_get_blocks = decode_struct [''from_height'', ''limit''] get_blocks_field \<lparr>gb_FromHeight = 0, gb_Limit = 0\<rparr>"

type_synonym blocks_response = "stored_block option list option"

definition enc_blocks :: "blocks_response \<Rightarrow> json" where
  "enc_blocks bs = JObj [(''blocks'', enc_slice (enc_ptr enc_block) bs)]"

definition blocks_field :: "bytes \<Rightarrow> json \<Rightarrow> blocks_response \<Rightarrow> blocks_response result" where
  "blocks_field k v bs = dec_ptrs dec_block_into zero_block bs v"

definition dec_blocks :: "json \<Rightarrow> blocks_response result" where
  "dec_blocks = decode_struct [''blocks''] blocks_field None"

definition RequestBlocks :: "'c conn_iface \<Rightarrow> int64 \<Rightarrow> 'c peer \<Rightarrow> 'c peer \<times> unit result" where
  "RequestBlocks C fromHeight p =
     peer_Send C \<lparr>msg_Type = MsgGetBlocks,
       msg_Payload = Some (enc_get_blocks \<lparr>gb_FromHeight = fromHeight, gb_Limit = 50\<rparr>)\<rparr> p"

definition handleHello :: "'c conn_iface \<Rightarrow> ('d node, 'c) msg_handler" where
  "handleHello C now peer msg nd =
     (nd, fst (RequestBlocks C (wrap64 (bc_height (nd_bc nd) + 1)) peer), Ok ())"

definition SyncWithPeer :: "'c conn_iface \<Rightarrow> 'd node \<Rightarrow> 'c peer \<Rightarrow> 'c peer" where
  "SyncWithPeer C nd peer = fst (RequestBlocks C (wrap64 (bc_height (nd_bc nd) + 1)) peer)"

text \<open>The loop of \<open>handleGetBlocks\<close> from height \<open>h\<close> up to \<open>upper\<close>, which it reaches after at most \<open>n\<close> steps.\<close>

fun collect_blocks :: "'d block_db \<Rightarrow> 'd blockchain \<Rightarrow> int64 \<Rightarrow> nat \<Rightarrow> int64 \<Rightarrow> stored_block list" where
  "collect_blocks B bc upper 0 h = []"
| "collect_blocks B bc upper (Suc n) h =
     (if h < upper then
        case bc_GetBlockByHeight B bc h of
          Inl e \<Rightarrow> []
        | Inr b \<Rightarrow> b # collect_blocks B bc upper n (wrap64 (h + 1))
      else [])"

definition handleGetBlocks :: "'d block_db \<Rightarrow> 'c conn_iface \<Rightarrow> ('d node, 'c) msg_handler" where
  "handleGetBlocks B C now peer msg nd =
     (case unmarshal_raw dec_get_blocks (msg_Payload msg) of
        Inl e \<Rightarrow> (nd, peer, Ok ())
      | Inr req \<Rightarrow>
      let limit = (if gb_Limit req \<le> 0 \<or> 200 < gb_Limit req then 50 else gb_Limit req);
          from_h = gb_FromHeight req;
          blocks = collect_blocks B (nd_chain nd) (wrap64 (from_h + limit)) (nat limit) from_h in
      (nd, fst (peer_Send C \<lparr>msg_Type = MsgBlocks, msg_Payload = Some (enc_blocks (Some (map Some blocks)))\<rparr> peer), Ok ()))"

text \<open>
  One block of \<open>handleBlocks\<close>, for a syncer with validator, executor and state, as \<open>main.go\<close> makes
  it. \<open>Ok True\<close> goes on with the next block, \<open>Ok False\<close> returns. A nil block is dereferenced; a nil
  transaction is found by the validator.
\<close>

definition revert_sync :: "bool \<Rightarrow> nat \<Rightarrow> 'd node \<Rightarrow> 'd node \<times> bool outcome" where
  "revert_sync go_on snapID nd =
     (case RevertToSnapshot (nd_state nd) (int snapID) of
        (s, Inl e) \<Rightarrow> (nd\<lparr>nd_state := s\<rparr>, Fatal)
      | (s, Inr _) \<Rightarrow> (nd\<lparr>nd_state := s\<rparr>, Ok go_on))"

definition sync_block ::
  "env \<Rightarrow> 'd db_iface \<Rightarrow> 'd block_db \<Rightarrow> 'd emitter \<Rightarrow> int64 \<Rightarrow> config \<Rightarrow> stored_block option \<Rightarrow> 'd node \<Rightarrow>
   'd node \<times> bool outcome" where
  "sync_block E I B em now cfg ob nd =
     (case ob of None \<Rightarrow> (nd, Panic) | Some b \<Rightarrow>
      case ValidateBlock E now cfg (bc_tip (nd_bc nd)) b of
        Err e \<Rightarrow> (nd, Ok False)
      | Panic \<Rightarrow> (nd, Panic)
      | Fatal \<Rightarrow> (nd, Fatal)
      | Ok _ \<Rightarrow>
      case block_of b of None \<Rightarrow> (nd, Panic) | Some blk \<Rightarrow>
      let (s1, snapID) = Snapshot (nd_state nd) in
      case ExecuteBlock E I (Some em) blk s1 of
        (s2, Inl e) \<Rightarrow> revert_sync True snapID (nd\<lparr>nd_state := s2\<rparr>)
      | (s2, Inr _) \<Rightarrow>
      let computedRoot = ComputeRoot E I s2; nd1 = nd\<lparr>nd_state := s2\<rparr> in
      if hdr_StateRoot (sb_Header b) \<noteq> [] \<and> computedRoot \<noteq> hdr_StateRoot (sb_Header b) then revert_sync False snapID nd1
      else case bc_AddBlock B b (nd_chain nd1) of
        (bc, Inl e) \<Rightarrow> revert_sync True snapID (nd_set_chain bc nd1)
      | (bc, Inr _) \<Rightarrow>
      let nd2 = nd_set_chain bc nd1 in
      case Commit E I (nd_state nd2) of
        (s3, Inl e) \<Rightarrow> (nd2\<lparr>nd_state := s3\<rparr>, Fatal)
      | (s3, Inr _) \<Rightarrow> (nd2\<lparr>nd_state := s3\<rparr>, Ok True))"

fun sync_blocks ::
  "env \<Rightarrow> 'd db_iface \<Rightarrow> 'd block_db \<Rightarrow> 'd emitter \<Rightarrow> int64 \<Rightarrow> config \<Rightarrow> stored_block option list \<Rightarrow> 'd node \<Rightarrow>
   'd node \<times> bool outcome" where
  "sync_blocks E I B em now cfg [] nd = (nd, Ok True)"
| "sync_blocks E I B em now cfg (ob # bs) nd =
     (case sync_block E I B em now cfg ob nd of
        (nd', Ok True) \<Rightarrow> sync_blocks E I B em now cfg bs nd'
      | (nd', r) \<Rightarrow> (nd', r))"

definition handleBlocks ::
  "env \<Rightarrow> 'd db_iface \<Rightarrow> 'd block_db \<Rightarrow> 'd emitter \<Rightarrow> config \<Rightarrow> 'c conn_iface \<Rightarrow> ('d node, 'c) msg_handler" where
  "handleBlocks E I B em cfg C now peer msg nd =
     (case unmarshal_raw dec_blocks (msg_Payload msg) of
        Inl e \<Rightarrow> (nd, peer, Ok ())
      | Inr resp \<Rightarrow>
      let blocks = (case resp of None \<Rightarrow> [] | Some bs \<Rightarrow> bs) in
      case sync_blocks E I B em now cfg blocks nd of
        (nd', Ok True) \<Rightarrow>
          if 50 \<le> length blocks
          then (nd', fst (RequestBlocks C (wrap64 (bc_height (nd_bc nd') + 1)) peer), Ok ())
          else (nd', peer, Ok ())
      | (nd', Ok False) \<Rightarrow> (nd', peer, Ok ())
      | (nd', Err e) \<Rightarrow> (nd', peer, Err e)
      | (nd', Fatal) \<Rightarrow> (nd', peer, Fatal)
      | (nd', Panic) \<Rightarrow> (nd', peer, Panic))"

definition NewSyncer ::
  "env \<Rightarrow> 'd db_iface \<Rightarrow> 'd block_db \<Rightarrow> 'd emitter \<Rightarrow> config \<Rightarrow> 'c conn_iface \<Rightarrow> ('d node, 'c) p2p \<Rightarrow> ('d node, 'c) p2p" where
  "NewSyncer E I B em cfg C n =
     p2p_Handle MsgBlocks (handleBlocks E I B em cfg C)
       (p2p_Handle MsgGetBlocks (handleGetBlocks B C) (p2p_Handle MsgHello (handleHello C) n))"

end
