(* ===== verification/NodeInv.thy ===== *)
theory NodeInv
  imports Network
begin

text \<open>
  The invariant of a running node and that producing a block, synchronising and receiving transactions
  keep it: the state is a run of the ledger, the store holds a linked chain whose tip the chain object
  knows, and the pool is a queue of verified transactions.
\<close>

section \<open>Snapshots across a block\<close>

lemma ExecuteTx_snapshots:
  assumes "ExecuteTx E I em block tx s = (s', r)"
  shows "\<exists>ns. sdb_snapshots s' = sdb_snapshots s @ ns"
proof (cases rule: ExecuteTx_cases [of E tx I em block s])
  case (done_ok s2)
  have "sdb_snapshots s2 = sdb_snapshots (fst (Snapshot s))"
    using applyTx_frame [of "fst (Snapshot s)" E I em block tx] done_ok(2) by (simp add: frame_def)
  then show ?thesis using done_ok(3) assms by (auto simp: Snapshot_simps)
qed (use assms in auto)

lemma execute_txs_snapshots:
  "execute_txs E I em block txs s = (s', r) \<Longrightarrow> \<exists>ns. sdb_snapshots s' = sdb_snapshots s @ ns"
proof (induction txs arbitrary: s)
  case (Cons tx txs)
  obtain s1 r1 where 1: "ExecuteTx E I em block tx s = (s1, r1)" by fastforce
  obtain ns where ns: "sdb_snapshots s1 = sdb_snapshots s @ ns" using ExecuteTx_snapshots [OF 1] by blast
  show ?case
  proof (cases r1)
    case (Inr u)
    then have "execute_txs E I em block txs s1 = (s', r)" using Cons.prems 1 by simp
    from Cons.IH [OF this] ns show ?thesis by auto
  qed (use Cons.prems 1 ns in auto)
qed simp

text \<open>So the revert of the syncer always succeeds and restores everything but the indexer's entries.\<close>

lemma revert_block:
  assumes "Snapshot s = (s1, snapID)" "\<exists>ns. sdb_snapshots s2 = sdb_snapshots s1 @ ns"
  shows "RevertToSnapshot s2 (int snapID) = (s\<lparr>sdb_db := sdb_db s2\<rparr>, Inr ())"
  using assms by (cases s2) (auto simp: Snapshot_simps RevertToSnapshot_def Let_def nth_append)

section \<open>The chain's keys\<close>

definition chain_key :: "bytes \<Rightarrow> bool" where
  "chain_key k \<longleftrightarrow> (\<exists>h. k = block_key h) \<or> (\<exists>i. k = height_key i) \<or> k = tip_key"

lemma chain_keyD: "chain_key k \<Longrightarrow> \<not> state_key k" "chain_key k \<Longrightarrow> \<not> index_key k"
  by (auto simp: chain_key_def)

lemma chain_key_simps [simp]: "chain_key (block_key h)" "chain_key (height_key i)" "chain_key tip_key"
  by (auto simp: chain_key_def)

lemma ldb_chain_store:
  assumes "\<And>k. chain_key k \<Longrightarrow> \<alpha> d' k = \<alpha> d k" "ldb_chain \<alpha> (bc\<lparr>bc_store := d\<rparr>) bs"
  shows "ldb_chain \<alpha> (bc\<lparr>bc_store := d'\<rparr>) bs"
proof -
  have "stored_blocks (\<alpha> d') = stored_blocks (\<alpha> d)" "stored_heights (\<alpha> d') = stored_heights (\<alpha> d)"
    "stored_tip (\<alpha> d') = stored_tip (\<alpha> d)"
    by (simp_all add: fun_eq_iff stored_blocks_def stored_heights_def stored_tip_def assms(1))
  then show ?thesis using assms(2) by (simp add: chain_holds_def split: if_splits)
qed

lemma index_step_chain: "index_step \<alpha> d d' \<Longrightarrow> chain_key k \<Longrightarrow> \<alpha> d' k = \<alpha> d k"
  by (simp add: index_step_def chain_keyD)

context kv_db
begin

lemma commit_other:
  assumes "buf_ok s" "Commit E I s = (s', Inr u)" "\<not> state_key k"
  shows "\<alpha> (sdb_db s') k = \<alpha> (sdb_db s) k"
proof -
  have "fmlookup (sdb_dirty s) k = None" "fmlookup (sdb_deleted s) k = None"
    using assms(1,3) unfolding buf_ok_def by (meson fmdomI fmdom_notD)+
  then show ?thesis using Commit_ok(2) [OF _ assms(2)] assms(1) by (simp add: buf_ok_def view_def)
qed

lemma AddBlock_store:
  assumes "bc_AddBlock (LevelBlockStore I) b bc = (bc', r)" "\<not> chain_key k"
  shows "\<alpha> (bc_store bc') k = \<alpha> (bc_store bc) k"
proof -
  have "\<alpha> (fst (DB_Write I d [BatchSet (block_key h) x, BatchSet (height_key i) y, BatchSet tip_key z])) k = \<alpha> d k"
    for d h i x y z
  proof -
    have "k \<noteq> block_key h" "k \<noteq> height_key i" "k \<noteq> tip_key" using assms(2) by auto
    then show ?thesis
      using write_ok [of d "[BatchSet (block_key h) x, BatchSet (height_key i) y, BatchSet tip_key z]"]
        write_error [of d "[BatchSet (block_key h) x, BatchSet (height_key i) y, BatchSet tip_key z]"]
      by (cases "DB_Write I d [BatchSet (block_key h) x, BatchSet (height_key i) y, BatchSet tip_key z]";
          cases "snd (DB_Write I d [BatchSet (block_key h) x, BatchSet (height_key i) y, BatchSet tip_key z])") auto
  qed
  from this [of "bc_store bc" "sb_Hash b" "marshal enc_block b" "sb_Height b" "sb_Hash b" "sb_Hash b"] assms(1)
  show ?thesis
    by (auto simp: bc_AddBlock_def Let_def LevelBlockStore_def lbs_CommitBlock_def split: option.splits if_splits prod.splits
        sum.splits)
qed

end

context healthy_db
begin

lemma keeps_of_alpha: "(\<And>k. state_key k \<Longrightarrow> \<alpha> d' k = \<alpha> d k) \<Longrightarrow> db_keeps I d d'"
  by (simp add: db_keeps_def healthy_get [OF healthy])

lemma AddBlock_keeps: "bc_AddBlock (LevelBlockStore I) b bc = (bc', r) \<Longrightarrow> db_keeps I (bc_store bc) (bc_store bc')"
  by (rule keeps_of_alpha) (metis AddBlock_store chain_keyD(1))

end

section \<open>Blocks that arrive are well formed\<close>

lemma decode_fields_members:
  assumes "decode_fields names f ms a = Inr b" "P a" "\<And>m. m \<in> set ms \<Longrightarrow> Q (snd m)"
    and "\<And>n v x y. f n v x = Inr y \<Longrightarrow> Q v \<Longrightarrow> P x \<Longrightarrow> P y"
  shows "P b"
  using assms(1-3)
proof (induction ms arbitrary: a)
  case (Cons m ms)
  show ?case
  proof (cases "match_field names (unquote_go (fst m))")
    case None
    with Cons show ?thesis by simp
  next
    case (Some n)
    with Cons.prems(1) obtain c where c: "f n (snd m) a = Inr c" "decode_fields names f ms c = Inr b"
      by (auto simp: bind_result_Inr)
    have "P c" using assms(4) [OF c(1)] Cons.prems(2,3) by simp
    with Cons.IH [OF c(2)] Cons.prems(3) show ?thesis by simp
  qed
qed simp

text \<open>A document the node can hold whose nesting is at most \<open>n\<close>.\<close>

definition shallow :: "nat \<Rightarrow> json \<Rightarrow> bool" where
  "shallow n j \<longleftrightarrow> json_ok j \<and> jdepth j \<le> n \<and> payload_fits (Some j)"

lemma shallow_members:
  assumes "shallow (Suc n) (JObj ms)" "m \<in> set ms"
  shows "shallow n (snd m)"
proof -
  have "json_ok (JObj ms)" "jdepth (JObj ms) \<le> Suc n" using assms(1) by (simp_all add: shallow_def)
  then have "json_ok (snd m) \<and> jdepth (snd m) \<le> n" using assms(2) by (induction ms) auto
  then show ?thesis using assms print_members_length [OF assms(2)] by (simp add: shallow_def payload_fits_def)
qed

lemma print_elem_length: "v \<in> set vs \<Longrightarrow> length (print_json v) \<le> length (print_elems vs)"
  by (induction vs rule: induct_list012) auto

lemma shallow_elems:
  assumes "shallow (Suc n) (JArr vs)" "v \<in> set vs"
  shows "shallow n v"
proof -
  have "json_ok (JArr vs)" "jdepth (JArr vs) \<le> Suc n" using assms(1) by (simp_all add: shallow_def)
  then have "json_ok v \<and> jdepth v \<le> n" using assms(2) by (induction vs) auto
  then show ?thesis using assms print_elem_length [OF assms(2)] by (simp add: shallow_def payload_fits_def)
qed

lemma decode_struct_shallow:
  assumes "decode_struct names f a j = Inr b" "P a" "shallow (Suc n) j"
    and "\<And>k v x y. f k v x = Inr y \<Longrightarrow> shallow n v \<Longrightarrow> P x \<Longrightarrow> P y"
  shows "P b"
proof (cases j)
  case (JObj ms)
  then show ?thesis
    using decode_fields_members [of names f ms a b P "shallow n"] shallow_members assms by (auto simp: decode_struct_def)
qed (use assms in \<open>simp_all add: decode_struct_def\<close>)

lemma dec_ptr_elems_shallow:
  assumes "dec_ptr_elems dec zero old vs = Inr ps" "\<forall>v\<in>set vs. shallow n v" "P zero" "\<forall>x. Some x \<in> set old \<longrightarrow> P x"
    and "\<And>x v y. dec x v = Inr y \<Longrightarrow> shallow n v \<Longrightarrow> P x \<Longrightarrow> P y"
  shows "\<forall>x. Some x \<in> set ps \<longrightarrow> P x"
  using assms(1,2,4)
proof (induction vs arbitrary: old ps)
  case (Cons v vs)
  obtain q qs where q: "dec_ptr dec zero (case old of [] \<Rightarrow> None | x # _ \<Rightarrow> x) v = Inr q"
    and qs: "dec_ptr_elems dec zero (tl old) vs = Inr qs" "ps = q # qs"
    using Cons.prems(1) by (auto simp: bind_result_Inr map_result_Inr)
  have old: "Some y \<in> set old" if "(case old of [] \<Rightarrow> None | x # _ \<Rightarrow> x) = Some y" for y
    using that by (cases old) auto
  have "P y" if "q = Some y" for y
    using q that assms(3,5) Cons.prems(2,3) old
    by (auto simp: dec_ptr_def map_result_Inr split: if_splits option.splits)
  moreover have "\<forall>x. Some x \<in> set (tl old) \<longrightarrow> P x" using Cons.prems(3) by (cases old) auto
  then have "\<forall>x. Some x \<in> set qs \<longrightarrow> P x" using Cons.IH [OF qs(1)] Cons.prems(2) by simp
  ultimately show ?case using qs(2) by auto
qed simp

lemma dec_ptrs_shallow:
  assumes "dec_ptrs dec zero old j = Inr ps" "shallow (Suc n) j" "P zero"
    and "\<forall>x xs. old = Some xs \<and> Some x \<in> set xs \<longrightarrow> P x"
    and "\<And>x v y. dec x v = Inr y \<Longrightarrow> shallow n v \<Longrightarrow> P x \<Longrightarrow> P y"
  shows "\<forall>x xs. ps = Some xs \<and> Some x \<in> set xs \<longrightarrow> P x"
proof (cases j)
  case (JArr vs)
  then obtain xs where xs: "dec_ptr_elems dec zero (case old of None \<Rightarrow> [] | Some xs \<Rightarrow> xs) vs = Inr xs" "ps = Some xs"
    using assms(1) by (auto simp: dec_ptrs_def map_result_Inr)
  have "\<forall>v\<in>set vs. shallow n v" using assms(2) JArr shallow_elems by blast
  then have "\<forall>x. Some x \<in> set xs \<longrightarrow> P x"
    using dec_ptr_elems_shallow [where P = P and n = n, OF xs(1) _ assms(3)] assms(4,5) by (auto split: option.splits)
  then show ?thesis using xs(2) by simp
qed (use assms(1) in \<open>simp_all add: dec_ptrs_def\<close>)

definition tx_shallow :: "nat \<Rightarrow> transaction \<Rightarrow> bool" where
  "tx_shallow n tx \<longleftrightarrow> tx_ok tx \<and> payload_fits (tx_Payload tx) \<and> pred_option (\<lambda>j. jdepth j \<le> n) (tx_Payload tx)"

definition block_shallow :: "nat \<Rightarrow> stored_block \<Rightarrow> bool" where
  "block_shallow n b \<longleftrightarrow> header_ok (sb_Header b) \<and> utf8_ok (sb_Hash b) \<and> utf8_ok (sb_Signature b) \<and>
     (\<forall>x xs. sb_Transactions b = Some xs \<and> Some x \<in> set xs \<longrightarrow> tx_shallow n x)"

lemma dec_transaction_shallow:
  assumes "dec_transaction_into x v = Inr y" "shallow (Suc n) v" "n < max_nesting" "tx_shallow n x"
  shows "tx_shallow n y"
  using assms(1) unfolding dec_transaction_into_def
proof (rule decode_struct_shallow [where P = "tx_shallow n", OF _ assms(4,2)])
  fix k v and a b :: transaction
  assume "transaction_field k v a = Inr b" "shallow n v" "tx_shallow n a"
  then show "tx_shallow n b"
    using assms(3) by (auto simp: transaction_field_def map_result_Inr dec_string_utf8 dec_int64_range tx_ok_def
        tx_shallow_def shallow_def split: if_splits)
qed

lemma dec_header_ok:
  assumes "dec_header_into x v = Inr y" "header_ok x"
  shows "header_ok y"
  using assms(1) unfolding dec_header_into_def
  by (rule decode_struct_inv [where P = header_ok, OF _ assms(2)])
    (auto simp: header_field_def map_result_Inr dec_string_utf8 dec_int64_range header_ok_def split: if_splits)

lemma dec_block_shallow:
  assumes "dec_block_into x v = Inr y" "shallow (Suc (Suc (Suc n))) v" "n < max_nesting" "block_shallow n x"
  shows "block_shallow n y"
  using assms(1) unfolding dec_block_into_def
proof (rule decode_struct_shallow [where P = "block_shallow n", OF _ assms(4,2)])
  fix k v and a b :: stored_block
  assume f: "block_field k v a = Inr b" and v: "shallow (Suc (Suc n)) v" and a: "block_shallow n a"
  show "block_shallow n b"
  proof (cases "k = ''transactions''")
    case True
    then obtain ts where ts: "dec_ptrs dec_transaction_into zero_transaction (sb_Transactions a) v = Inr ts"
      "b = a\<lparr>sb_Transactions := ts\<rparr>"
      using f by (auto simp: block_field_def map_result_Inr)
    have "tx_shallow n zero_transaction" by (simp add: tx_shallow_def) (simp add: zero_transaction_def payload_fits_def)
    then have "\<forall>x xs. ts = Some xs \<and> Some x \<in> set xs \<longrightarrow> tx_shallow n x"
      using dec_ptrs_shallow [where P = "tx_shallow n", OF ts(1) v] dec_transaction_shallow [OF _ _ assms(3)] a
      by (simp add: block_shallow_def)
    then show ?thesis using a ts(2) by (simp add: block_shallow_def)
  next
    case False
    then show ?thesis
      using f a by (auto simp: block_field_def map_result_Inr block_shallow_def dec_string_utf8 intro: dec_header_ok
          split: if_splits)
  qed
qed

text \<open>Transactions the node may take up; the last bound is what makes a block with them readable.\<close>

definition tx_good :: "transaction \<Rightarrow> bool" where
  "tx_good tx \<longleftrightarrow> tx_ok tx \<and> payload_fits (tx_Payload tx) \<and> jdepth (enc_raw (tx_Payload tx)) + 3 \<le> max_nesting"

definition block_good :: "stored_block \<Rightarrow> bool" where
  "block_good b \<longleftrightarrow> stored_ok b \<and> (\<forall>tx. Some tx \<in> set (sb_list b) \<longrightarrow> tx_good tx)"

lemma tx_shallow_good: "tx_shallow n tx \<Longrightarrow> n + 3 \<le> max_nesting \<Longrightarrow> tx_good tx"
  by (cases "tx_Payload tx") (simp_all add: tx_shallow_def tx_good_def enc_raw_def)

lemma block_shallow_good:
  assumes "block_shallow n b" "n + 3 \<le> max_nesting"
  shows "block_good b"
proof -
  have "tx_good tx" if "Some tx \<in> set (sb_list b)" for tx
    using assms that tx_shallow_good by (cases "sb_Transactions b") (auto simp: block_shallow_def sb_list_def)
  then show ?thesis using assms(1) by (auto simp: block_good_def stored_ok_def block_shallow_def tx_good_def)
qed

lemma decoded_tx_good:
  assumes "unmarshal_raw dec_transaction p = Inr tx" "payload_fits p" "pred_option (\<lambda>j. jdepth j + 2 \<le> max_nesting) p"
  shows "tx_good tx"
proof -
  obtain j where j: "p = Some j" "raw_valid j" "dec_transaction j = Inr tx"
    using assms(1) by (auto simp: unmarshal_raw_def split: option.splits if_splits)
  have "shallow (Suc (max_nesting - 3)) j" using j assms(2,3) by (simp add: shallow_def raw_valid_def max_nesting_def)
  moreover have "tx_shallow (max_nesting - 3) zero_transaction"
    by (simp add: tx_shallow_def) (simp add: zero_transaction_def payload_fits_def)
  ultimately have "tx_shallow (max_nesting - 3) tx"
    using dec_transaction_shallow [of zero_transaction j tx "max_nesting - 3"] j(3) by (simp add: dec_transaction_def max_nesting_def)
  then show ?thesis by (rule tx_shallow_good) (simp add: max_nesting_def)
qed

lemma decoded_blocks_ok:
  assumes "unmarshal_raw dec_blocks p = Inr (Some bs)" "Some b \<in> set bs" "payload_fits p"
  shows "block_good b"
proof -
  define n where "n = max_nesting - 5"
  have n: "max_nesting = Suc (Suc (Suc (Suc (Suc n))))" by (simp add: n_def max_nesting_def)
  obtain j where j: "shallow (Suc (Suc (Suc (Suc (Suc n))))) j" "dec_blocks j = Inr (Some bs)"
    using assms(1,3) by (auto simp: unmarshal_raw_def raw_valid_def shallow_def n split: option.splits if_splits)
  have z: "block_shallow n zero_block"
    by (simp add: block_shallow_def zero_block_def zero_header_def header_ok_def in_int64_def)
  have "\<forall>x xs. Some bs = Some xs \<and> Some x \<in> set xs \<longrightarrow> block_shallow n x"
    using j(2) unfolding dec_blocks_def
  proof (rule decode_struct_shallow [where P = "\<lambda>r. \<forall>x xs. r = Some xs \<and> Some x \<in> set xs \<longrightarrow> block_shallow n x", OF _ _ j(1)])
    fix k v and a b :: blocks_response
    assume "blocks_field k v a = Inr b" "shallow (Suc (Suc (Suc (Suc n)))) v"
      "\<forall>x xs. a = Some xs \<and> Some x \<in> set xs \<longrightarrow> block_shallow n x"
    then show "\<forall>x xs. b = Some xs \<and> Some x \<in> set xs \<longrightarrow> block_shallow n x"
      using dec_ptrs_shallow [of dec_block_into zero_block a v b "Suc (Suc (Suc n))" "block_shallow n"] z
        dec_block_shallow [of _ _ _ n] n by (simp add: blocks_field_def)
  qed simp
  then have "block_shallow n b" using assms(2) by blast
  then show ?thesis using block_shallow_good n by simp
qed

section \<open>The invariant\<close>

definition pool_good :: "env \<Rightarrow> mempool \<Rightarrow> bool" where
  "pool_good E m \<longleftrightarrow> pool_ok E m \<and> (\<forall>tx\<in>set (pool_queue m). tx_good tx)"

definition header_text :: "stored_block \<Rightarrow> bytes" where
  "header_text b = marshal enc_header (sb_Header b)"

definition hashed :: "env \<Rightarrow> stored_block \<Rightarrow> bool" where
  "hashed E b \<longleftrightarrow> header_ok (sb_Header b) \<and> sb_Hash b = Hash E (header_text b)"

definition node_holds ::
  "env \<Rightarrow> 'd db_iface \<Rightarrow> ('d \<Rightarrow> bytes \<rightharpoonup> bytes) \<Rightarrow> 'd emitter \<Rightarrow> 'd statedb \<Rightarrow> (block \<times> transaction) list \<Rightarrow>
   stored_block list \<Rightarrow> 'd node \<Rightarrow> bool" where
  "node_holds E I \<alpha> em s0 h bs nd \<longleftrightarrow>
     ledger E I (Some em) s0 h (nd_state nd) \<and> ldb_chain \<alpha> (nd_chain nd) bs \<and> pool_good E (nd_pool nd) \<and>
     (\<forall>b\<in>set bs. hashed E b) \<and> (\<forall>bt\<in>set h. hdr_Proposer (blk_Header (fst bt)) \<noteq> []) \<and> in_int64 (bc_height (nd_bc nd))"

lemma nd_chain_simps [simp]:
  "nd_chain (nd\<lparr>nd_state := s\<rparr>) = (nd_chain nd)\<lparr>bc_store := sdb_db s\<rparr>"
  "nd_chain (nd\<lparr>nd_pool := m\<rparr>) = nd_chain nd" "bc_store (nd_chain nd) = sdb_db (nd_state nd)"
  "bc_height (nd_chain nd) = bc_height (nd_bc nd)" "bc_tip (nd_chain nd) = bc_tip (nd_bc nd)"
  "nd_chain (nd_set_chain bc nd) = bc" "nd_state (nd_set_chain bc nd) = (nd_state nd)\<lparr>sdb_db := bc_store bc\<rparr>"
  "nd_pool (nd_set_chain bc nd) = nd_pool nd" "nd_bc (nd_set_chain bc nd) = bc"
  by (simp_all add: nd_chain_def nd_set_chain_def)

lemma nd_chain_self [simp]: "(nd_chain nd)\<lparr>bc_store := sdb_db (nd_state nd)\<rparr> = nd_chain nd"
  by (simp add: nd_chain_def)

text \<open>A block that is executed extends the history by the transactions that succeed, also when it fails.\<close>

lemma ledger_execute:
  assumes "ledger E I em s0 h s" "run_ok E I em block" "execute_txs E I em block txs s = (s', r)"
    and "\<forall>tx\<in>set txs. tx_good tx"
  shows "\<exists>n. ledger E I em s0 (h @ map (Pair block) (take n txs)) s' \<and> (is_ok r \<longrightarrow> n = length txs)"
  using assms
proof (induction txs arbitrary: h s)
  case Nil
  then show ?case by simp
next
  case (Cons tx txs)
  obtain s1 r1 where 1: "ExecuteTx E I em block tx s = (s1, r1)" by fastforce
  show ?case
  proof (cases r1)
    case (Inl e)
    then have "s1 = s" using 1 by (cases rule: ExecuteTx_cases [of E tx I em block s]) auto
    then have "s' = s" "\<not> is_ok r" using Cons.prems(3) 1 Inl by auto
    then show ?thesis using Cons.prems(1) by (intro exI [of _ 0]) simp
  next
    case (Inr u)
    then have l: "ledger E I em s0 (h @ [(block, tx)]) s1"
      using ledger_exec [OF Cons.prems(1,2)] 1 Cons.prems(4) by (simp add: tx_good_def)
    have "execute_txs E I em block txs s1 = (s', r)" using Cons.prems(3) 1 Inr by simp
    from Cons.IH [OF l Cons.prems(2) this] Cons.prems(4) obtain n where
      "ledger E I em s0 ((h @ [(block, tx)]) @ map (Pair block) (take n txs)) s'" "is_ok r \<longrightarrow> n = length txs"
      by auto
    then show ?thesis by (intro exI [of _ "Suc n"]) simp
  qed
qed

context healthy_db
begin

lemma node_store:
  assumes "node_holds E I \<alpha> em s0 h bs nd" "\<And>k. state_key k \<or> chain_key k \<Longrightarrow> \<alpha> d k = \<alpha> (sdb_db (nd_state nd)) k"
  shows "node_holds E I \<alpha> em s0 h bs (nd\<lparr>nd_state := (nd_state nd)\<lparr>sdb_db := d\<rparr>\<rparr>)"
proof -
  have "db_keeps I (sdb_db (nd_state nd)) d" using assms(2) by (intro keeps_of_alpha) blast
  moreover have "ldb_chain \<alpha> ((nd_chain nd)\<lparr>bc_store := d\<rparr>) bs"
    using assms ldb_chain_store [of \<alpha> d "sdb_db (nd_state nd)" "nd_chain nd" bs] by (simp add: node_holds_def)
  ultimately show ?thesis using assms(1) by (simp add: node_holds_def ledger_other)
qed

lemma node_execute:
  assumes "node_holds E I \<alpha> em s0 h bs nd" "run_ok E I (Some em) blk" "index_emitter \<alpha> em"
    and "\<forall>tx\<in>set (blk_Transactions blk). tx_good tx" "ExecuteBlock E I (Some em) blk (nd_state nd) = (s1, r)"
    and "hdr_Proposer (blk_Header blk) \<noteq> []"
  shows "\<exists>n. node_holds E I \<alpha> em s0 (h @ map (Pair blk) (take n (blk_Transactions blk))) bs (nd\<lparr>nd_state := s1\<rparr>) \<and>
    (is_ok r \<longrightarrow> n = length (blk_Transactions blk))"
proof -
  note ex = assms(5) [unfolded ExecuteBlock_def]
  have "index_events \<alpha> (Some em)" using assms(3) by (simp add: index_events_def)
  from execute_txs_index [OF ex this]
  have "ldb_chain \<alpha> ((nd_chain nd)\<lparr>bc_store := sdb_db s1\<rparr>) bs"
    using assms(1) ldb_chain_store [of \<alpha> "sdb_db s1" "sdb_db (nd_state nd)" "nd_chain nd" bs]
    by (simp add: node_holds_def index_step_chain)
  then show ?thesis
    using ledger_execute [OF _ assms(2) ex assms(4), of s0 h] assms(1,6) by (auto simp: node_holds_def)
qed

text \<open>A block that can be added has a new height, so its header and with it its hash are new.\<close>

lemma chain_fresh_hash:
  assumes "ldb_chain \<alpha> bc bs" "in_int64 (bc_height bc)" "bc_AddBlock (LevelBlockStore I) b bc = (bc', Inr u)" "hashed E b"
    and "\<forall>x\<in>set bs. hashed E x" "no_collision E (header_text ` set (bs @ [b]))"
  shows "sb_Hash b \<notin> sb_Hash ` set bs"
proof
  assume "sb_Hash b \<in> sb_Hash ` set bs"
  then obtain x where x: "x \<in> set bs" "sb_Hash b = sb_Hash x" by blast
  then have "header_text b = header_text x"
    using Hash_inject [OF assms(6), of "header_text b" "header_text x"] assms(4,5) by (auto simp: hashed_def)
  then have "sb_Height x = sb_Height b"
    using marshal_header_inject assms(4,5) x(1) by (simp add: hashed_def header_text_def)
  moreover have "sb_Height x \<le> sb_Height (last bs)" "bc_height bc = sb_Height (last bs)" "bc_tip bc \<noteq> None"
    using assms(1) x(1) linked_height_le_last [of bs x] by (auto simp: chain_holds_def split: if_splits)
  moreover have "bc_height bc < sb_Height b" if "bc_tip bc = Some t" for t
    using assms(3) that by (auto elim: lbs.AddBlock_parts)
  ultimately show False by auto
qed

lemma node_add:
  assumes "node_holds E I \<alpha> em s0 h bs nd" "bc_AddBlock (LevelBlockStore I) b (nd_chain nd) = (bc, r)" "stored_ok b"
    and "hashed E b" "is_ok r \<longrightarrow> no_collision E (header_text ` set (bs @ [b]))"
  shows "node_holds E I \<alpha> em s0 h (if is_ok r then bs @ [b] else bs) (nd_set_chain bc nd)"
proof -
  have c: "ldb_chain \<alpha> (nd_chain nd) bs" "in_int64 (bc_height (nd_chain nd))" using assms(1) by (simp_all add: node_holds_def)
  have "ldb_chain \<alpha> bc (if is_ok r then bs @ [b] else bs) \<and> in_int64 (bc_height bc)"
  proof (cases r)
    case (Inl e)
    then show ?thesis using lbs.AddBlock_error [of b "nd_chain nd" bc e bs] assms(2) c by simp
  next
    case (Inr u)
    have "sb_Hash b \<notin> sb_Hash ` set bs"
      using chain_fresh_hash [OF c assms(2) [unfolded Inr] assms(4)] assms(1,5) Inr by (simp add: node_holds_def)
    then have "ldb_chain \<alpha> bc (bs @ [b])" using lbs.AddBlock_holds [OF c(1) _ assms(3) _ c(2)] assms(2) Inr by simp
    moreover have "bc_height bc = sb_Height b" using assms(2) Inr by (auto elim: lbs.AddBlock_parts)
    ultimately show ?thesis using assms(3) Inr by (simp add: stored_ok_def header_ok_def)
  qed
  moreover have "ledger E I (Some em) s0 h ((nd_state nd)\<lparr>sdb_db := bc_store bc\<rparr>)"
    using assms(1) AddBlock_keeps [OF assms(2)] by (intro ledger_other) (simp_all add: node_holds_def)
  ultimately show ?thesis using assms(1,4) by (simp add: node_holds_def)
qed

lemma node_commit:
  assumes "node_holds E I \<alpha> em s0 h bs nd" "state_ok E I s0" "buf_ok s0" "Commit E I (nd_state nd) = (s, Inr u)"
  shows "node_holds E I \<alpha> em s0 h bs (nd\<lparr>nd_state := s\<rparr>)"
proof -
  have b: "buf_ok (nd_state nd)" using assms(1) ledger_ok [OF _ assms(2,3)] by (auto simp: node_holds_def)
  have "ldb_chain \<alpha> ((nd_chain nd)\<lparr>bc_store := sdb_db s\<rparr>) bs"
    using assms(1) ldb_chain_store [of \<alpha> "sdb_db s" "sdb_db (nd_state nd)" "nd_chain nd" bs]
      commit_other [OF b assms(4)] chain_keyD(1) by (simp add: node_holds_def)
  then show ?thesis using assms(1,4) ledger_commit [of E I "Some em" s0 h "nd_state nd" s] by (simp add: node_holds_def)
qed

lemma node_emit:
  assumes "node_holds E I \<alpha> em s0 h bs nd" "index_emitter \<alpha> em"
  shows "node_holds E I \<alpha> em s0 h bs (nd\<lparr>nd_state := emit_event (Some em) ev (nd_state nd)\<rparr>)"
  using node_store [OF assms(1), of "Emit em ev (sdb_db (nd_state nd))"] Emit_index_step [OF assms(2), of "sdb_db (nd_state nd)" ev]
    state_not_index chain_keyD(2) by (auto simp: emit_event_def index_step_def)

end

end
