(* ===== verification/NodeRun.thy ===== *)
theory NodeRun
  imports NodeInv
begin

text \<open>
  A running node: ticks of the block producer, messages from peers and submitted transactions, in any
  order. Every step keeps the invariant of \<open>NodeInv\<close>.
\<close>

section \<open>The steps of the producer\<close>

text \<open>What the environment of the node provides: a clock, a configuration that came from JSON, a key.\<close>

definition setting_ok :: "env \<Rightarrow> config \<Rightarrow> bytes \<Rightarrow> int64 \<Rightarrow> bool" where
  "setting_ok E cfg priv now \<longleftrightarrow>
     runtime_ok E \<and> utf8_ok (gen_ChainID (cfg_Genesis cfg)) \<and> in_int64 now \<and> Hex (Public E priv) \<noteq> []"

lemma utf8_GenesisHash [simp]: "utf8_ok GenesisHash"
  by (simp add: GenesisHash_def utf8_ok_ascii_all)

lemma utf8_Hex [simp]: "utf8_ok (Hex k)"
  by (simp add: Hex_def utf8_ok_hex hex_encode_hex)

lemma utf8_Sign [simp]: "utf8_ok (Sign E priv d)"
  by (simp add: Sign_def utf8_ok_hex hex_encode_hex)

lemma utf8_ComputeRoot [simp]: "utf8_ok (ComputeRoot E I s)"
  by (simp add: ComputeRoot_def)

lemma utf8_ComputeTxRoot [simp]: "utf8_ok (ComputeTxRoot E txs)"
  by (simp add: ComputeTxRoot_def)

lemma made_header_ok:
  assumes "setting_ok E cfg priv now" "b0 = NewBlock E (gen_ChainID (cfg_Genesis cfg)) h prev (Hex (Public E priv)) txs now"
    and "(prev, h) = (case tip of None \<Rightarrow> (GenesisHash, 1) | Some t \<Rightarrow> (sb_Hash t, wrap64 (sb_Height t + 1)))"
    and "\<forall>t. tip = Some t \<longrightarrow> utf8_ok (sb_Hash t)"
  shows "header_ok ((blk_Header b0)\<lparr>hdr_StateRoot := ComputeRoot E I s\<rparr>)"
proof -
  have "in_int64 1" by (simp add: in_int64_def)
  then show ?thesis using assms by (auto simp: header_ok_def NewBlock_def setting_ok_def wrap64_range split: option.splits)
qed

lemma made_block_ok:
  assumes "header_ok (blk_Header b1)" "\<forall>tx\<in>set (blk_Transactions b1). tx_good tx"
  shows "stored_ok (store_form False (blk_Sign E priv b1))" "hashed E (store_form False (blk_Sign E priv b1))"
  using assms by (auto simp: stored_ok_def store_form_def sb_list_def hashed_def header_text_def blk_Sign_def
      ComputeHash_def Let_def tx_good_def)

context healthy_db
begin

lemma pool_good_pending:
  assumes "pool_good E m" "0 < n" "pool_Pending n m = Some txs"
  shows "set txs \<subseteq> set (pool_queue m)" "\<forall>tx\<in>set txs. tx_good tx"
proof -
  have "txs = take (nat n) (pool_queue m)" using assms pool_Pending_take [of E m n] by (simp add: pool_good_def)
  then show "set txs \<subseteq> set (pool_queue m)" by (simp add: set_take_subset)
  then show "\<forall>tx\<in>set txs. tx_good tx" using assms(1) by (auto simp: pool_good_def)
qed

lemma pool_good_Remove: "pool_good E m \<Longrightarrow> pool_good E (pool_Remove ids m)"
  using pool_Remove_ok [of E m ids] by (simp add: pool_good_def)

lemma pool_good_Add: "pool_good E m \<Longrightarrow> tx_good tx \<Longrightarrow> pool_good E (fst (pool_Add E now tx m))"
  using pool_Add_ok [of E m now tx] pool_Add_error [of E now tx m]
  by (cases "pool_Add E now tx m"; cases "snd (pool_Add E now tx m)") (auto simp: pool_good_def)

lemma node_tip_utf8: "node_holds E I \<alpha> em s0 h bs nd \<Longrightarrow> bc_tip (nd_bc nd) = Some t \<Longrightarrow> utf8_ok (sb_Hash t)"
  by (cases "bs = []") (auto simp: node_holds_def chain_holds_def hashed_def)

lemma node_run_ok:
  assumes "index_emitter \<alpha> em" "setting_ok E cfg priv now"
  shows "run_ok E I (Some em) (NewBlock E c h prev (Hex (Public E priv)) txs now)"
  using assms index_emitter_ok by (simp add: run_ok_def setting_ok_def NewBlock_def emitter_opt_ok_def)

lemma node_pending:
  assumes "node_holds E I \<alpha> em s0 h bs nd" "pool_Pending (if n \<le> 0 then 500 else n) (nd_pool nd) = Some txs"
  shows "\<forall>tx\<in>set txs. tx_good tx"
  using pool_good_pending(2) [of E "nd_pool nd" "if n \<le> 0 then 500 else n" txs] assms by (simp add: node_holds_def)

lemma node_produce_err:
  assumes "node_holds E I \<alpha> em s0 h bs nd" "index_emitter \<alpha> em" "setting_ok E cfg priv now"
    and "ProduceBlock E I (LevelBlockStore I) em now cfg priv nd = (nd', Err e)"
  shows "\<exists>h'. node_holds E I \<alpha> em s0 (h @ h') bs nd'"
  using assms(4)
proof (cases rule: ProduceBlock_Err)
  case same
  then show ?thesis using assms(1) by (intro exI [of _ "[]"]) simp
next
  case (executed txs prev k s1 b0 r)
  have good: "\<forall>tx\<in>set txs. tx_good tx"
    by (rule node_pending [OF assms(1) executed(1)])
  have b0: "blk_Transactions b0 = txs" "run_ok E I (Some em) b0"
    using executed(2) node_run_ok [OF assms(2,3)] by (simp_all add: NewBlock_def)
  have p: "hdr_Proposer (blk_Header b0) \<noteq> []" using executed(2) assms(3) by (simp add: NewBlock_def setting_ok_def)
  obtain h' where n: "node_holds E I \<alpha> em s0 (h @ h') bs (nd\<lparr>nd_state := s1\<rparr>)"
    using node_execute [OF assms(1) b0(2) assms(2) _ executed(4) p] good b0(1) by auto
  have hd: "header_ok ((blk_Header b0)\<lparr>hdr_StateRoot := ComputeRoot E I s1\<rparr>)"
    using made_header_ok [OF assms(3) executed(2,3)] node_tip_utf8 [OF assms(1)] by blast
  from executed(5) show ?thesis
  proof (elim disjE exE conjE)
    fix b1 b bc e
    assume b: "b1 = b0\<lparr>blk_Header := (blk_Header b0)\<lparr>hdr_StateRoot := ComputeRoot E I s1\<rparr>\<rparr>" "b = blk_Sign E priv b1"
      and a: "bc_AddBlock (LevelBlockStore I) (store_form False b) (nd_chain (nd\<lparr>nd_state := s1\<rparr>)) = (bc, Inl e)"
      and nd': "nd' = nd_set_chain bc (nd\<lparr>nd_state := s1\<rparr>)"
    have "stored_ok (store_form False b)" "hashed E (store_form False b)"
      using made_block_ok [of b1 E priv] b hd good b0(1) by simp_all
    from node_add [OF n a this] show ?thesis using nd' by auto
  qed (use n in auto)
qed

lemma node_produce_ok:
  assumes "node_holds E I \<alpha> em s0 h bs nd" "index_emitter \<alpha> em" "setting_ok E cfg priv now" "state_ok E I s0" "buf_ok s0"
    and "ProduceBlock E I (LevelBlockStore I) em now cfg priv nd = (nd', Ok b)"
    and "no_collision E (header_text ` set (bs @ [store_form False b]))"
  shows "\<exists>h'. node_holds E I \<alpha> em s0 (h @ h') (bs @ [store_form False b]) nd'"
proof (rule ProduceBlock_Ok [OF assms(6)])
  fix txs prev k s1 bc s2 b0 b1
  assume txs: "pool_Pending (if cfg_MaxBlockTxs cfg \<le> 0 then 500 else cfg_MaxBlockTxs cfg) (nd_pool nd) = Some txs"
    and link: "(prev, k) = (case bc_tip (nd_bc nd) of None \<Rightarrow> (GenesisHash, 1)
       | Some tip \<Rightarrow> (sb_Hash tip, wrap64 (sb_Height tip + 1)))"
    and b0: "b0 = NewBlock E (gen_ChainID (cfg_Genesis cfg)) k prev (Hex (Public E priv)) txs now"
    and x: "ExecuteBlock E I (Some em) b0 (nd_state nd) = (s1, Inr ())"
    and b: "b1 = b0\<lparr>blk_Header := (blk_Header b0)\<lparr>hdr_StateRoot := ComputeRoot E I s1\<rparr>\<rparr>" "b = blk_Sign E priv b1"
    and a: "bc_AddBlock (LevelBlockStore I) (store_form False b) ((nd_bc nd)\<lparr>bc_store := sdb_db s1\<rparr>) = (bc, Inr ())"
    and c: "Commit E I (s1\<lparr>sdb_db := bc_store bc\<rparr>) = (s2, Inr ())"
    and nd': "nd' = \<lparr>nd_state = emit_event (Some em) \<lparr>ev_Type = EventBlockCommit, ev_TxID = [],
        ev_BlockHeight = hdr_Height (blk_Header b),
        ev_Data = [(''hash'', DStr (blk_Hash b)), (''txs'', DInt (int (length (blk_Transactions b))))]\<rparr> s2,
       nd_bc = bc, nd_pool = pool_Remove (map tx_ID txs) (nd_pool nd)\<rparr>"
  have good: "\<forall>tx\<in>set txs. tx_good tx"
    by (rule node_pending [OF assms(1) txs])
  have t: "blk_Transactions b0 = txs" "run_ok E I (Some em) b0"
    using b0 node_run_ok [OF assms(2,3)] by (simp_all add: NewBlock_def)
  have p: "hdr_Proposer (blk_Header b0) \<noteq> []" using b0 assms(3) by (simp add: NewBlock_def setting_ok_def)
  obtain h' where n1: "node_holds E I \<alpha> em s0 (h @ h') bs (nd\<lparr>nd_state := s1\<rparr>)"
    using node_execute [OF assms(1) t(2) assms(2) _ x p] good t(1) by auto
  have "header_ok (blk_Header b1)"
    using made_header_ok [OF assms(3) b0 link] node_tip_utf8 [OF assms(1)] b(1) by simp
  then have ok: "stored_ok (store_form False b)" "hashed E (store_form False b)"
    using made_block_ok [of b1 E priv] b good t(1) by simp_all
  have a': "bc_AddBlock (LevelBlockStore I) (store_form False b) (nd_chain (nd\<lparr>nd_state := s1\<rparr>)) = (bc, Inr ())"
    using a by (simp add: nd_chain_def)
  have n2: "node_holds E I \<alpha> em s0 (h @ h') (bs @ [store_form False b]) (nd_set_chain bc (nd\<lparr>nd_state := s1\<rparr>))"
    using node_add [OF n1 a' ok] assms(7) by simp
  note n3 = node_emit [OF node_commit [OF n2 assms(4,5), of s2] assms(2)]
  have "pool_good E (pool_Remove (map tx_ID txs) (nd_pool nd))"
    using assms(1) pool_good_Remove by (simp add: node_holds_def)
  with n3 c nd' show ?thesis by (auto simp: node_holds_def nd_chain_def nd_set_chain_def)
qed

end

section \<open>The steps of the synchronisation\<close>

lemma block_of_parts:
  assumes "block_of b = Some blk"
  shows "blk_Header blk = sb_Header b" "tx \<in> set (blk_Transactions blk) \<Longrightarrow> Some tx \<in> set (sb_list b)"
  using assms by (auto simp: block_of_def split: if_splits) (metis option.collapse)

lemma valid_block_hashed:
  assumes "ValidateBlock E now cfg tip b = Ok u" "stored_ok b"
  shows "hashed E b"
  using assms by (auto simp: ValidateBlock_Ok hashed_def header_text_def stored_ok_def blk_Verify_Inr ComputeHash_def block_of_def
      split: if_splits)

lemma valid_block_proposer: "ValidateBlock E now cfg tip b = Ok u \<Longrightarrow> hdr_Proposer (sb_Header b) \<noteq> []"
  by (auto simp: ValidateBlock_Ok PubKeyFromHex_def public_key_size_def)

lemma revert_sync_simp:
  assumes "Snapshot (nd_state nd) = (s1, snapID)" "\<exists>ns. sdb_snapshots (nd_state nd1) = sdb_snapshots s1 @ ns"
  shows "revert_sync g snapID nd1 = (nd1\<lparr>nd_state := (nd_state nd)\<lparr>sdb_db := sdb_db (nd_state nd1)\<rparr>\<rparr>, Ok g)"
  by (simp add: revert_sync_def revert_block [OF assms])

context healthy_db
begin

lemma node_snapshot: "node_holds E I \<alpha> em s0 h bs nd \<Longrightarrow> node_holds E I \<alpha> em s0 h bs (nd\<lparr>nd_state := fst (Snapshot (nd_state nd))\<rparr>)"
  by (simp add: node_holds_def ledger_snapshot) (simp add: Snapshot_simps)

text \<open>The four ways a block of a peer that is valid can end: reverted after its execution or after \<open>AddBlock\<close>, committed, or fatal.\<close>

lemma sync_block_cases:
  assumes "sync_block E I B em now cfg (Some b) nd = (nd', r)"
  obtains (refused) "nd' = nd" "r \<noteq> Ok True"
  | (reverted) blk s2 x where "ValidateBlock E now cfg (bc_tip (nd_bc nd)) b = Ok ()" "block_of b = Some blk"
      "ExecuteBlock E I (Some em) blk (fst (Snapshot (nd_state nd))) = (s2, x)" "r \<in> range Ok"
      "nd' = nd\<lparr>nd_state := (nd_state nd)\<lparr>sdb_db := sdb_db s2\<rparr>\<rparr>"
  | (not_added) blk s2 bc e where "ValidateBlock E now cfg (bc_tip (nd_bc nd)) b = Ok ()" "block_of b = Some blk"
      "ExecuteBlock E I (Some em) blk (fst (Snapshot (nd_state nd))) = (s2, Inr ())" "r \<in> range Ok"
      "bc_AddBlock B b (nd_chain (nd\<lparr>nd_state := s2\<rparr>)) = (bc, Inl e)"
      "nd' = nd\<lparr>nd_bc := bc, nd_state := (nd_state nd)\<lparr>sdb_db := bc_store bc\<rparr>\<rparr>"
  | (added) blk s2 bc s3 x where "ValidateBlock E now cfg (bc_tip (nd_bc nd)) b = Ok ()" "block_of b = Some blk"
      "ExecuteBlock E I (Some em) blk (fst (Snapshot (nd_state nd))) = (s2, Inr ())"
      "hdr_StateRoot (sb_Header b) = [] \<or> ComputeRoot E I s2 = hdr_StateRoot (sb_Header b)"
      "bc_AddBlock B b (nd_chain (nd\<lparr>nd_state := s2\<rparr>)) = (bc, Inr ())"
      "Commit E I (nd_state (nd_set_chain bc (nd\<lparr>nd_state := s2\<rparr>))) = (s3, x)"
      "nd' = (nd_set_chain bc (nd\<lparr>nd_state := s2\<rparr>))\<lparr>nd_state := s3\<rparr>" "r = (if is_ok x then Ok True else Fatal)"
proof (cases "ValidateBlock E now cfg (bc_tip (nd_bc nd)) b = Ok ()")
  case False
  then show ?thesis using assms by (intro refused) (auto simp: sync_block_def split: outcome.splits)
next
  case True
  then obtain blk where blk: "block_of b = Some blk" by (auto simp: ValidateBlock_Ok)
  obtain s1 i where sn: "Snapshot (nd_state nd) = (s1, i)" by fastforce
  obtain s2 x where ex: "ExecuteBlock E I (Some em) blk s1 = (s2, x)" by fastforce
  have snaps: "\<exists>ns. sdb_snapshots s2 = sdb_snapshots s1 @ ns" using execute_txs_snapshots ex by (simp add: ExecuteBlock_def)
  then have rev: "revert_sync g i nd1 = (nd1\<lparr>nd_state := (nd_state nd)\<lparr>sdb_db := sdb_db (nd_state nd1)\<rparr>\<rparr>, Ok g)"
    if "sdb_snapshots (nd_state nd1) = sdb_snapshots s2" for g nd1
    using revert_sync_simp [OF sn, of nd1] that by simp
  obtain bc y where ad: "bc_AddBlock B b (nd_chain (nd\<lparr>nd_state := s2\<rparr>)) = (bc, y)" by fastforce
  obtain s3 z where cm: "Commit E I (s2\<lparr>sdb_db := bc_store bc\<rparr>) = (s3, z)" by fastforce
  note step = assms [unfolded sync_block_def, simplified, unfolded True blk sn, simplified, unfolded ex, simplified]
  have ex': "ExecuteBlock E I (Some em) blk (fst (Snapshot (nd_state nd))) = (s2, x)" using ex sn by simp
  show ?thesis
  proof (cases x)
    case (Inl e)
    show ?thesis using step Inl rev by (intro reverted [OF True blk ex']) auto
  next
    case (Inr u)
    show ?thesis
    proof (cases "hdr_StateRoot (sb_Header b) = [] \<or> ComputeRoot E I s2 = hdr_StateRoot (sb_Header b)")
      case False
      then show ?thesis using step Inr rev by (intro reverted [OF True blk ex']) (auto simp: Let_def)
    next
      case root: True
      show ?thesis
      proof (cases y)
        case (Inl e)
        show ?thesis
          using step Inr Inl ad root rev
          by (intro not_added [OF True blk _ _ ad [unfolded Inl]]) (auto simp: ex' Let_def nd_set_chain_def)
      next
        case (Inr v)
        have p: "ExecuteBlock E I (Some em) blk (fst (Snapshot (nd_state nd))) = (s2, Inr ())"
          "bc_AddBlock B b (nd_chain (nd\<lparr>nd_state := s2\<rparr>)) = (bc, Inr ())" using ex' ad \<open>x = Inr u\<close> Inr by simp_all
        show ?thesis
          using step \<open>x = Inr u\<close> p(2) root cm
          by (intro added [OF True blk p(1) root p(2), of s3 z]) (auto simp: Let_def split: sum.splits)
      qed
    qed
  qed
qed

lemma node_sync_block:
  assumes "node_holds E I \<alpha> em s0 h bs nd" "index_emitter \<alpha> em" "runtime_ok E" "state_ok E I s0" "buf_ok s0"
    and "block_good b" "no_collision E (header_text ` set (bs @ [b]))"
    and "sync_block E I (LevelBlockStore I) em now cfg (Some b) nd = (nd', r)" "r \<noteq> Fatal"
  shows "\<exists>h' bs'. node_holds E I \<alpha> em s0 (h @ h') (bs @ bs') nd' \<and> set bs' \<subseteq> {b}"
proof -
  have ok: "stored_ok b" using assms(6) by (simp add: block_good_def)
  have run: "run_ok E I (Some em) blk" "\<forall>tx\<in>set (blk_Transactions blk). tx_good tx" if "block_of b = Some blk" for blk
    using that block_of_parts [OF that] assms(2,3,6) index_emitter_ok
    by (auto simp: run_ok_def emitter_opt_ok_def block_good_def stored_ok_def header_ok_def)
  have store: "node_holds E I \<alpha> em s0 h bs (nd\<lparr>nd_state := (nd_state nd)\<lparr>sdb_db := sdb_db s2\<rparr>\<rparr>)"
    if "ExecuteBlock E I (Some em) blk (fst (Snapshot (nd_state nd))) = (s2, x)" for blk s2 x
  proof (rule node_store [OF assms(1)])
    have "index_step \<alpha> (sdb_db (fst (Snapshot (nd_state nd)))) (sdb_db s2)"
      using execute_txs_index that assms(2) unfolding ExecuteBlock_def index_events_def by blast
    then have "index_step \<alpha> (sdb_db (nd_state nd)) (sdb_db s2)" by (simp add: Snapshot_simps)
    then show "\<alpha> (sdb_db s2) k = \<alpha> (sdb_db (nd_state nd)) k" if "state_key k \<or> chain_key k" for k
      using that state_not_index chain_keyD(2) by (auto simp: index_step_def)
  qed
  from assms(8) show ?thesis
  proof (cases rule: sync_block_cases)
    case refused
    then show ?thesis using assms(1) by (intro exI [of _ "[]"]) simp
  next
    case (reverted blk s2 x)
    then show ?thesis using store by (intro exI [of _ "[]"]) simp
  next
    case (not_added blk s2 bc e)
    have "nd_chain (nd\<lparr>nd_state := s2\<rparr>) = nd_chain (nd\<lparr>nd_state := (nd_state nd)\<lparr>sdb_db := sdb_db s2\<rparr>\<rparr>)"
      by (simp add: nd_chain_def)
    from node_add [OF store [OF not_added(3)] not_added(5) [unfolded this] ok valid_block_hashed [OF not_added(1) ok]]
    have "node_holds E I \<alpha> em s0 h bs nd'" using not_added(6) by (simp add: nd_set_chain_def)
    then show ?thesis by (intro exI [of _ "[]"]) simp
  next
    case (added blk s2 bc s3 x)
    have x: "x = Inr ()" using added(8) assms(9) by (cases x) auto
    have p: "hdr_Proposer (blk_Header blk) \<noteq> []"
      using valid_block_proposer [OF added(1)] block_of_parts(1) [OF added(2)] by simp
    obtain h' where n: "node_holds E I \<alpha> em s0 (h @ h') bs (nd\<lparr>nd_state := s2\<rparr>)"
      using node_execute [OF node_snapshot [OF assms(1)] run(1) [OF added(2)] assms(2) run(2) [OF added(2)] _ p] added(3)
      by auto
    have "node_holds E I \<alpha> em s0 (h @ h') (bs @ [b]) (nd_set_chain bc (nd\<lparr>nd_state := s2\<rparr>))"
      using node_add [OF n added(5) ok valid_block_hashed [OF added(1) ok]] assms(7) by simp
    from node_commit [OF this assms(4,5) added(6) [unfolded x]] show ?thesis
      using added(7) by (intro exI [of _ h'] exI [of _ "[b]"]) simp
  qed
qed

lemma no_collision_subset: "no_collision E S \<Longrightarrow> T \<subseteq> S \<Longrightarrow> no_collision E T"
  by (auto simp: no_collision_def intro: inj_on_subset)

lemma node_sync_blocks:
  assumes "node_holds E I \<alpha> em s0 h bs nd" "index_emitter \<alpha> em" "runtime_ok E" "state_ok E I s0" "buf_ok s0"
    and "\<forall>b. Some b \<in> set obs \<longrightarrow> block_good b" "no_collision E (header_text ` (set bs \<union> {b. Some b \<in> set obs}))"
    and "sync_blocks E I (LevelBlockStore I) em now cfg obs nd = (nd', r)" "r \<noteq> Fatal"
  shows "\<exists>h' bs'. node_holds E I \<alpha> em s0 (h @ h') (bs @ bs') nd' \<and> set bs' \<subseteq> {b. Some b \<in> set obs}"
  using assms(1,6-)
proof (induction obs arbitrary: h bs nd)
  case Nil
  then show ?case by (intro exI [of _ "[]"]) simp
next
  case (Cons ob obs)
  obtain nd1 r1 where s: "sync_block E I (LevelBlockStore I) em now cfg ob nd = (nd1, r1)" by fastforce
  show ?case
  proof (cases ob)
    case None
    then show ?thesis using Cons.prems(1,4) s by (intro exI [of _ "[]"]) (auto simp: sync_block_def)
  next
    case (Some b)
    have nf: "r1 \<noteq> Fatal" using Cons.prems(4,5) s by auto
    have good: "block_good b" using Cons.prems(2) Some by simp
    have nc: "no_collision E (header_text ` set (bs @ [b]))"
      by (rule no_collision_subset [OF Cons.prems(3)]) (use Some in auto)
    obtain h1 bs1 where n1: "node_holds E I \<alpha> em s0 (h @ h1) (bs @ bs1) nd1" "set bs1 \<subseteq> {b}"
      using node_sync_block [OF Cons.prems(1) assms(2-5) good nc s [unfolded Some] nf] by blast
    show ?thesis
    proof (cases "r1 = Ok True")
      case False
      then have "nd' = nd1" using Cons.prems(4) s by (cases r1) (auto split: bool.splits)
      then show ?thesis using n1 Some by auto
    next
      case True
      have nc': "no_collision E (header_text ` (set (bs @ bs1) \<union> {b. Some b \<in> set obs}))"
        by (rule no_collision_subset [OF Cons.prems(3)]) (use Some n1(2) in auto)
      have "sync_blocks E I (LevelBlockStore I) em now cfg obs nd1 = (nd', r)" using Cons.prems(4) s True by simp
      from Cons.IH [OF n1(1) _ nc' this Cons.prems(5)] Cons.prems(2) obtain h2 bs2 where
        "node_holds E I \<alpha> em s0 ((h @ h1) @ h2) ((bs @ bs1) @ bs2) nd'" "set bs2 \<subseteq> {b. Some b \<in> set obs}" by auto
      then show ?thesis using n1(2) Some by (intro exI [of _ "h1 @ h2"] exI [of _ "bs1 @ bs2"]) auto
    qed
  qed
qed

end

end
