(* ===== verification/Rpc.thy ===== *)
theory Rpc
  imports Indexer
begin

text \<open>
  \<open>rpc/types.go\<close>, \<open>rpc/handler.go\<close> and \<open>rpc/server.go\<close>: the JSON-RPC envelopes, the methods on the
  node's chain, state, index and pool, and the HTTP handler in front of them.
\<close>

section \<open>Envelopes\<close>

record rpc_request =
  rq_JSONRPC :: bytes
  rq_ID :: any
  rq_Method :: bytes
  rq_Params :: "json option"

definition request_field :: "(bytes \<Rightarrow> bytes option) \<Rightarrow> bytes \<Rightarrow> json \<Rightarrow> rpc_request \<Rightarrow> rpc_request result" where
  "request_field fn k v r =
     (if k = ''jsonrpc'' then map_result (\<lambda>x. r\<lparr>rq_JSONRPC := x\<rparr>) (dec_string (rq_JSONRPC r) v)
      else if k = ''id'' then map_result (\<lambda>x. r\<lparr>rq_ID := x\<rparr>) (dec_any fn v)
      else if k = ''method'' then map_result (\<lambda>x. r\<lparr>rq_Method := x\<rparr>) (dec_string (rq_Method r) v)
      else Inr (r\<lparr>rq_Params := Some v\<rparr>))"

definition dec_request :: "(bytes \<Rightarrow> bytes option) \<Rightarrow> json \<Rightarrow> rpc_request result" where
  "dec_request fn = decode_struct [''jsonrpc'', ''id'', ''method'', ''params''] (request_field fn)
     \<lparr>rq_JSONRPC = [], rq_ID = ANil, rq_Method = [], rq_Params = None\<rparr>"

text \<open>
  The result is kept in its JSON form; \<open>None\<close> is the nil interface. The message of an error stands for
  its text.
\<close>

record rpc_error =
  err_Code :: int
  err_Message :: error

record rpc_response =
  rs_JSONRPC :: bytes
  rs_ID :: any
  rs_Result :: "json option"
  rs_Error :: "rpc_error option"

definition CodeParseError :: int where "CodeParseError = -32700"
definition CodeInvalidRequest :: int where "CodeInvalidRequest = -32600"
definition CodeMethodNotFound :: int where "CodeMethodNotFound = -32601"
definition CodeInvalidParams :: int where "CodeInvalidParams = -32602"
definition CodeInternalError :: int where "CodeInternalError = -32603"
definition CodeUnauthorized :: int where "CodeUnauthorized = -32000"

definition errResponse :: "any \<Rightarrow> int \<Rightarrow> error \<Rightarrow> rpc_response" where
  "errResponse i code msg =
     \<lparr>rs_JSONRPC = ''2.0'', rs_ID = i, rs_Result = None, rs_Error = Some \<lparr>err_Code = code, err_Message = msg\<rparr>\<rparr>"

definition okResponse :: "any \<Rightarrow> json option \<Rightarrow> rpc_response" where
  "okResponse i result = \<lparr>rs_JSONRPC = ''2.0'', rs_ID = i, rs_Result = result, rs_Error = None\<rparr>"

text \<open>\<open>text\<close> is \<open>error.Error()\<close>; an absent result or error is omitted.\<close>

definition enc_response :: "(error \<Rightarrow> bytes) \<Rightarrow> rpc_response \<Rightarrow> json" where
  "enc_response text r = JObj
     ([(''jsonrpc'', enc_string (rs_JSONRPC r)), (''id'', enc_any (rs_ID r))] @
      (case rs_Result r of None \<Rightarrow> [] | Some j \<Rightarrow> [(''result'', j)]) @
      (case rs_Error r of None \<Rightarrow> [] | Some e \<Rightarrow>
         [(''error'', JObj [(''code'', enc_int64 (err_Code e)), (''message'', enc_string (text (err_Message e)))])]))"

section \<open>The methods\<close>

text \<open>A parameter object with one string.\<close>

definition dec_param :: "bytes \<Rightarrow> json \<Rightarrow> bytes result" where
  "dec_param name = decode_struct [name] (\<lambda>k v s. dec_string s v) []"

record block_params =
  bp_Hash :: bytes
  bp_Height :: "int64 option"

definition block_params_field :: "bytes \<Rightarrow> json \<Rightarrow> block_params \<Rightarrow> block_params result" where
  "block_params_field k v p =
     (if k = ''hash'' then map_result (\<lambda>x. p\<lparr>bp_Hash := x\<rparr>) (dec_string (bp_Hash p) v)
      else map_result (\<lambda>x. p\<lparr>bp_Height := x\<rparr>) (dec_ptr dec_int64 0 (bp_Height p) v))"

definition dec_block_params :: "json \<Rightarrow> block_params result" where
  "dec_block_params = decode_struct [''hash'', ''height''] block_params_field \<lparr>bp_Hash = [], bp_Height = None\<rparr>"

definition rpc_getBlock :: "'d block_db \<Rightarrow> rpc_request \<Rightarrow> 'd node \<Rightarrow> rpc_response" where
  "rpc_getBlock B req nd =
     (case unmarshal_raw dec_block_params (rq_Params req) of
        Inl e \<Rightarrow> errResponse (rq_ID req) CodeInvalidParams (Wrapf ''params'' e)
      | Inr params \<Rightarrow>
      case (if bp_Hash params \<noteq> [] then map_result Some (bc_GetBlock B (nd_chain nd) (bp_Hash params))
            else case bp_Height params of
              Some h \<Rightarrow> map_result Some (bc_GetBlockByHeight B (nd_chain nd) h)
            | None \<Rightarrow> Inr (bc_tip (nd_chain nd))) of
        Inl e \<Rightarrow> errResponse (rq_ID req) CodeInternalError e
      | Inr None \<Rightarrow> okResponse (rq_ID req) None
      | Inr (Some b) \<Rightarrow> okResponse (rq_ID req) (Some (enc_block b)))"

text \<open>
  The scheme of the methods with one required string parameter, whose decoding, emptiness check and error
  reply \<open>handler.go\<close> repeats.
\<close>

definition rpc_lookup :: "bytes \<Rightarrow> error \<Rightarrow> (bytes \<Rightarrow> 'a result) \<Rightarrow> (bytes \<Rightarrow> 'a \<Rightarrow> json) \<Rightarrow> rpc_request \<Rightarrow> rpc_response" where
  "rpc_lookup name missing get reply req =
     (case unmarshal_raw (dec_param name) (rq_Params req) of
        Inl e \<Rightarrow> errResponse (rq_ID req) CodeInvalidParams e
      | Inr x \<Rightarrow>
      if x = [] then errResponse (rq_ID req) CodeInvalidParams missing
      else case get x of
        Inl e \<Rightarrow> errResponse (rq_ID req) CodeInternalError e
      | Inr v \<Rightarrow> okResponse (rq_ID req) (Some (reply x v)))"

definition rpc_getBalance :: "'d db_iface \<Rightarrow> rpc_request \<Rightarrow> 'd node \<Rightarrow> rpc_response" where
  "rpc_getBalance I req nd = rpc_lookup ''address'' (Errorf ''address is required'') (GetAccount I (nd_state nd))
     (\<lambda>a acc. JObj [(''address'', enc_string a), (''balance'', enc_uint64 (acc_Balance acc)),
        (''nonce'', enc_uint64 (acc_Nonce acc))]) req"

definition rpc_getAsset :: "env \<Rightarrow> 'd db_iface \<Rightarrow> rpc_request \<Rightarrow> 'd node \<Rightarrow> rpc_response" where
  "rpc_getAsset E I req nd =
     rpc_lookup ''id'' (Errorf ''id is required'') (GetAsset E I (nd_state nd)) (\<lambda>_. enc_asset) req"

definition rpc_getSession :: "'d db_iface \<Rightarrow> rpc_request \<Rightarrow> 'd node \<Rightarrow> rpc_response" where
  "rpc_getSession I req nd =
     rpc_lookup ''id'' (Errorf ''id is required'') (GetSession I (nd_state nd)) (\<lambda>_. enc_session) req"

definition rpc_getListing :: "'d db_iface \<Rightarrow> rpc_request \<Rightarrow> 'd node \<Rightarrow> rpc_response" where
  "rpc_getListing I req nd =
     rpc_lookup ''id'' (Errorf ''id is required'') (GetListing I (nd_state nd)) (\<lambda>_. enc_listing) req"

definition rpc_getAssetsByOwner :: "'d db_iface \<Rightarrow> rpc_request \<Rightarrow> 'd node \<Rightarrow> rpc_response" where
  "rpc_getAssetsByOwner I req nd =
     rpc_lookup ''owner'' (Errorf ''owner is required'') (GetAssetsByOwner I (sdb_db (nd_state nd)))
       (\<lambda>_. enc_slice enc_string) req"

definition rpc_sendTx :: "env \<Rightarrow> bytes \<Rightarrow> int64 \<Rightarrow> rpc_request \<Rightarrow> 'd node \<Rightarrow> 'd node \<times> rpc_response" where
  "rpc_sendTx E chainID now req nd =
     (case unmarshal_raw dec_transaction (rq_Params req) of
        Inl e \<Rightarrow> (nd, errResponse (rq_ID req) CodeInvalidParams e)
      | Inr tx0 \<Rightarrow>
      if tx_ChainID tx0 \<noteq> chainID then (nd, errResponse (rq_ID req) CodeInvalidParams (Errorf ''chain ID mismatch''))
      else let tx = tx0\<lparr>tx_ID := tx_Hash E tx0\<rparr> in
      case pool_Add E now tx (nd_pool nd) of
        (m, Inl e) \<Rightarrow> (nd\<lparr>nd_pool := m\<rparr>, errResponse (rq_ID req) CodeInternalError e)
      | (m, Inr _) \<Rightarrow> (nd\<lparr>nd_pool := m\<rparr>, okResponse (rq_ID req) (Some (JObj [(''tx_id'', enc_string (tx_ID tx))]))))"

definition Dispatch ::
  "env \<Rightarrow> 'd db_iface \<Rightarrow> 'd block_db \<Rightarrow> bytes \<Rightarrow> int64 \<Rightarrow> rpc_request \<Rightarrow> 'd node \<Rightarrow> 'd node \<times> rpc_response" where
  "Dispatch E I B chainID now req nd =
     (if rq_Method req = ''getBlockHeight'' then (nd, okResponse (rq_ID req) (Some (enc_int64 (bc_height (nd_chain nd)))))
      else if rq_Method req = ''getBlock'' then (nd, rpc_getBlock B req nd)
      else if rq_Method req = ''getBalance'' then (nd, rpc_getBalance I req nd)
      else if rq_Method req = ''getAsset'' then (nd, rpc_getAsset E I req nd)
      else if rq_Method req = ''getSession'' then (nd, rpc_getSession I req nd)
      else if rq_Method req = ''getListing'' then (nd, rpc_getListing I req nd)
      else if rq_Method req = ''getAssetsByOwner'' then (nd, rpc_getAssetsByOwner I req nd)
      else if rq_Method req = ''sendTx'' then rpc_sendTx E chainID now req nd
      else if rq_Method req = ''getMempoolSize'' then (nd, okResponse (rq_ID req) (Some (enc_int64 (pool_Size (nd_pool nd)))))
      else (nd, errResponse (rq_ID req) CodeMethodNotFound (Errorf ''method not found'')))"

section \<open>The HTTP handler\<close>

record http_request =
  hq_Method :: bytes
  hq_Authorization :: bytes
  hq_Body :: bytes

datatype http_reply = TextReply int bytes | JsonReply int rpc_response

text \<open>
  \<open>json.NewDecoder(http.MaxBytesReader(...)).Decode\<close>: the first value of the body is decoded and what
  follows it is ignored. Only the first \<open>limit\<close> bytes can be read; a scalar that reaches the limit
  is not complete before the next byte, which the reader refuses.
\<close>

definition max_body :: nat where
  "max_body = 1 * 1024 * 1024"

definition decode_first :: "nat \<Rightarrow> (json \<Rightarrow> 'a result) \<Rightarrow> bytes \<Rightarrow> 'a result" where
  "decode_first limit dec body =
     (let s = take limit body in
      case parse_val (2 * length s + 2) max_nesting s of
        None \<Rightarrow> Inl JSONError
      | Some (v, r) \<Rightarrow>
      if r = [] \<and> limit < length body \<and> jdepth v = 0 then Inl (Errorf ''http: request body too large'') else dec v)"

definition serveHTTP ::
  "env \<Rightarrow> 'd db_iface \<Rightarrow> 'd block_db \<Rightarrow> bytes \<Rightarrow> bytes \<Rightarrow> int64 \<Rightarrow> http_request \<Rightarrow> 'd node \<Rightarrow> 'd node \<times> http_reply" where
  "serveHTTP E I B authToken chainID now r nd =
     (if hq_Method r \<noteq> ''POST'' then (nd, TextReply 405 ''only POST allowed'')
      else if authToken \<noteq> [] \<and> hq_Authorization r \<noteq> ''Bearer '' @ authToken
        then (nd, JsonReply 401 (errResponse ANil CodeUnauthorized (Errorf ''unauthorized'')))
      else case decode_first max_body (dec_request (float_norm E)) (hq_Body r) of
        Inl e \<Rightarrow> (nd, JsonReply 200 (errResponse ANil CodeParseError e))
      | Inr req \<Rightarrow>
      if rq_JSONRPC req \<noteq> ''2.0''
        then (nd, JsonReply 200 (errResponse (rq_ID req) CodeInvalidRequest (Errorf ''jsonrpc must be 2.0'')))
      else let (nd', resp) = Dispatch E I B chainID now req nd in (nd', JsonReply 200 resp))"

end
