(* ===== verification/Wallet.thy ===== *)
theory Wallet
  imports Consensus Files JsonIndent
begin

text \<open>
  \<open>wallet/wallet.go\<close> and \<open>wallet/keystore.go\<close>: building signed transactions, and the encrypted key file.
\<close>

section \<open>Transactions of a wallet\<close>

record wallet =
  w_priv :: bytes
  w_pub :: bytes

definition wallet_New :: "env \<Rightarrow> bytes \<Rightarrow> wallet" where
  "wallet_New E priv = \<lparr>w_priv = priv, w_pub = Public E priv\<rparr>"

text \<open>\<open>gen\<close> is the outcome of \<open>ed25519.GenerateKey(rand.Reader)\<close>: public and private key.\<close>

definition GenerateKeyPair :: "(bytes \<times> bytes) result \<Rightarrow> (bytes \<times> bytes) result" where
  "GenerateKeyPair gen = (case gen of Inl e \<Rightarrow> Inl e | Inr (pub, priv) \<Rightarrow> Inr (priv, pub))"

definition wallet_Generate :: "env \<Rightarrow> (bytes \<times> bytes) result \<Rightarrow> wallet result" where
  "wallet_Generate E gen =
     (case GenerateKeyPair gen of Inl e \<Rightarrow> Inl e | Inr (priv, _) \<Rightarrow> Inr (wallet_New E priv))"

definition wallet_PubKey :: "wallet \<Rightarrow> bytes" where
  "wallet_PubKey w = Hex (w_pub w)"

definition wallet_Address :: "env \<Rightarrow> wallet \<Rightarrow> bytes" where
  "wallet_Address E w = Address_of E (w_pub w)"

definition wallet_NewTx ::
  "env \<Rightarrow> int64 \<Rightarrow> bytes \<Rightarrow> bytes \<Rightarrow> uint64 \<Rightarrow> uint64 \<Rightarrow> json result \<Rightarrow> wallet \<Rightarrow> transaction result" where
  "wallet_NewTx E now chainID ty nonce fee payload w =
     (case NewTransaction chainID ty (Hex (w_pub w)) nonce fee payload now of
        Inl e \<Rightarrow> Inl e
      | Inr tx \<Rightarrow> Inr (tx_Sign E (w_priv w) tx))"

definition enc_transfer :: "transfer_payload \<Rightarrow> json" where
  "enc_transfer p = JObj [(''to'', enc_string (tp_To p)), (''amount'', enc_uint64 (tp_Amount p))]"

definition wallet_Transfer ::
  "env \<Rightarrow> int64 \<Rightarrow> bytes \<Rightarrow> bytes \<Rightarrow> uint64 \<Rightarrow> uint64 \<Rightarrow> uint64 \<Rightarrow> wallet \<Rightarrow> transaction result" where
  "wallet_Transfer E now chainID to amount nonce fee w =
     wallet_NewTx E now chainID TxTransfer nonce fee (Inr (enc_transfer \<lparr>tp_To = to, tp_Amount = amount\<rparr>)) w"

section \<open>The key file\<close>

record keystore =
  ks_PubKey :: bytes
  ks_Salt :: bytes
  ks_Nonce :: bytes
  ks_CipherText :: bytes

definition enc_keystore :: "keystore \<Rightarrow> json" where
  "enc_keystore ks = JObj
     [(''pub_key'', enc_string (ks_PubKey ks)), (''salt'', enc_string (ks_Salt ks)),
      (''nonce'', enc_string (ks_Nonce ks)), (''cipher_text'', enc_string (ks_CipherText ks))]"

definition keystore_field :: "bytes \<Rightarrow> json \<Rightarrow> keystore \<Rightarrow> keystore result" where
  "keystore_field k v ks =
     (if k = ''pub_key'' then map_result (\<lambda>x. ks\<lparr>ks_PubKey := x\<rparr>) (dec_string (ks_PubKey ks) v)
      else if k = ''salt'' then map_result (\<lambda>x. ks\<lparr>ks_Salt := x\<rparr>) (dec_string (ks_Salt ks) v)
      else if k = ''nonce'' then map_result (\<lambda>x. ks\<lparr>ks_Nonce := x\<rparr>) (dec_string (ks_Nonce ks) v)
      else map_result (\<lambda>x. ks\<lparr>ks_CipherText := x\<rparr>) (dec_string (ks_CipherText ks) v))"

definition dec_keystore :: "json \<Rightarrow> keystore result" where
  "dec_keystore = decode_struct [''pub_key'', ''salt'', ''nonce'', ''cipher_text''] keystore_field
     \<lparr>ks_PubKey = [], ks_Salt = [], ks_Nonce = [], ks_CipherText = []\<rparr>"

text \<open>
  The primitives: PBKDF2 (password, salt, iterations, key length), and AES-GCM sealing and opening with a
  key and a nonce. \<open>aes.NewCipher\<close> accepts keys of 16, 24 and 32 bytes, and GCM takes any AES cipher.
\<close>

record seal_env =
  pbkdf2_Key :: "bytes \<Rightarrow> bytes \<Rightarrow> nat \<Rightarrow> nat \<Rightarrow> bytes"
  gcm_Seal :: "bytes \<Rightarrow> bytes \<Rightarrow> bytes \<Rightarrow> bytes"
  gcm_Open :: "bytes \<Rightarrow> bytes \<Rightarrow> bytes \<Rightarrow> bytes option"

definition gcm_NonceSize :: nat where "gcm_NonceSize = 12"

definition aes_NewCipher :: "bytes \<Rightarrow> bytes result" where
  "aes_NewCipher key = (if length key \<in> {16, 24, 32} then Inr key else Inl (Errorf ''crypto/aes: invalid key size''))"

text \<open>Documented: the derived key has the length asked for, and opening what was sealed gives the plaintext.\<close>

definition seal_ok :: "seal_env \<Rightarrow> bool" where
  "seal_ok S \<longleftrightarrow> (\<forall>pw salt n len. length (pbkdf2_Key S pw salt n len) = len) \<and>
     (\<forall>key nonce p. length nonce = gcm_NonceSize \<longrightarrow> gcm_Open S key nonce (gcm_Seal S key nonce p) = Some p)"

definition deriveKey :: "seal_env \<Rightarrow> bytes \<Rightarrow> bytes \<Rightarrow> bytes" where
  "deriveKey S password salt = pbkdf2_Key S password salt 210000 32"

text \<open>\<open>rsalt\<close> and \<open>rnonce\<close> are the two reads of \<open>rand.Reader\<close>.\<close>

definition SaveKey ::
  "env \<Rightarrow> seal_env \<Rightarrow> 'f fs_iface \<Rightarrow> bytes result \<Rightarrow> bytes result \<Rightarrow> bytes \<Rightarrow> bytes \<Rightarrow> bytes \<Rightarrow> 'f \<Rightarrow> 'f \<times> unit result" where
  "SaveKey E S F rsalt rnonce path password priv f =
     (case rsalt of Inl e \<Rightarrow> (f, Inl e)
      | Inr salt \<Rightarrow>
      let key = deriveKey S password salt in
      case aes_NewCipher key of Inl e \<Rightarrow> (f, Inl e)
      | Inr blk \<Rightarrow>
      case rnonce of Inl e \<Rightarrow> (f, Inl e)
      | Inr nonce \<Rightarrow>
      let cipherText = gcm_Seal S blk nonce priv;
          ks = \<lparr>ks_PubKey = Hex (Public E priv), ks_Salt = hex_encode salt, ks_Nonce = hex_encode nonce,
                ks_CipherText = hex_encode cipherText\<rparr>
      in fs_WriteFile F f path (MarshalIndent enc_keystore ks))"

definition hex_DecodeString :: "bytes \<Rightarrow> bytes result" where
  "hex_DecodeString s = (case hex_decode s of None \<Rightarrow> Inl (Errorf ''encoding/hex: invalid'') | Some b \<Rightarrow> Inr b)"

text \<open>Opening with a nonce of another length than the cipher's panics.\<close>

definition LoadKey :: "seal_env \<Rightarrow> 'f fs_iface \<Rightarrow> bytes \<Rightarrow> bytes \<Rightarrow> 'f \<Rightarrow> bytes outcome" where
  "LoadKey S F path password f =
     (case fs_ReadFile F f path of Inl e \<Rightarrow> Err e
      | Inr data \<Rightarrow>
      case unmarshal dec_keystore data of Inl e \<Rightarrow> Err e
      | Inr ks \<Rightarrow>
      case hex_DecodeString (ks_Salt ks) of Inl e \<Rightarrow> Err e
      | Inr salt \<Rightarrow>
      case hex_DecodeString (ks_Nonce ks) of Inl e \<Rightarrow> Err e
      | Inr nonce \<Rightarrow>
      case hex_DecodeString (ks_CipherText ks) of Inl e \<Rightarrow> Err e
      | Inr cipherText \<Rightarrow>
      let key = deriveKey S password salt in
      case aes_NewCipher key of Inl e \<Rightarrow> Err e
      | Inr blk \<Rightarrow>
      if length nonce \<noteq> gcm_NonceSize then Panic
      else case gcm_Open S blk nonce cipherText of
        None \<Rightarrow> Err (Errorf ''wrong password or corrupted keystore'')
      | Some priv \<Rightarrow> Ok priv)"

section \<open>Reading the key file back\<close>

definition keystore_ok :: "keystore \<Rightarrow> bool" where
  "keystore_ok ks \<longleftrightarrow> utf8_ok (ks_PubKey ks) \<and> utf8_ok (ks_Salt ks) \<and> utf8_ok (ks_Nonce ks) \<and> utf8_ok (ks_CipherText ks)"

interpretation keystore_codec: json_codec enc_keystore dec_keystore keystore_ok
  by unfold_locales
    (simp_all add: enc_keystore_def dec_keystore_def keystore_field_def keystore_ok_def struct_simps)

lemma hex_text [simp]: "utf8_ok (hex_encode s)" "hex_DecodeString (hex_encode s) = Inr s"
  by (simp_all add: utf8_ok_hex hex_encode_hex hex_DecodeString_def)

lemma LoadKey_file:
  assumes "fs_ReadFile F f path = Inr (MarshalIndent enc_keystore
      \<lparr>ks_PubKey = hex_encode p, ks_Salt = hex_encode salt, ks_Nonce = hex_encode nonce, ks_CipherText = hex_encode c\<rparr>)"
    and "seal_ok S"
  shows "LoadKey S F path password f =
    (if length nonce \<noteq> gcm_NonceSize then Panic
     else case gcm_Open S (deriveKey S password salt) nonce c of
       None \<Rightarrow> Err (Errorf ''wrong password or corrupted keystore'') | Some priv \<Rightarrow> Ok priv)"
  using assms by (simp add: LoadKey_def keystore_codec.unmarshal_MarshalIndent keystore_ok_def aes_NewCipher_def deriveKey_def seal_ok_def)

lemma SaveKey_file:
  assumes "SaveKey E S F rsalt rnonce path password priv f = (f', Inr u)" "fs_ok F" "seal_ok S"
  obtains salt nonce where "rsalt = Inr salt" "rnonce = Inr nonce"
    "fs_ReadFile F f' path = Inr (MarshalIndent enc_keystore \<lparr>ks_PubKey = hex_encode (Public E priv),
       ks_Salt = hex_encode salt, ks_Nonce = hex_encode nonce,
       ks_CipherText = hex_encode (gcm_Seal S (deriveKey S password salt) nonce priv)\<rparr>)"
  using assms by (auto simp: SaveKey_def Let_def aes_NewCipher_def fs_ok_def Hex_def split: sum.splits if_splits intro: that)

section \<open>What a wallet builds\<close>

lemma wallet_Transfer_tx:
  "wallet_Transfer E now chainID to amount nonce fee (wallet_New E priv) = Inr (tx_Sign E priv
     \<lparr>tx_ID = [], tx_ChainID = chainID, tx_Type = TxTransfer, tx_From = Hex (Public E priv), tx_Nonce = nonce,
      tx_Fee = fee, tx_Timestamp = now, tx_Payload = Some (enc_transfer \<lparr>tp_To = to, tp_Amount = amount\<rparr>),
      tx_Signature = []\<rparr>)"
  by (simp add: wallet_Transfer_def wallet_NewTx_def NewTransaction_def wallet_New_def)

end
