(* ===== verification/Certgen.thy ===== *)
theory Certgen
  imports Files "HOL-Library.Word"
begin

text \<open>
  \<open>crypto/certgen/certgen.go\<close>: a self-signed CA and a node certificate under it, written as PEM files.
  X.509, ECDSA and PEM are parameters.
\<close>

unbundle bit_operations_syntax

section \<open>Certificates\<close>

datatype ext_key_usage = ExtKeyUsageClientAuth | ExtKeyUsageServerAuth

definition KeyUsageDigitalSignature :: int where "KeyUsageDigitalSignature = push_bit 0 1"
definition KeyUsageKeyEncipherment :: int where "KeyUsageKeyEncipherment = push_bit 2 1"
definition KeyUsageCertSign :: int where "KeyUsageCertSign = push_bit 5 1"
definition KeyUsageCRLSign :: int where "KeyUsageCRLSign = push_bit 6 1"

text \<open>
  Of \<open>x509.Certificate\<close> the fields the templates set, and \<open>Raw\<close>, which parsing fills. Times are in
  nanoseconds.
\<close>

record certificate =
  crt_SerialNumber :: int
  crt_CommonName :: bytes
  crt_NotBefore :: int
  crt_NotAfter :: int
  crt_KeyUsage :: int
  crt_ExtKeyUsage :: "ext_key_usage list"
  crt_IsCA :: bool
  crt_BasicConstraintsValid :: bool
  crt_MaxPathLen :: int
  crt_MaxPathLenZero :: bool
  crt_IPAddresses :: "bytes list"
  crt_DNSNames :: "bytes list"
  crt_Raw :: bytes

record cert_options =
  opt_ExtraIPs :: "bytes list"
  opt_ExtraDNS :: "bytes list"

definition Hour :: int where "Hour = 3600 * 1000000000"

definition ca_template :: "int \<Rightarrow> int \<Rightarrow> int \<Rightarrow> certificate" where
  "ca_template serial now1 now2 =
     \<lparr>crt_SerialNumber = serial, crt_CommonName = ''TOL Chain CA'', crt_NotBefore = now1 + (-1) * Hour,
      crt_NotAfter = now2 + 10 * 365 * 24 * Hour, crt_KeyUsage = KeyUsageCertSign OR KeyUsageCRLSign,
      crt_ExtKeyUsage = [], crt_IsCA = True, crt_BasicConstraintsValid = True, crt_MaxPathLen = 0,
      crt_MaxPathLenZero = True, crt_IPAddresses = [], crt_DNSNames = [], crt_Raw = []\<rparr>"

text \<open>\<open>net.IPv4(127, 0, 0, 1)\<close> in its 16-byte form, and \<open>net.IPv6loopback\<close>.\<close>

definition ip_loopback4 :: bytes where
  "ip_loopback4 = replicate 10 (CHR 0x00) @ [CHR 0xFF, CHR 0xFF, CHR 0x7F, CHR 0x00, CHR 0x00, CHR 0x01]"

definition ip_loopback6 :: bytes where
  "ip_loopback6 = replicate 15 (CHR 0x00) @ [CHR 0x01]"

definition node_template :: "bytes \<Rightarrow> cert_options option \<Rightarrow> int \<Rightarrow> int \<Rightarrow> int \<Rightarrow> certificate" where
  "node_template nodeID opts serial now1 now2 =
     (let ips = [ip_loopback4, ip_loopback6]; dns = [''localhost'', nodeID];
          (ips', dns') = (case opts of None \<Rightarrow> (ips, dns) | Some p \<Rightarrow> (ips @ opt_ExtraIPs p, dns @ opt_ExtraDNS p))
      in \<lparr>crt_SerialNumber = serial, crt_CommonName = nodeID, crt_NotBefore = now1 + (-1) * Hour,
          crt_NotAfter = now2 + 5 * 365 * 24 * Hour, crt_KeyUsage = KeyUsageDigitalSignature OR KeyUsageKeyEncipherment,
          crt_ExtKeyUsage = [ExtKeyUsageClientAuth, ExtKeyUsageServerAuth], crt_IsCA = False,
          crt_BasicConstraintsValid = False, crt_MaxPathLen = 0, crt_MaxPathLenZero = False,
          crt_IPAddresses = ips', crt_DNSNames = dns', crt_Raw = []\<rparr>)"

section \<open>The libraries\<close>

text \<open>
  \<open>'k\<close> are private and \<open>'q\<close> public keys. The first argument of \<open>x509_CreateCertificate\<close> stands for what
  it draws from \<open>rand.Reader\<close>; the others are template, parent, key of the subject and key of the signer.
\<close>

record ('k, 'q) x509_lib =
  ecdsa_Public :: "'k \<Rightarrow> 'q"
  x509_CreateCertificate :: "nat \<Rightarrow> certificate \<Rightarrow> certificate \<Rightarrow> 'q \<Rightarrow> 'k \<Rightarrow> bytes result"
  x509_ParseCertificate :: "bytes \<Rightarrow> certificate result"
  x509_MarshalECPrivateKey :: "'k \<Rightarrow> bytes result"
  pem_Text :: "bytes \<Rightarrow> bytes \<Rightarrow> bytes"

text \<open>The keys and serial numbers drawn in a run, and the readings of the clock in their order.\<close>

record 'k cert_draws =
  cd_caKey :: "'k result"
  cd_caSerial :: "int result"
  cd_nodeKey :: "'k result"
  cd_nodeSerial :: "int result"
  cd_now :: "nat \<Rightarrow> int"

section \<open>Generation\<close>

text \<open>\<open>drawn\<close> is the outcome of \<open>rand.Int\<close>.\<close>

definition randomSerial :: "int result \<Rightarrow> int result" where
  "randomSerial drawn = (case drawn of Inl e \<Rightarrow> Inl (Wrapf ''generate serial'' e) | Inr serial \<Rightarrow> Inr serial)"

definition writePEM ::
  "('k, 'q) x509_lib \<Rightarrow> 'f fs_iface \<Rightarrow> bytes \<Rightarrow> bytes \<Rightarrow> bytes \<Rightarrow> 'f \<Rightarrow> 'f \<times> unit result" where
  "writePEM X F path ty data f =
     (case fs_Create F f path of
        (f1, Inl e) \<Rightarrow> (f1, Inl (Wrapf ''create'' e))
      | (f1, Inr _) \<Rightarrow>
      case fs_Append F f1 path (pem_Text X ty data) of
        (f2, Inl e) \<Rightarrow> (f2, Inl (Wrapf ''write'' e))
      | (f2, Inr _) \<Rightarrow>
      case fs_Sync F f2 path of
        (f3, Inl e) \<Rightarrow> (f3, Inl (Wrapf ''sync'' e))
      | (f3, Inr _) \<Rightarrow> (f3, Inr ()))"

definition CERTIFICATE :: bytes where "CERTIFICATE = ''CERTIFICATE''"
definition EC_PRIVATE_KEY :: bytes where "EC_PRIVATE_KEY = ''EC PRIVATE KEY''"

text \<open>The two halves of \<open>GenerateAll\<close>: the CA with its two files, which the node certificate needs, and the node.\<close>

definition generate_ca ::
  "('k, 'q) x509_lib \<Rightarrow> 'f fs_iface \<Rightarrow> 'k cert_draws \<Rightarrow> bytes \<Rightarrow> 'f \<Rightarrow> 'f \<times> ('k \<times> certificate) result" where
  "generate_ca X F D dir f =
     (case cd_caKey D of Inl e \<Rightarrow> (f, Inl (Wrapf ''generate CA key'' e))
      | Inr caKey \<Rightarrow>
      case randomSerial (cd_caSerial D) of Inl e \<Rightarrow> (f, Inl e)
      | Inr caSerial \<Rightarrow>
      let caTemplate = ca_template caSerial (cd_now D 0) (cd_now D 1) in
      case x509_CreateCertificate X 0 caTemplate caTemplate (ecdsa_Public X caKey) caKey of
        Inl e \<Rightarrow> (f, Inl (Wrapf ''create CA cert'' e))
      | Inr caCertDER \<Rightarrow>
      case x509_ParseCertificate X caCertDER of Inl e \<Rightarrow> (f, Inl (Wrapf ''parse CA cert'' e))
      | Inr caCert \<Rightarrow>
      case writePEM X F (filepath_Join dir ''ca.crt'') CERTIFICATE caCertDER f of (f1, Inl e) \<Rightarrow> (f1, Inl e)
      | (f1, Inr _) \<Rightarrow>
      case x509_MarshalECPrivateKey X caKey of Inl e \<Rightarrow> (f1, Inl e)
      | Inr caKeyDER \<Rightarrow>
      case writePEM X F (filepath_Join dir ''ca.key'') EC_PRIVATE_KEY caKeyDER f1 of (f2, Inl e) \<Rightarrow> (f2, Inl e)
      | (f2, Inr _) \<Rightarrow> (f2, Inr (caKey, caCert)))"

definition generate_node ::
  "('k, 'q) x509_lib \<Rightarrow> 'f fs_iface \<Rightarrow> 'k cert_draws \<Rightarrow> bytes \<Rightarrow> bytes \<Rightarrow> cert_options option \<Rightarrow> 'k \<Rightarrow> certificate \<Rightarrow> 'f \<Rightarrow>
     'f \<times> unit result" where
  "generate_node X F D dir nodeID opts caKey caCert f =
     (case cd_nodeKey D of Inl e \<Rightarrow> (f, Inl (Wrapf ''generate node key'' e))
      | Inr nodeKey \<Rightarrow>
      case randomSerial (cd_nodeSerial D) of Inl e \<Rightarrow> (f, Inl e)
      | Inr nodeSerial \<Rightarrow>
      case x509_CreateCertificate X 1 (node_template nodeID opts nodeSerial (cd_now D 2) (cd_now D 3)) caCert
          (ecdsa_Public X nodeKey) caKey of
        Inl e \<Rightarrow> (f, Inl (Wrapf ''create node cert'' e))
      | Inr nodeCertDER \<Rightarrow>
      case writePEM X F (filepath_Join dir (nodeID @ ''.crt'')) CERTIFICATE nodeCertDER f of (f1, Inl e) \<Rightarrow> (f1, Inl e)
      | (f1, Inr _) \<Rightarrow>
      case x509_MarshalECPrivateKey X nodeKey of Inl e \<Rightarrow> (f1, Inl e)
      | Inr nodeKeyDER \<Rightarrow> writePEM X F (filepath_Join dir (nodeID @ ''.key'')) EC_PRIVATE_KEY nodeKeyDER f1)"

definition GenerateAll ::
  "('k, 'q) x509_lib \<Rightarrow> 'f fs_iface \<Rightarrow> 'k cert_draws \<Rightarrow> bytes \<Rightarrow> bytes \<Rightarrow> cert_options option \<Rightarrow> 'f \<Rightarrow> 'f \<times> unit result" where
  "GenerateAll X F D dir nodeID opts f =
     (case fs_MkdirAll F f dir of (f1, Inl e) \<Rightarrow> (f1, Inl (Wrapf ''mkdir'' e))
      | (f1, Inr _) \<Rightarrow>
      case generate_ca X F D dir f1 of (f2, Inl e) \<Rightarrow> (f2, Inl e)
      | (f2, Inr (caKey, caCert)) \<Rightarrow> generate_node X F D dir nodeID opts caKey caCert f2)"

section \<open>What is in the files\<close>

lemma writePEM_reads:
  assumes "writePEM X F path ty data f = (f', Inr u)" "fs_ok F"
  shows "fs_ReadFile F f' = (fs_ReadFile F f)(path := Inr (pem_Text X ty data))"
proof -
  obtain f1 f2 where s: "fs_Create F f path = (f1, Inr ())" "fs_Append F f1 path (pem_Text X ty data) = (f2, Inr ())"
    "fs_Sync F f2 path = (f', Inr ())"
    using assms(1) by (auto simp: writePEM_def split: prod.splits sum.splits)
  have 1: "fs_ReadFile F f1 = (fs_ReadFile F f)(path := Inr [])" using assms(2) s(1) by (simp add: fs_ok_def)
  then have "fs_ReadFile F f1 path = Inr []" by simp
  then have "fs_ReadFile F f2 = (fs_ReadFile F f1)(path := Inr ([] @ pem_Text X ty data))"
    using assms(2) s(2) unfolding fs_ok_def by blast
  moreover have "fs_ReadFile F f' = fs_ReadFile F f2" using assms(2) s(3) unfolding fs_ok_def by blast
  ultimately show ?thesis using 1 by simp
qed

text \<open>The certificates and keys of a run, and the files that hold them.\<close>

definition certs_made ::
  "('k, 'q) x509_lib \<Rightarrow> 'k cert_draws \<Rightarrow> bytes \<Rightarrow> cert_options option \<Rightarrow> 'k \<times> certificate \<times> bytes \<times> bytes \<times> 'k \<times> bytes \<times> bytes \<Rightarrow> bool" where
  "certs_made X D nodeID opts = (\<lambda>(caKey, caCert, caDER, caKeyDER, nodeKey, nodeDER, nodeKeyDER).
     (\<exists>serial. x509_CreateCertificate X 0 (ca_template serial (cd_now D 0) (cd_now D 1))
        (ca_template serial (cd_now D 0) (cd_now D 1)) (ecdsa_Public X caKey) caKey = Inr caDER) \<and>
     x509_ParseCertificate X caDER = Inr caCert \<and> x509_MarshalECPrivateKey X caKey = Inr caKeyDER \<and>
     (\<exists>serial. x509_CreateCertificate X 1 (node_template nodeID opts serial (cd_now D 2) (cd_now D 3)) caCert
        (ecdsa_Public X nodeKey) caKey = Inr nodeDER) \<and>
     x509_MarshalECPrivateKey X nodeKey = Inr nodeKeyDER)"

lemma GenerateAll_files:
  assumes "GenerateAll X F D dir nodeID opts f = (f', Inr u)" "fs_ok F"
  obtains r caKey caCert caDER caKeyDER nodeKey nodeDER nodeKeyDER
  where "certs_made X D nodeID opts (caKey, caCert, caDER, caKeyDER, nodeKey, nodeDER, nodeKeyDER)"
    "fs_ReadFile F f' = r(filepath_Join dir ''ca.crt'' := Inr (pem_Text X CERTIFICATE caDER),
       filepath_Join dir ''ca.key'' := Inr (pem_Text X EC_PRIVATE_KEY caKeyDER),
       filepath_Join dir (nodeID @ ''.crt'') := Inr (pem_Text X CERTIFICATE nodeDER),
       filepath_Join dir (nodeID @ ''.key'') := Inr (pem_Text X EC_PRIVATE_KEY nodeKeyDER))"
proof -
  obtain f1 f2 caKey caCert where g: "generate_ca X F D dir f1 = (f2, Inr (caKey, caCert))"
    "generate_node X F D dir nodeID opts caKey caCert f2 = (f', Inr u)"
    using assms(1) by (auto simp: GenerateAll_def split: prod.splits sum.splits)
  obtain caDER caKeyDER f3 where a: "writePEM X F (filepath_Join dir ''ca.crt'') CERTIFICATE caDER f1 = (f3, Inr ())"
    "writePEM X F (filepath_Join dir ''ca.key'') EC_PRIVATE_KEY caKeyDER f3 = (f2, Inr ())"
    "\<exists>serial. x509_CreateCertificate X 0 (ca_template serial (cd_now D 0) (cd_now D 1))
        (ca_template serial (cd_now D 0) (cd_now D 1)) (ecdsa_Public X caKey) caKey = Inr caDER"
    "x509_ParseCertificate X caDER = Inr caCert" "x509_MarshalECPrivateKey X caKey = Inr caKeyDER"
    using g(1) by (auto simp: generate_ca_def Let_def split: prod.splits sum.splits)
  obtain nodeKey nodeDER nodeKeyDER f4 where b: "writePEM X F (filepath_Join dir (nodeID @ ''.crt'')) CERTIFICATE nodeDER f2 = (f4, Inr ())"
    "writePEM X F (filepath_Join dir (nodeID @ ''.key'')) EC_PRIVATE_KEY nodeKeyDER f4 = (f', Inr ())"
    "\<exists>serial. x509_CreateCertificate X 1 (node_template nodeID opts serial (cd_now D 2) (cd_now D 3)) caCert
        (ecdsa_Public X nodeKey) caKey = Inr nodeDER"
    "x509_MarshalECPrivateKey X nodeKey = Inr nodeKeyDER"
    using g(2) by (simp add: generate_node_def split: prod.splits sum.splits) blast
  have "certs_made X D nodeID opts (caKey, caCert, caDER, caKeyDER, nodeKey, nodeDER, nodeKeyDER)"
    unfolding certs_made_def prod.case using a(3-5) b(3,4) by blast
  from that [OF this] show thesis
    using writePEM_reads [OF b(2) assms(2)] writePEM_reads [OF b(1) assms(2)] writePEM_reads [OF a(2) assms(2)]
      writePEM_reads [OF a(1) assms(2)] by metis
qed

end
