(* ===== verification/Startup.thy ===== *)
theory Startup
  imports Network Rpc Wallet Certgen
begin

text \<open>
  \<open>cmd/node/main.go\<close> and \<open>config/tls.go\<close>: how a node starts, from its files to the running components.
\<close>

section \<open>Configuration and TLS\<close>

text \<open>\<open>data\<close> is the outcome of reading the file, \<open>notExist\<close> is \<open>os.IsNotExist\<close>.\<close>

definition loadConfig :: "(error \<Rightarrow> bool) \<Rightarrow> bytes result \<Rightarrow> config result" where
  "loadConfig notExist data =
     (case cfg_Load data of
        Inl e \<Rightarrow> if notExist e then Inr DefaultConfig else Inl e
      | Inr cfg \<Rightarrow> Inr cfg)"

datatype client_auth = NoClientCert | RequireAndVerifyClientCert

definition VersionTLS13 :: nat where "VersionTLS13 = 0x0304"

record ('x, 'p) tls_setup =
  ts_Certificates :: "'x list"
  ts_ClientCAs :: 'p
  ts_RootCAs :: 'p
  ts_ClientAuth :: client_auth
  ts_MinVersion :: nat

text \<open>What the loader takes from \<open>crypto/tls\<close>, \<open>os\<close> and \<open>crypto/x509\<close>.\<close>

record ('x, 'p) tls_lib =
  tls_LoadX509KeyPair :: "bytes \<Rightarrow> bytes \<Rightarrow> 'x result"
  tls_ReadFile :: "bytes \<Rightarrow> bytes result"
  tls_CertPool :: "bytes \<Rightarrow> 'p option"

definition LoadTLSConfig :: "('x, 'p) tls_lib \<Rightarrow> tls_config option \<Rightarrow> ('x, 'p) tls_setup option result" where
  "LoadTLSConfig T ocfg =
     (case ocfg of None \<Rightarrow> Inr None
      | Some cfg \<Rightarrow>
      if tls_CACert cfg = [] \<and> tls_NodeCert cfg = [] \<and> tls_NodeKey cfg = [] then Inr None
      else case tls_LoadX509KeyPair T (tls_NodeCert cfg) (tls_NodeKey cfg) of
        Inl e \<Rightarrow> Inl (Wrapf ''load node cert/key'' e)
      | Inr cert \<Rightarrow>
      case tls_ReadFile T (tls_CACert cfg) of
        Inl e \<Rightarrow> Inl (Wrapf ''read CA cert'' e)
      | Inr caPEM \<Rightarrow>
      case tls_CertPool T caPEM of
        None \<Rightarrow> Inl (Errorf ''failed to parse CA certificate'')
      | Some caPool \<Rightarrow>
      Inr (Some \<lparr>ts_Certificates = [cert], ts_ClientCAs = caPool, ts_RootCAs = caPool,
        ts_ClientAuth = RequireAndVerifyClientCert, ts_MinVersion = VersionTLS13\<rparr>))"

section \<open>Opening the chain\<close>

text \<open>
  State, chain and genesis on an opened database; \<open>log.Fatalf\<close> ends the process and leaves the
  database as it is then. The genesis block has a nil list of transactions.
\<close>

definition open_chain ::
  "env \<Rightarrow> 'd db_iface \<Rightarrow> int64 \<Rightarrow> config \<Rightarrow> bytes \<Rightarrow> 'd \<Rightarrow> 'd \<times> 'd node outcome" where
  "open_chain E I now cfg privKey d =
     (let B = LevelBlockStore I; state = NewStateDB d in
      case bc_Init B (NewBlockchain d) of
        (bc, Inl e) \<Rightarrow> (d, Fatal)
      | (bc, Inr _) \<Rightarrow>
      case bc_tip bc of
        Some t \<Rightarrow> (d, Ok \<lparr>nd_state = state, nd_bc = bc, nd_pool = NewMempool\<rparr>)
      | None \<Rightarrow>
      case CreateGenesisBlock E I now cfg privKey state of
        (s, Inl e) \<Rightarrow> (sdb_db s, Fatal)
      | (s, Inr g) \<Rightarrow>
      case bc_AddBlock B (store_form True g) (bc\<lparr>bc_store := sdb_db s\<rparr>) of
        (bc', Inl e) \<Rightarrow> (bc_store bc', Fatal)
      | (bc', Inr _) \<Rightarrow>
      (bc_store bc', Ok \<lparr>nd_state = s\<lparr>sdb_db := bc_store bc'\<rparr>, nd_bc = bc', nd_pool = NewMempool\<rparr>))"

text \<open>The emitter with the indexer subscribed, and the network node with its handlers.\<close>

definition node_emitter :: "'d db_iface \<Rightarrow> 'd emitter" where
  "node_emitter I = NewIndexer I NewEmitter"

definition node_p2p :: "env \<Rightarrow> 'd db_iface \<Rightarrow> 'c conn_iface \<Rightarrow> config \<Rightarrow> ('d node, 'c) p2p" where
  "node_p2p E I C cfg = NewSyncer E I (LevelBlockStore I) (node_emitter I) cfg C (NewNode E (cfg_NodeID cfg))"

text \<open>The seed peers; a seed that cannot be reached is skipped. The count decides about a warning.\<close>

fun connect_seeds ::
  "'c conn_iface \<Rightarrow> (bytes \<Rightarrow> 'c result) \<Rightarrow> 'd node \<Rightarrow> seed_peer list \<Rightarrow> ('d node, 'c) p2p \<Rightarrow> ('d node, 'c) p2p \<times> nat" where
  "connect_seeds C dial nd [] n = (n, 0)"
| "connect_seeds C dial nd (sp # sps) n =
     (case AddPeer C dial (seed_ID sp) (seed_Addr sp) n of
        (n1, Inl e) \<Rightarrow> connect_seeds C dial nd sps n1
      | (n1, Inr _) \<Rightarrow>
      let n2 = (case p2p_Peer (seed_ID sp) n1 of
                  None \<Rightarrow> n1
                | Some peer \<Rightarrow> n1\<lparr>p2p_peers := fmupd (seed_ID sp) (SyncWithPeer C nd peer) (p2p_peers n1)\<rparr>);
          (n3, k) = connect_seeds C dial nd sps n2
      in (n3, Suc k))"

section \<open>The process\<close>

text \<open>
  What the process gets from its surroundings: the flags, the password, the config file, the files for the
  key, the data directory, the database, the listeners and the clock.
\<close>

record ('d, 'f, 'x, 'p, 'c) main_env =
  me_keyPath :: bytes
  me_password :: bytes
  me_config :: "bytes result"
  me_notExist :: "error \<Rightarrow> bool"
  me_files :: "'f fs_iface"
  me_fs :: 'f
  me_seal :: seal_env
  me_rand :: "(bytes \<times> bytes) result \<times> bytes result \<times> bytes result"
  me_mkdir :: "bytes \<Rightarrow> unit result"
  me_openDB :: "bytes \<Rightarrow> 'd result"
  me_tls :: "('x, 'p) tls_lib"
  me_listenP2P :: "int64 \<Rightarrow> ('x, 'p) tls_setup option \<Rightarrow> unit result"
  me_dial :: "('x, 'p) tls_setup option \<Rightarrow> bytes \<Rightarrow> 'c result"
  me_listenRPC :: "int64 \<Rightarrow> unit result"
  me_now :: int64

record ('d, 'c) running =
  run_cfg :: config
  run_key :: bytes
  run_node :: "'d node"
  run_p2p :: "('d node, 'c) p2p"

text \<open>The mode \<open>-genkey\<close>: the new file system and the public key that is printed.\<close>

definition main_genkey :: "env \<Rightarrow> ('d, 'f, 'x, 'p, 'c) main_env \<Rightarrow> 'f \<times> bytes outcome" where
  "main_genkey E M =
     (let (gen, rsalt, rnonce) = me_rand M in
      case wallet_Generate E gen of
        Inl e \<Rightarrow> (me_fs M, Fatal)
      | Inr w \<Rightarrow>
      case SaveKey E (me_seal M) (me_files M) rsalt rnonce (me_keyPath M) (me_password M) (w_priv w) (me_fs M) of
        (f, Inl e) \<Rightarrow> (f, Fatal)
      | (f, Inr _) \<Rightarrow> (f, Ok (wallet_PubKey w)))"

text \<open>The mode \<open>-gencerts\<close>, with the directory of the flag and the config file as read.\<close>

definition main_gencerts ::
  "('k, 'q) x509_lib \<Rightarrow> 'f fs_iface \<Rightarrow> 'k cert_draws \<Rightarrow> bytes \<Rightarrow> (error \<Rightarrow> bool) \<Rightarrow> bytes result \<Rightarrow> 'f \<Rightarrow> 'f \<times> unit outcome" where
  "main_gencerts X F D genCerts notExist data f =
     (case loadConfig notExist data of
        Inl e \<Rightarrow> (f, Fatal)
      | Inr cfgForCerts \<Rightarrow>
      case GenerateAll X F D genCerts (cfg_NodeID cfgForCerts) None f of
        (f', Inl e) \<Rightarrow> (f', Fatal)
      | (f', Inr _) \<Rightarrow> (f', Ok ()))"

definition main_start ::
  "env \<Rightarrow> 'd db_iface \<Rightarrow> 'c conn_iface \<Rightarrow> ('d, 'f, 'x, 'p, 'c) main_env \<Rightarrow> ('d, 'c) running outcome" where
  "main_start E I C M =
     (case loadConfig (me_notExist M) (me_config M) of
        Inl e \<Rightarrow> Fatal
      | Inr cfg \<Rightarrow>
      case LoadKey (me_seal M) (me_files M) (me_keyPath M) (me_password M) (me_fs M) of
        Err e \<Rightarrow> Fatal | Fatal \<Rightarrow> Fatal | Panic \<Rightarrow> Panic
      | Ok privKey \<Rightarrow>
      case me_mkdir M (cfg_DataDir cfg) of
        Inl e \<Rightarrow> Fatal
      | Inr _ \<Rightarrow>
      case me_openDB M (cfg_DataDir cfg @ ''/chain'') of
        Inl e \<Rightarrow> Fatal
      | Inr db \<Rightarrow>
      case snd (open_chain E I (me_now M) cfg privKey db) of
        Err e \<Rightarrow> Fatal | Fatal \<Rightarrow> Fatal | Panic \<Rightarrow> Panic
      | Ok nd \<Rightarrow>
      case LoadTLSConfig (me_tls M) (cfg_TLS cfg) of
        Inl e \<Rightarrow> Fatal
      | Inr tlsCfg \<Rightarrow>
      case me_listenP2P M (cfg_P2PPort cfg) tlsCfg of
        Inl e \<Rightarrow> Fatal
      | Inr _ \<Rightarrow>
      let (node, connected) = connect_seeds C (me_dial M tlsCfg) nd (cfg_SeedPeers cfg) (node_p2p E I C cfg) in
      case me_listenRPC M (cfg_RPCPort cfg) of
        Inl e \<Rightarrow> Fatal
      | Inr _ \<Rightarrow> Ok \<lparr>run_cfg = cfg, run_key = privKey, run_node = nd, run_p2p = node\<rparr>)"

end
