(* ===== verification/NodeSteps.thy ===== *)
theory NodeSteps
  imports NodeRun Startup
begin

text \<open>
  The running node as a transition system: ticks of the block producer, messages a peer sent and requests a
  client sent, in any order and with any contents.
\<close>

section \<open>What arrives fits the node\<close>

text \<open>
  A transaction arrives inside an envelope, so it is nested at most \<open>max_nesting - 1\<close> deep. In a stored
  block it is two levels deeper than in its envelope; one more level is needed for the block to be read back.
\<close>

definition not_too_deep :: "json option \<Rightarrow> bool" where
  "not_too_deep p \<longleftrightarrow> pred_option (\<lambda>j. jdepth j + 2 \<le> max_nesting) p"

lemma parsed_shallow:
  assumes "parse_val n max_nesting s = Some (j, r)" "length s < 2 ^ 63"
  shows "shallow max_nesting j"
  using parse_sound(1) [OF assms(1)] parse_print_length(1) [OF assms(1)] assms(2) by (simp add: shallow_def payload_fits_def)

lemma max_nesting_Suc: "max_nesting = Suc (max_nesting - 1)"
  by (simp add: max_nesting_def)

definition received :: "message \<Rightarrow> bool" where
  "received msg \<longleftrightarrow> (\<exists>buf. length buf \<le> max_message \<and> unmarshal dec_message buf = Inr msg)"

lemma received_fits:
  assumes "received msg"
  shows "payload_fits (msg_Payload msg)"
proof -
  obtain buf j r n where b: "length buf \<le> max_message" "dec_message j = Inr msg" "parse_val n max_nesting buf = Some (j, r)"
    using assms by (auto simp: received_def unmarshal_def parse_json_def simp del: parse_val.simps
        split: option.splits prod.splits if_splits)
  have j: "shallow (Suc (max_nesting - 1)) j"
    using parsed_shallow [OF b(3)] b(1) max_nesting_Suc by (simp add: max_message_def)
  show ?thesis
    using b(2) unfolding dec_message_def
    by (rule decode_struct_shallow [where P = "\<lambda>m. payload_fits (msg_Payload m)", OF _ _ j])
      (auto simp: message_field_def map_result_Inr shallow_def payload_fits_def split: if_splits)
qed

lemma peer_Receive_received:
  assumes "peer_Receive C p = (p', Inr msg)" "\<And>c n c' d. conn_ReadFull C c n = (c', Inr d) \<Longrightarrow> length d = n"
  shows "received msg"
proof -
  obtain c c' len buf where "conn_ReadFull C c len = (c', Inr buf)" "\<not> max_message < len" "unmarshal dec_message buf = Inr msg"
    using assms(1) by (auto simp: peer_Receive_def Let_def split: sum.splits prod.splits if_splits)
  then show ?thesis using assms(2) [of c len c' buf] by (auto simp: received_def not_less intro: exI [of _ buf])
qed

lemma request_fits:
  assumes "decode_first max_body (dec_request fn) body = Inr req"
  shows "payload_fits (rq_Params req)"
proof -
  obtain j r n where b: "dec_request fn j = Inr req" "parse_val n max_nesting (take max_body body) = Some (j, r)"
    using assms by (auto simp: decode_first_def Let_def simp del: parse_val.simps split: option.splits prod.splits if_splits)
  have "length (take max_body body) < 2 ^ 63" by (simp add: max_body_def min_def)
  then have j: "shallow (Suc (max_nesting - 1)) j" using parsed_shallow [OF b(2)] max_nesting_Suc by simp
  show ?thesis
    using b(1) unfolding dec_request_def
    by (rule decode_struct_shallow [where P = "\<lambda>r. payload_fits (rq_Params r)", OF _ _ j])
      (auto simp: request_field_def map_result_Inr shallow_def payload_fits_def split: if_splits)
qed

section \<open>Handlers and requests\<close>

lemma node_handlers:
  "fmlookup (p2p_handlers (node_p2p E I C cfg)) t =
     (if t = MsgBlocks then Some (handleBlocks E I (LevelBlockStore I) (node_emitter I) cfg C)
      else if t = MsgGetBlocks then Some (handleGetBlocks (LevelBlockStore I) C)
      else if t = MsgHello then Some (handleHello C)
      else if t = MsgTx then Some (handleTx E)
      else None)"
  by (auto simp: node_p2p_def NewSyncer_def NewNode_def p2p_Handle_def)

definition offered :: "message \<Rightarrow> stored_block set" where
  "offered msg =
     (if msg_Type msg = MsgBlocks then
        case unmarshal_raw dec_blocks (msg_Payload msg) of Inr (Some bs) \<Rightarrow> {b. Some b \<in> set bs} | _ \<Rightarrow> {}
      else {})"

lemma rpc_sendTx_pool:
  assumes "rpc_sendTx E chainID now req nd = (nd', resp)"
  obtains "nd' = nd"
  | tx where "unmarshal_raw dec_transaction (rq_Params req) = Inr tx" "tx_ChainID tx = chainID"
      "nd' = nd\<lparr>nd_pool := fst (pool_Add E now (tx\<lparr>tx_ID := tx_Hash E tx\<rparr>) (nd_pool nd))\<rparr>"
  using assms by (auto simp: rpc_sendTx_def Let_def split: sum.splits if_splits prod.splits intro: that)

lemma serveHTTP_pool:
  assumes "serveHTTP E I B token chainID now r nd = (nd', reply)"
  obtains "nd' = nd"
  | req tx where "decode_first max_body (dec_request (float_norm E)) (hq_Body r) = Inr req"
      "unmarshal_raw dec_transaction (rq_Params req) = Inr tx" "tx_ChainID tx = chainID"
      "nd' = nd\<lparr>nd_pool := fst (pool_Add E now (tx\<lparr>tx_ID := tx_Hash E tx\<rparr>) (nd_pool nd))\<rparr>"
      "hq_Method r = ''POST''" "token = [] \<or> hq_Authorization r = ''Bearer '' @ token" "rq_Method req = ''sendTx''"
proof (cases "nd' = nd")
  case False
  from assms False obtain req resp where s: "decode_first max_body (dec_request (float_norm E)) (hq_Body r) = Inr req"
    "rpc_sendTx E chainID now req nd = (nd', resp)" "hq_Method r = ''POST''"
    "token = [] \<or> hq_Authorization r = ''Bearer '' @ token" "rq_Method req = ''sendTx''"
    by (auto simp: serveHTTP_def Dispatch_def split: if_splits sum.splits prod.splits)
  from s(2) show ?thesis
    by (rule rpc_sendTx_pool) (use False s that in auto)
qed (use that in blast)

lemma tx_good_ID: "tx_good tx \<Longrightarrow> tx_good (tx\<lparr>tx_ID := tx_Hash E tx\<rparr>)"
  by (simp add: tx_good_def tx_ok_def tx_Hash_def)

context healthy_db
begin

lemma node_pool_Add:
  "node_holds E I \<alpha> em s0 h bs nd \<Longrightarrow> tx_good tx \<Longrightarrow>
     node_holds E I \<alpha> em s0 h bs (nd\<lparr>nd_pool := fst (pool_Add E now tx (nd_pool nd))\<rparr>)"
  by (simp add: node_holds_def pool_good_Add)

lemma node_request:
  assumes "node_holds E I \<alpha> em s0 h bs nd" "serveHTTP E I B token chainID now r nd = (nd', reply)"
    and "\<forall>req. decode_first max_body (dec_request (float_norm E)) (hq_Body r) = Inr req \<longrightarrow> not_too_deep (rq_Params req)"
  shows "node_holds E I \<alpha> em s0 h bs nd'"
  using assms(2)
proof (cases rule: serveHTTP_pool)
  case (2 req tx)
  have "tx_good tx"
    using decoded_tx_good [OF 2(2) request_fits [OF 2(1)]] assms(3) 2(1) by (simp add: not_too_deep_def)
  then show ?thesis using node_pool_Add [OF assms(1) tx_good_ID] 2(4) by simp
qed (use assms(1) in simp)

lemma node_message:
  assumes "node_holds E I \<alpha> (node_emitter I) s0 h bs nd" "runtime_ok E" "state_ok E I s0" "buf_ok s0"
    and "received msg" "msg_Type msg = MsgTx \<longrightarrow> not_too_deep (msg_Payload msg)"
    and "fmlookup (p2p_handlers (node_p2p E I C cfg)) (msg_Type msg) = Some f"
    and "f now peer msg nd = (nd', peer', r)" "r \<noteq> Fatal" "no_collision E (header_text ` (set bs \<union> offered msg))"
  shows "\<exists>h' bs'. node_holds E I \<alpha> (node_emitter I) s0 (h @ h') (bs @ bs') nd' \<and> set bs' \<subseteq> offered msg"
proof (cases "msg_Type msg = MsgBlocks")
  case False
  have "node_holds E I \<alpha> (node_emitter I) s0 h bs nd'"
  proof (cases "msg_Type msg = MsgTx")
    case True
    then have f: "f = handleTx E" using assms(7) by (simp add: node_handlers msg_type_defs)
    show ?thesis
    proof (cases "unmarshal_raw dec_transaction (msg_Payload msg)")
      case (Inr tx)
      then have "tx_good tx"
        using decoded_tx_good [OF Inr received_fits [OF assms(5)]] assms(6) True by (simp add: not_too_deep_def)
      then show ?thesis using node_pool_Add [OF assms(1)] assms(8) f Inr by (auto simp: handleTx_def)
    qed (use assms(1,8) f in \<open>simp add: handleTx_def\<close>)
  next
    case tx: False
    then show ?thesis
      using assms(1,7,8) False
      by (auto simp: node_handlers handleGetBlocks_def handleHello_def Let_def split: if_splits sum.splits)
  qed
  then show ?thesis by (intro exI [of _ "[]"]) simp
next
  case True
  then have f: "f = handleBlocks E I (LevelBlockStore I) (node_emitter I) cfg C" using assms(7) by (simp add: node_handlers)
  show ?thesis
  proof (cases "unmarshal_raw dec_blocks (msg_Payload msg)")
    case (Inl e)
    then show ?thesis using assms(1,8) f by (intro exI [of _ "[]"]) (simp add: handleBlocks_def)
  next
    case (Inr resp)
    define obs where "obs = (case resp of None \<Rightarrow> [] | Some bs \<Rightarrow> bs)"
    have o: "offered msg = {b. Some b \<in> set obs}" using True Inr by (cases resp) (simp_all add: offered_def obs_def)
    obtain r1 where s: "sync_blocks E I (LevelBlockStore I) (node_emitter I) now cfg obs nd = (nd', r1)" "r1 \<noteq> Fatal"
      using assms(8,9) f Inr
      by (auto simp: handleBlocks_def Let_def obs_def [symmetric] split: prod.splits outcome.splits bool.splits if_splits)
    have "\<forall>b. Some b \<in> set obs \<longrightarrow> block_good b"
      using decoded_blocks_ok Inr received_fits [OF assms(5)] by (cases resp) (auto simp: obs_def)
    from node_sync_blocks [OF assms(1) _ assms(2-4) this _ s] assms(10) show ?thesis
      by (simp add: o node_emitter_def NewIndexer_index)
  qed
qed

end

section \<open>Runs\<close>

text \<open>
  One step, with the blocks it may add. Steps that end the process (\<open>log.Fatalf\<close>, a panic of the
  producer) have no successor; a panic of a handler is recovered.
\<close>

inductive node_step ::
  "env \<Rightarrow> 'd db_iface \<Rightarrow> 'c conn_iface \<Rightarrow> config \<Rightarrow> bytes \<Rightarrow> stored_block set \<Rightarrow> 'd node \<Rightarrow> 'd node \<Rightarrow> bool"
  for E I C cfg priv where
  step_tick: "in_int64 now \<Longrightarrow>
    poa_tick E I (LevelBlockStore I) (node_emitter I) now cfg priv nd = (nd', Ok ob) \<Longrightarrow>
    node_step E I C cfg priv (store_form False ` set_option ob) nd nd'"
| step_message: "received msg \<Longrightarrow> (msg_Type msg = MsgTx \<longrightarrow> not_too_deep (msg_Payload msg)) \<Longrightarrow>
    fmlookup (p2p_handlers (node_p2p E I C cfg)) (msg_Type msg) = Some f \<Longrightarrow> f now peer msg nd = (nd', peer', r) \<Longrightarrow>
    r \<noteq> Fatal \<Longrightarrow> node_step E I C cfg priv (offered msg) nd nd'"
| step_request: "serveHTTP E I (LevelBlockStore I) (cfg_RPCAuthToken cfg) (gen_ChainID (cfg_Genesis cfg)) now q nd = (nd', reply) \<Longrightarrow>
    (\<forall>req. decode_first max_body (dec_request (float_norm E)) (hq_Body q) = Inr req \<longrightarrow> not_too_deep (rq_Params req)) \<Longrightarrow>
    node_step E I C cfg priv {} nd nd'"

inductive node_run ::
  "env \<Rightarrow> 'd db_iface \<Rightarrow> 'c conn_iface \<Rightarrow> config \<Rightarrow> bytes \<Rightarrow> stored_block set \<Rightarrow> 'd node \<Rightarrow> 'd node \<Rightarrow> bool"
  for E I C cfg priv where
  run_start: "node_run E I C cfg priv {} nd nd"
| run_step: "node_run E I C cfg priv S nd nd1 \<Longrightarrow> node_step E I C cfg priv T nd1 nd2 \<Longrightarrow> node_run E I C cfg priv (S \<union> T) nd nd2"

definition machine_ok :: "env \<Rightarrow> config \<Rightarrow> bytes \<Rightarrow> bool" where
  "machine_ok E cfg priv \<longleftrightarrow> runtime_ok E \<and> utf8_ok (gen_ChainID (cfg_Genesis cfg)) \<and> Hex (Public E priv) \<noteq> []"

lemma poa_tick_Ok:
  assumes "poa_tick E I B em now cfg priv nd = (nd', Ok ob)"
  obtains "nd' = nd" "ob = None" | e where "ProduceBlock E I B em now cfg priv nd = (nd', Err e)" "ob = None"
  | b where "ProduceBlock E I B em now cfg priv nd = (nd', Ok b)" "ob = Some b"
  using assms by (auto simp: poa_tick_def split: option.splits bool.splits prod.splits outcome.splits intro: that)

context healthy_db
begin

lemma node_emitter_index [simp]: "index_emitter \<alpha> (node_emitter I)"
  by (simp add: node_emitter_def NewIndexer_index)

lemma node_step_holds:
  assumes "node_step E I C cfg priv T nd nd'" "node_holds E I \<alpha> (node_emitter I) s0 h bs nd" "machine_ok E cfg priv"
    and "state_ok E I s0" "buf_ok s0" "no_collision E (header_text ` (set bs \<union> T))"
  shows "\<exists>h' bs'. node_holds E I \<alpha> (node_emitter I) s0 (h @ h') (bs @ bs') nd' \<and> set bs' \<subseteq> T"
  using assms(1)
proof cases
  case (step_tick now ob)
  have set: "setting_ok E cfg priv now" using assms(3) step_tick(2) by (simp add: machine_ok_def setting_ok_def)
  from step_tick(3) show ?thesis
  proof (cases rule: poa_tick_Ok)
    case 1
    then show ?thesis using assms(2) by (intro exI [of _ "[]"]) simp
  next
    case (2 e)
    then obtain h' where "node_holds E I \<alpha> (node_emitter I) s0 (h @ h') bs nd'"
      using node_produce_err [OF assms(2) node_emitter_index set] by blast
    then show ?thesis by (intro exI [of _ h'] exI [of _ "[]"]) simp
  next
    case (3 b)
    then obtain h' where "node_holds E I \<alpha> (node_emitter I) s0 (h @ h') (bs @ [store_form False b]) nd'"
      using node_produce_ok [OF assms(2) node_emitter_index set assms(4,5)] assms(6) step_tick(1) by fastforce
    then show ?thesis using 3(2) step_tick(1) by (intro exI [of _ h'] exI [of _ "[store_form False b]"]) simp
  qed
next
  case (step_message msg f now peer peer' r)
  then show ?thesis
    using node_message [OF assms(2) _ assms(4,5) step_message(2-6)] assms(3,6) by (simp add: machine_ok_def)
next
  case (step_request now q reply)
  then show ?thesis using node_request [OF assms(2) step_request(2,3)] by (intro exI [of _ "[]"]) simp
qed

lemma node_run_holds:
  assumes "node_run E I C cfg priv T nd nd'" "node_holds E I \<alpha> (node_emitter I) s0 h bs nd" "machine_ok E cfg priv"
    and "state_ok E I s0" "buf_ok s0" "no_collision E (header_text ` (set bs \<union> T))"
  shows "\<exists>h' bs'. node_holds E I \<alpha> (node_emitter I) s0 (h @ h') (bs @ bs') nd' \<and> set bs' \<subseteq> T"
  using assms(1,2,6)
proof (induction rule: node_run.induct)
  case (run_start nd)
  then show ?case by (intro exI [of _ "[]"]) simp
next
  case (run_step S nd nd1 T nd2)
  have "no_collision E (header_text ` (set bs \<union> S))" by (rule no_collision_subset [OF run_step.prems(2)]) auto
  then obtain h1 bs1 where n1: "node_holds E I \<alpha> (node_emitter I) s0 (h @ h1) (bs @ bs1) nd1" "set bs1 \<subseteq> S"
    using run_step.IH run_step.prems(1) by blast
  have "no_collision E (header_text ` (set (bs @ bs1) \<union> T))"
    by (rule no_collision_subset [OF run_step.prems(2)]) (use n1(2) in auto)
  from node_step_holds [OF run_step.hyps(2) n1(1) assms(3-5) this] obtain h2 bs2 where
    "node_holds E I \<alpha> (node_emitter I) s0 ((h @ h1) @ h2) ((bs @ bs1) @ bs2) nd2" "set bs2 \<subseteq> T" by blast
  then show ?case using n1(2) by (intro exI [of _ "h1 @ h2"] exI [of _ "bs1 @ bs2"]) auto
qed

section \<open>The first start\<close>

lemma open_chain_fresh:
  assumes "\<forall>k. \<alpha> d k = None" "open_chain E I now cfg priv d = (d', Ok nd)"
  obtains s g bc where "CreateGenesisBlock E I now cfg priv (NewStateDB d) = (s, Inr g)"
    "bc_AddBlock (LevelBlockStore I) (store_form True g) ((NewBlockchain d)\<lparr>bc_store := sdb_db s\<rparr>) = (bc, Inr ())"
    "nd = \<lparr>nd_state = s\<lparr>sdb_db := bc_store bc\<rparr>, nd_bc = bc, nd_pool = NewMempool\<rparr>"
proof -
  have "bc_Init (LevelBlockStore I) (NewBlockchain d) = (NewBlockchain d, Inr ())"
    using assms(1) by (simp add: bc_Init_def NewBlockchain_def LevelBlockStore_def lbs_GetTip_def healthy_get [OF healthy])
  then show ?thesis
    using assms(2) that by (auto simp: open_chain_def Let_def NewBlockchain_def split: prod.splits sum.splits)
qed

lemma node_start:
  assumes "\<forall>k. \<alpha> d k = None" "open_chain E I now cfg priv d = (d', Ok nd)" "machine_ok E cfg priv" "in_int64 now"
    and "map_utf8 (gen_Alloc (cfg_Genesis cfg))"
  shows "\<exists>g. node_holds E I \<alpha> em (nd_state nd) [] [g] nd \<and> state_ok E I (nd_state nd) \<and> buf_ok (nd_state nd) \<and>
    no_assets E I (nd_state nd) \<and> header_text g = header_text (the (bc_tip (nd_bc nd))) \<and>
    total_supply I (nd_state nd) = (\<Sum>a\<in>fset (fmdom (map_or_empty (gen_Alloc (cfg_Genesis cfg)))). unat (alloc_of cfg a))"
  using assms(1,2)
proof (rule open_chain_fresh)
  fix s g bc
  assume g: "CreateGenesisBlock E I now cfg priv (NewStateDB d) = (s, Inr g)"
    and a: "bc_AddBlock (LevelBlockStore I) (store_form True g) ((NewBlockchain d)\<lparr>bc_store := sdb_db s\<rparr>) = (bc, Inr ())"
    and nd: "nd = \<lparr>nd_state = s\<lparr>sdb_db := bc_store bc\<rparr>, nd_bc = bc, nd_pool = NewMempool\<rparr>"
  have fresh: "fresh_store (\<alpha> d)" using assms(1) by (simp add: fresh_store_def)
  note gs = genesis_state [OF fresh assms(5) g] genesis_supply [OF fresh assms(5) g]
  have keeps: "db_keeps I (sdb_db s) (bc_store bc)" using AddBlock_keeps [OF a] by simp
  have ok: "stored_ok (store_form True g)" "hashed E (store_form True g)"
    using g assms(3,4) by (auto simp: CreateGenesisBlock_Inr stored_ok_def store_form_def sb_list_def hashed_def
        header_text_def blk_Sign_def ComputeHash_def Let_def header_ok_def machine_ok_def in_int64_def)
  have "\<alpha> (sdb_db s) k = None" if "chain_key k" for k
  proof -
    define s1 where "s1 = credit_alloc (range_map (range_order E 9) (map_or_empty (gen_Alloc (cfg_Genesis cfg)))) (NewStateDB d)"
    obtain u where c: "Commit E I s1 = (s, Inr u)" using g by (auto simp: CreateGenesisBlock_Inr s1_def)
    have d1: "sdb_db (credit_alloc kbs x) = sdb_db x" for kbs and x :: "'d statedb"
      by (induction kbs arbitrary: x) simp_all
    have "buf_ok (NewStateDB d)" by (simp add: buf_ok_def NewStateDB_def sdb_ok_def buffer_ok_def)
    then have "buf_ok s1" by (simp add: s1_def credit_frame(4))
    then have "\<alpha> (sdb_db s) k = \<alpha> (sdb_db s1) k" using commit_other [OF _ c] chain_keyD(1) [OF that] by blast
    then show ?thesis using assms(1) by (simp add: s1_def d1 NewStateDB_def)
  qed
  then have "ldb_chain \<alpha> ((NewBlockchain d)\<lparr>bc_store := sdb_db s\<rparr>) []"
    by (auto simp: chain_holds_def NewBlockchain_def stored_tip_def stored_heights_def)
  from chain_AddBlock [OF this a ok(1)] have chain: "ldb_chain \<alpha> bc [store_form True g]"
    by (simp add: NewBlockchain_def in_int64_def)
  have h: "bc_height bc = 0" "bc_tip bc = Some (store_form True g)"
    using a g by (auto simp: CreateGenesisBlock_Inr blk_Sign_def Let_def store_form_def elim!: lbs.AddBlock_parts)
  have "node_holds E I \<alpha> em (nd_state nd) [] [store_form True g] nd"
    using chain h ok(2) nd by (simp add: node_holds_def nd_chain_def ledger_start pool_good_def NewMempool_ok in_int64_def)
  moreover have "total_supply I (nd_state nd) = total_supply I s"
    using other_tables [OF keeps] by (simp add: nd total_supply_def)
  moreover have "state_ok E I (nd_state nd)" "buf_ok (nd_state nd)" "no_assets E I (nd_state nd)"
    using gs(2,3,4) other_state_ok [OF keeps] other_tables [OF keeps] by (simp_all add: nd no_assets_def)
  ultimately show ?thesis using gs(7) h(2) nd by (intro exI [of _ "store_form True g"]) simp
qed

end

end
