(* ===== verification/Sample.thy ===== *)
theory Sample
  imports Supply
begin

text \<open>
  A concrete run the witnesses share: an environment that meets the documented laws (the identity
  for SHA-256, a transparent signature scheme), three keys, a state with balances, and a block with one
  transfer, executed step by step on the in-memory store.
\<close>

definition sample_env :: env where
  "sample_env = \<lparr>sha256 = (\<lambda>d. d), ed25519_public = take 32,
     ed25519_sign = (\<lambda>priv msg. take 32 priv @ msg), ed25519_verify = (\<lambda>pub msg sg. sg = pub @ msg),
     float_norm = Some, range_order = (\<lambda>n ks. ks)\<rparr>"

lemma sample_env_simps [simp]:
  "sha256 sample_env = (\<lambda>d. d)" "ed25519_public sample_env = take 32"
  "ed25519_sign sample_env = (\<lambda>priv msg. take 32 priv @ msg)"
  "ed25519_verify sample_env = (\<lambda>pub msg sg. sg = pub @ msg)"
  "float_norm sample_env = Some" "range_order sample_env = (\<lambda>n ks. ks)"
  by (simp_all add: sample_env_def)

lemma sample_runtime_ok [simp]: "runtime_ok sample_env"
  by (simp add: runtime_ok_def float_law_def)

lemma sample_ed25519_ok [simp]: "ed25519_ok sample_env"
  by (simp add: ed25519_ok_def)

lemma sample_no_collision [simp]: "no_collision sample_env S"
  by (simp add: no_collision_def)

definition alice_key :: bytes where "alice_key = replicate 64 (CHR ''A'')"

definition bob_key :: bytes where "bob_key = replicate 64 (CHR ''B'')"

definition alice :: bytes where "alice = Hex (Public sample_env alice_key)"

definition bob :: bytes where "bob = Hex (Public sample_env bob_key)"

lemma key_length [simp]: "length alice_key = 64" "length bob_key = 64"
  by (simp_all add: alice_key_def bob_key_def)

lemma sample_pubkey [simp]:
  "PubKeyFromHex alice = Inr (Public sample_env alice_key)" "PubKeyFromHex bob = Inr (Public sample_env bob_key)"
  by (simp_all add: alice_def bob_def Public_def)

lemma sample_utf8 [simp]: "utf8_ok alice" "utf8_ok bob"
  using PubKeyFromHex_utf8 sample_pubkey by blast+

lemma sample_neq [simp]: "alice \<noteq> bob" "bob \<noteq> alice" "alice \<noteq> []" "bob \<noteq> []"
proof -
  have "Public sample_env alice_key \<noteq> Public sample_env bob_key"
    by (simp add: Public_def alice_key_def bob_key_def)
  then show "alice \<noteq> bob" "bob \<noteq> alice"
    by (metis sample_pubkey sum.inject(2))+
  have "length alice = 64" "length bob = 64" by (simp_all add: alice_def bob_def Hex_def Public_def)
  then show "alice \<noteq> []" "bob \<noteq> []" by auto
qed

definition sample_account :: "bytes \<Rightarrow> uint64 \<Rightarrow> uint64 \<Rightarrow> account" where
  "sample_account a b n = \<lparr>acc_Address = a, acc_Balance = b, acc_Nonce = n\<rparr>"

lemma sample_account_simps [simp]:
  "acc_Address (sample_account a b n) = a" "acc_Balance (sample_account a b n) = b"
  "acc_Nonce (sample_account a b n) = n" "account_ok (sample_account a b n) = utf8_ok a"
  "(sample_account a b n)\<lparr>acc_Balance := c\<rparr> = sample_account a c n"
  "(sample_account a b n)\<lparr>acc_Nonce := m\<rparr> = sample_account a b m"
  by (simp_all add: sample_account_def account_ok_def)

definition sample_state :: "mem_store statedb" where
  "sample_state = SetAccount (SetAccount (NewStateDB fmempty) (sample_account alice 100 0)) (sample_account bob 3 0)"

text \<open>An unsigned transaction, signed with the sender's key.\<close>

definition sample_unsigned :: "bytes \<Rightarrow> bytes \<Rightarrow> uint64 \<Rightarrow> uint64 \<Rightarrow> json option \<Rightarrow> transaction" where
  "sample_unsigned ty from nonce fee payload =
     \<lparr>tx_ID = [], tx_ChainID = ''tolchain'', tx_Type = ty, tx_From = from, tx_Nonce = nonce, tx_Fee = fee,
      tx_Timestamp = 5, tx_Payload = payload, tx_Signature = []\<rparr>"

definition sample_tx :: "bytes \<Rightarrow> bytes \<Rightarrow> uint64 \<Rightarrow> uint64 \<Rightarrow> json option \<Rightarrow> transaction" where
  "sample_tx ty key nonce fee payload =
     tx_Sign sample_env key (sample_unsigned ty (Hex (Public sample_env key)) nonce fee payload)"

lemma sample_tx_simps [simp]:
  "tx_Type (sample_tx ty key nonce fee payload) = ty"
  "tx_From (sample_tx ty key nonce fee payload) = Hex (Public sample_env key)"
  "tx_Nonce (sample_tx ty key nonce fee payload) = nonce" "tx_Fee (sample_tx ty key nonce fee payload) = fee"
  "tx_Payload (sample_tx ty key nonce fee payload) = payload"
  by (simp_all add: sample_tx_def sample_unsigned_def tx_Sign_def Let_def)

lemma sample_from [simp]: "Hex (Public sample_env alice_key) = alice" "Hex (Public sample_env bob_key) = bob"
  by (simp_all add: alice_def bob_def)

lemma sample_tx_Verify [simp]:
  "length key = 64 \<Longrightarrow> tx_Verify sample_env (sample_tx ty key nonce fee payload) = Inr ()"
  unfolding sample_tx_def by (rule tx_Verify_Sign) (simp_all add: sample_unsigned_def)

definition transfer_payload_json :: "bytes \<Rightarrow> uint64 \<Rightarrow> json" where
  "transfer_payload_json to amount = JObj [(''to'', enc_string to), (''amount'', enc_uint64 amount)]"

lemma unmarshal_transfer [simp]:
  "utf8_ok to \<Longrightarrow> unmarshal_raw dec_transfer (Some (transfer_payload_json to w)) = Inr \<lparr>tp_To = to, tp_Amount = w\<rparr>"
  by (simp add: unmarshal_raw_def raw_valid_def transfer_payload_json_def dec_transfer_def transfer_field_def
      struct_simps)

definition pay_bob :: transaction where
  "pay_bob = sample_tx TxTransfer alice_key 0 1 (Some (transfer_payload_json bob 7))"

definition sample_block :: "bytes \<Rightarrow> transaction list \<Rightarrow> block" where
  "sample_block proposer txs = NewBlock sample_env ''tolchain'' 1 [] proposer txs 10"

lemma sample_block_simps [simp]:
  "hdr_Proposer (blk_Header (sample_block p txs)) = p" "blk_Transactions (sample_block p txs) = txs"
  "hdr_Timestamp (blk_Header (sample_block p txs)) = 10" "hdr_Height (blk_Header (sample_block p txs)) = 1"
  by (simp_all add: sample_block_def NewBlock_def)

abbreviation mem :: "mem_store db_iface" where
  "mem \<equiv> MemDB sample_env"

lemma sample_state_get [simp]:
  "GetAccount mem sample_state a =
     (if a = bob then Inr (sample_account bob 3 0) else if a = alice then Inr (sample_account alice 100 0)
      else Inr (new_account a))"
  by (simp add: sample_state_def)
    (simp add: GetAccount_def sdb_get_def NewStateDB_def MemDB_def mem_Get_def)

lemma sample_run:
  "ExecuteTx sample_env mem None (sample_block bob [pay_bob]) pay_bob sample_state =
     (SetAccount (SetAccount (SetAccount (SetAccount (fst (Snapshot sample_state))
        (sample_account alice 99 1)) (sample_account bob 4 0)) (sample_account alice 92 1))
        (sample_account bob 11 0), Inr ())"
proof -
  have "applyTx sample_env mem None (sample_block bob [pay_bob]) pay_bob (fst (Snapshot sample_state)) =
     (SetAccount (SetAccount (SetAccount (SetAccount (fst (Snapshot sample_state))
        (sample_account alice 99 1)) (sample_account bob 4 0)) (sample_account alice 92 1))
        (sample_account bob 11 0), Inr ())"
    by (simp add: applyTx_def pay_bob_def charge_fee_def handleTransfer_def max_uint64_def ctx_emit_def
        emit_event_def)
  then show ?thesis
    by (simp add: ExecuteTx_def pay_bob_def Snapshot_simps emit_event_def)
qed

lemma empty_get:
  "GetAccount (MemDB E) (NewStateDB fmempty) a = Inr (new_account a)"
  "GetAsset F (MemDB E) (NewStateDB fmempty) b = Inl ErrNotFound"
  "GetTemplate F (MemDB E) (NewStateDB fmempty) c = Inl ErrNotFound"
  "GetSession (MemDB E) (NewStateDB fmempty) d = Inl ErrNotFound"
  "GetListing (MemDB E) (NewStateDB fmempty) e = Inl ErrNotFound"
  by (simp_all add: accessor_defs sdb_get_def NewStateDB_def MemDB_def mem_Get_def)

lemma state_ok_empty: "state_ok F (MemDB E) (NewStateDB fmempty)"
  by (simp add: state_ok_def empty_get new_account_def)

lemma sample_state_ok [simp]: "state_ok F mem sample_state"
  unfolding sample_state_def by (intro state_ok_set state_ok_empty) simp_all

lemma quote_hex: "\<forall>c\<in>set s. is_hex c \<Longrightarrow> quote_go s = s"
proof (induction s)
  case (Cons c s)
  have h: "is_hex c" using Cons.prems by simp
  have "c \<notin> {bslash, dquote, CHR 0x08, CHR 0x0C, CHR 0x0A, CHR 0x0D, CHR 0x09, CHR ''<'', CHR ''>'', CHR ''&''}"
    using h by (auto simp: is_hex_def is_digit_def)
  moreover have "\<not> byte_of c < (32 :: nat)" using h by (simp add: is_hex_def is_digit_def) linarith
  ultimately have "esc_ascii c = [c]" by (simp add: esc_ascii_def)
  with Cons is_hex_ascii [OF h] show ?case by (subst quote_go.simps) simp
qed (simp add: quote_go.simps)

lemma quote_Hex [simp]: "quote_go (Hex p) = Hex p"
  by (rule quote_hex) (auto simp: Hex_def hex_encode_hex)

lemma sample_length [simp]: "length alice = 64" "length bob = 64"
  unfolding alice_def bob_def by (simp_all add: Hex_def Public_def)

lemma print_nat_digit: "n < 10 \<Longrightarrow> length (print_nat n) = 1"
  by (subst print_nat.simps) simp

lemma sample_payload_fits [simp]: "payload_fits (tx_Payload pay_bob)"
proof -
  have "quote_go bob = bob" unfolding bob_def by (rule quote_Hex)
  then have "length (print_json (transfer_payload_json bob 7)) < 2 ^ 63"
    by (simp add: transfer_payload_json_def enc_string_def enc_uint64_def print_nat_digit)
  then show ?thesis by (simp add: payload_fits_def pay_bob_def)
qed

end
