(* ===== verification/SampleMarket.thy ===== *)
theory SampleMarket
  imports Sample
begin

text \<open>
  A second concrete run for the witnesses: a tradeable template is registered, an asset of it is minted,
  put up for sale and bought, each step a transaction executed on the in-memory store.
\<close>

definition market_block :: block where
  "market_block = sample_block bob []"

definition reg_tx :: transaction where
  "reg_tx = sample_tx TxRegisterTemplate alice_key 0 0
     (Some (JObj [(''id'', enc_string ''t''), (''tradeable'', JBool True)]))"

definition mint_tx :: transaction where
  "mint_tx = sample_tx TxMintAsset alice_key 1 0 (Some (JObj [(''template_id'', enc_string ''t'')]))"

definition sword :: bytes where
  "sword = asset_id sample_env mint_tx ''t''"

definition list_tx :: transaction where
  "list_tx = sample_tx TxListMarket alice_key 2 0
     (Some (JObj [(''asset_id'', enc_string sword), (''price'', enc_uint64 2)]))"

definition offer :: bytes where
  "offer = listing_id sample_env list_tx sword"

definition buy_tx :: transaction where
  "buy_tx = sample_tx TxBuyMarket bob_key 0 1 (Some (JObj [(''listing_id'', enc_string offer)]))"

lemma market_ids [simp]: "utf8_ok sword" "utf8_ok offer" "utf8_ok ''t''"
  by (simp_all add: sword_def offer_def asset_id_def listing_id_def utf8_ok_ascii_all)

lemma market_payloads [simp]:
  "unmarshal_raw (dec_register fn) (tx_Payload reg_tx) =
     Inr \<lparr>rp_ID = ''t'', rp_Name = [], rp_Schema = None, rp_Tradeable = True\<rparr>"
  "unmarshal_raw (dec_mint fn) (tx_Payload mint_tx) =
     Inr \<lparr>mp_TemplateID = ''t'', mp_Owner = [], mp_Properties = None\<rparr>"
  "unmarshal_raw dec_list_market (tx_Payload list_tx) = Inr \<lparr>lp_AssetID = sword, lp_Price = 2\<rparr>"
  "unmarshal_raw dec_buy_market (tx_Payload buy_tx) = Inr \<lparr>up_ListingID = offer\<rparr>"
  by (simp_all add: reg_tx_def mint_tx_def list_tx_def buy_tx_def unmarshal_raw_def raw_valid_def dec_register_def
      register_field_def dec_mint_def mint_field_def dec_list_market_def list_field_def dec_buy_market_def
      buy_field_def dec_bool_def struct_simps)

lemma market_fields [simp]:
  "tx_Verify sample_env reg_tx = Inr ()" "tx_Verify sample_env mint_tx = Inr ()"
  "tx_Verify sample_env list_tx = Inr ()" "tx_Verify sample_env buy_tx = Inr ()"
  "tx_From reg_tx = alice" "tx_From mint_tx = alice" "tx_From list_tx = alice" "tx_From buy_tx = bob"
  "tx_Nonce reg_tx = 0" "tx_Nonce mint_tx = 1" "tx_Nonce list_tx = 2" "tx_Nonce buy_tx = 0"
  "tx_Fee reg_tx = 0" "tx_Fee mint_tx = 0" "tx_Fee list_tx = 0" "tx_Fee buy_tx = 1"
  "tx_Type reg_tx = TxRegisterTemplate" "tx_Type mint_tx = TxMintAsset" "tx_Type list_tx = TxListMarket"
  "tx_Type buy_tx = TxBuyMarket"
  by (simp_all add: reg_tx_def mint_tx_def list_tx_def buy_tx_def)

section \<open>The states of the run\<close>

definition sword_template :: asset_template where
  "sword_template = \<lparr>tpl_ID = ''t'', tpl_Name = [], tpl_Schema = None, tpl_Tradeable = True, tpl_Creator = alice\<rparr>"

definition the_sword :: "bytes \<Rightarrow> bytes \<Rightarrow> asset" where
  "the_sword owner listing = \<lparr>ast_ID = sword, ast_TemplateID = ''t'', ast_Owner = owner, ast_Properties = None,
     ast_Tradeable = True, ast_MintedAt = 10, ast_ActiveListingID = listing\<rparr>"

definition the_offer :: "bool \<Rightarrow> listing" where
  "the_offer active = \<lparr>lst_ID = offer, lst_AssetID = sword, lst_Seller = alice, lst_Price = 2,
     lst_Active = active, lst_CreatedAt = 10\<rparr>"

lemma sword_simps [simp]:
  "template_ok fn sword_template" "tpl_ID sword_template = ''t''" "tpl_Tradeable sword_template"
  "utf8_ok x \<Longrightarrow> utf8_ok i \<Longrightarrow> asset_ok fn (the_sword x i)" "ast_ID (the_sword x i) = sword"
  "listing_ok (the_offer b)" "lst_ID (the_offer b) = offer"
  by (simp_all add: sword_template_def template_ok_def the_sword_def asset_ok_def the_offer_def listing_ok_def
      in_int64_def anymap_ok_def enc_anymap_def max_nesting_def)

definition market1 :: "mem_store statedb" where
  "market1 = SetTemplate (SetAccount (fst (Snapshot sample_state)) (sample_account alice 100 1)) sword_template"

definition market2 :: "mem_store statedb" where
  "market2 = SetAsset (SetAccount (fst (Snapshot market1)) (sample_account alice 100 2)) (the_sword alice [])"

definition market3 :: "mem_store statedb" where
  "market3 = SetAsset (SetListing (SetAccount (fst (Snapshot market2)) (sample_account alice 100 3)) (the_offer True))
     (the_sword alice offer)"

definition market4 :: "mem_store statedb" where
  "market4 = SetListing (SetAsset (SetAccount (SetAccount (SetAccount (fst (Snapshot market3))
     (sample_account bob 3 1)) (sample_account bob 1 1)) (sample_account alice 102 3))
     (the_sword bob [])) (the_offer False)"

lemma sample_state_none [simp]:
  "GetTemplate E mem sample_state c = Inl ErrNotFound" "GetAsset E mem sample_state b = Inl ErrNotFound"
  "GetListing mem sample_state e = Inl ErrNotFound"
  by (simp_all add: sample_state_def empty_get)

lemma ExecuteTx_ok:
  assumes "tx_Verify E tx = Inr ()" "applyTx E I None block tx (fst (Snapshot s)) = (s', Inr ())"
  shows "ExecuteTx E I None block tx s = (s', Inr ())"
  using assms by (cases "Snapshot s") (simp add: ExecuteTx_def emit_event_def)

lemmas market_step_defs =
  applyTx_def charge_fee_def max_uint64_def ctx_emit_def emit_event_def market_block_def Let_def

lemma market_run1: "ExecuteTx sample_env mem None market_block reg_tx sample_state = (market1, Inr ())"
  by (rule ExecuteTx_ok) (simp_all add: market_step_defs handleRegisterTemplate_def market1_def sword_template_def)

lemma market1_get [simp]:
  "GetAccount mem market1 a = (if a = alice then Inr (sample_account alice 100 1) else GetAccount mem sample_state a)"
  "GetTemplate sample_env mem market1 ''t'' = Inr sword_template"
  by (simp_all add: market1_def)

lemma market_run2: "ExecuteTx sample_env mem None market_block mint_tx market1 = (market2, Inr ())"
  by (rule ExecuteTx_ok)
    (simp_all add: market_step_defs handleMintAsset_def market2_def the_sword_def sword_def sword_template_def)

lemma market2_get [simp]:
  "GetAccount mem market2 a = (if a = alice then Inr (sample_account alice 100 2) else GetAccount mem sample_state a)"
  "GetAsset sample_env mem market2 sword = Inr (the_sword alice [])"
  by (simp_all add: market2_def)

lemma market_run3: "ExecuteTx sample_env mem None market_block list_tx market2 = (market3, Inr ())"
  by (rule ExecuteTx_ok)
    (simp_all add: market_step_defs handleListMarket_def market3_def the_sword_def the_offer_def offer_def)

lemma market3_get [simp]:
  "GetAccount mem market3 a = (if a = alice then Inr (sample_account alice 100 3) else GetAccount mem sample_state a)"
  "GetAsset sample_env mem market3 sword = Inr (the_sword alice offer)"
  "GetListing mem market3 offer = Inr (the_offer True)"
  by (simp_all add: market3_def)

lemma market_run4: "ExecuteTx sample_env mem None market_block buy_tx market3 = (market4, Inr ())"
  by (rule ExecuteTx_ok)
    (simp_all add: market_step_defs handleBuyMarket_def market4_def the_sword_def the_offer_def)

section \<open>Sizes\<close>

lemma quote_Hash [simp]: "quote_go (Hash E d) = Hash E d"
  by (rule quote_hex) (auto simp: Hash_def hex_encode_hex)

lemma length_Hash [simp]: "length (Hash sample_env d) = 2 * length d"
  by (simp add: Hash_def)

lemma quote_market [simp]: "quote_go sword = sword" "quote_go offer = offer" "quote_go alice = alice" "quote_go bob = bob"
  unfolding sword_def asset_id_def offer_def listing_id_def alice_def bob_def by (rule quote_Hash quote_Hex)+

lemma quote_literals [simp]:
  "quote_go ''t'' = ''t''" "quote_go ''tolchain'' = ''tolchain''" "quote_go ''mint_asset'' = ''mint_asset''"
  "quote_go ''list_market'' = ''list_market''"
  by (simp_all add: quote_go.simps esc_ascii_def)

lemma sample_tx_ID: "tx_ID (sample_tx ty key n fee p) =
    Hash sample_env (marshal enc_signingBody (sample_unsigned ty (Hex (Public sample_env key)) n fee p))"
  by (simp add: sample_tx_def tx_Sign_def tx_Hash_def Let_def)

lemmas size_simps = marshal_def enc_signingBody_def sample_unsigned_def enc_string_def enc_uint64_def enc_int64_def
  enc_raw_def print_nat_digit print_int_def

lemma mint_length: "length (tx_ID mint_tx) < 1000"
  by (simp add: mint_tx_def sample_tx_ID size_simps TxMintAsset_def html_raw.simps)

lemma sword_length: "length sword < 5000"
  using mint_length by (simp add: sword_def asset_id_def)

lemma market_fits [simp]:
  "payload_fits (tx_Payload reg_tx)" "payload_fits (tx_Payload mint_tx)" "payload_fits (tx_Payload list_tx)"
  using sword_length
  by (simp_all add: payload_fits_def reg_tx_def mint_tx_def list_tx_def enc_string_def enc_uint64_def print_nat_digit)

lemma html_hex: "\<forall>c\<in>set s. is_hex c \<Longrightarrow> html_raw s = s"
proof (induction s)
  case (Cons c s)
  have h: "is_hex c" using Cons.prems by simp
  then have "c \<notin> set ''<>&''" by (auto simp: is_hex_def is_digit_def)
  then show ?case using html_raw_ascii [OF is_hex_ascii [OF h]] Cons by simp
qed simp

lemma html_sword [simp]: "html_raw sword = sword"
  by (rule html_hex) (auto simp: sword_def asset_id_def Hash_def hex_encode_hex)

lemma offer_length: "length offer < 100000"
proof -
  have "length (tx_ID list_tx) < 40000"
    using sword_length by (simp add: list_tx_def sample_tx_ID size_simps TxListMarket_def html_raw.simps)
  then show ?thesis using sword_length by (simp add: offer_def listing_id_def)
qed

lemma buy_fits [simp]: "payload_fits (tx_Payload buy_tx)"
  using offer_length by (simp add: payload_fits_def buy_tx_def enc_string_def)

end
