(* ===== verification/ExecTheorems.thy ===== *)
theory ExecTheorems
  imports SampleMarket Determinism
begin

text \<open>
  What holds of every execution: conservation, replay protection, authority over balances and assets,
  the market invariant, and independence of map iteration order. Each theorem is followed by a run of the
  sample chain where its hypotheses hold.
\<close>

section \<open>A sample run\<close>

lemma sample_run_ok [simp]: "utf8_ok p \<Longrightarrow> run_ok sample_env mem None (sample_block p txs)"
  by (simp add: run_ok_def emitter_opt_ok_def in_int64_def)

definition sample_after :: "mem_store statedb" where
  "sample_after = fst (ExecuteTx sample_env mem None (sample_block bob [pay_bob]) pay_bob sample_state)"

lemma sample_exec: "ExecuteTx sample_env mem None (sample_block bob [pay_bob]) pay_bob sample_state = (sample_after, Inr ())"
  by (simp add: sample_after_def sample_run)

lemma sample_tx_ok [simp]: "utf8_ok ty \<Longrightarrow> length key = 64 \<Longrightarrow> pred_option (\<lambda>j. json_ok j \<and> jdepth j < max_nesting) p \<Longrightarrow>
    tx_ok (sample_tx ty key n fee p)"
  by (simp add: tx_ok_def sample_tx_def sample_unsigned_def tx_Sign_def Let_def tx_Hash_def Sign_def in_int64_def
      utf8_ok_hex hex_encode_hex Hex_def utf8_ok_ascii_all)

lemma pay_bob_ok [simp]: "tx_ok pay_bob"
  unfolding pay_bob_def
  by (rule sample_tx_ok)
    (simp_all add: TxTransfer_def utf8_ok_ascii_all transfer_payload_json_def struct_simps max_nesting_def)

lemma sample_buf_ok [simp]: "buf_ok sample_state"
  by (simp add: sample_state_def)

lemma sample_no_assets [simp]: "no_assets E mem sample_state"
  by (simp add: no_assets_def sample_state_def asset_fun listing_fun empty_get)

lemma sample_ledger: "ledger sample_env mem None sample_state [(sample_block bob [pay_bob], pay_bob)] sample_after"
  using ledger_exec [OF ledger_start _ _ _ sample_exec] by simp

lemma sample_hash_nonempty [simp]: "hash_nonempty sample_env"
  by (simp add: hash_nonempty_def)

lemma market_tx_ok [simp]: "tx_ok reg_tx" "tx_ok mint_tx" "tx_ok list_tx" "tx_ok buy_tx"
  unfolding reg_tx_def mint_tx_def list_tx_def buy_tx_def
  by (rule sample_tx_ok;
      simp add: TxRegisterTemplate_def TxMintAsset_def TxListMarket_def TxBuyMarket_def utf8_ok_ascii_all struct_simps
        max_nesting_def)+

lemma market_ledger:
  "ledger sample_env mem None sample_state (map (Pair market_block) [reg_tx, mint_tx, list_tx]) market3"
proof -
  have b: "run_ok sample_env mem None market_block" by (simp add: market_block_def)
  note l1 = ledger_exec [OF ledger_start b _ _ market_run1, simplified]
  note l2 = ledger_exec [OF l1 b _ _ market_run2, simplified]
  show ?thesis using ledger_exec [OF l2 b _ _ market_run3, simplified] by simp
qed

section \<open>Every reachable state\<close>

text \<open>
  C5. Over any run of the ledger (transactions that succeed, commits, and writes of other components to
  their own keys) the state stays well formed and no tokens appear or vanish, but for the fees of blocks
  that name no proposer: the supply at the end plus those fees is the supply at the start.
\<close>

theorem ledger_conserves_supply:
  assumes "healthy_db I \<alpha>" "ledger E I em s0 h s" "state_ok E I s0" "buf_ok s0"
  shows "state_ok E I s \<and> total_supply I s + sum_list (map (\<lambda>(block, tx). burned_fee block tx) h) = total_supply I s0"
  using healthy_db.ledger_ok [OF assms] healthy_db.ledger_supply [OF assms] by blast

theorem ledger_conserves_supply_witness:
  "state_ok sample_env mem sample_after \<and> total_supply mem sample_after = total_supply mem sample_state"
  using ledger_conserves_supply [OF mem.healthy_db_axioms sample_ledger] by (simp add: burned_fee_def)

lemma ledger_ids_distinct:
  assumes "ledger E I em s0 h s" "no_collision E (run_texts E h)" "distinct (map sender_nonce h)"
  shows "distinct (map (\<lambda>bt. tx_ID (snd bt)) h)"
proof -
  have "x = y" if xy: "x \<in> set h" "y \<in> set h" "tx_ID (snd x) = tx_ID (snd y)" for x y
  proof -
    note x = ledger_history [OF assms(1) xy(1)] and y = ledger_history [OF assms(1) xy(2)]
    have "marshal enc_signingBody (snd x) = marshal enc_signingBody (snd y)"
      using Hash_inject [OF assms(2) run_texts(1) [OF xy(1)] run_texts(1) [OF xy(2)]] x y xy(3)
      by (simp add: tx_Hash_def)
    then have "same_body (snd x) (snd y)" using x y marshal_signingBody_inject by blast
    then have "sender_nonce x = sender_nonce y" by (simp add: same_body_def sender_nonce_def)
    then show ?thesis using assms(3) xy(1,2) by (meson distinct_map inj_onD)
  qed
  then show ?thesis using assms(3) by (simp add: distinct_map inj_on_def)
qed



text \<open>
  A transaction executes only with the sender's current nonce, below the maximum; it raises that
  nonce by one and no other account's.
\<close>

theorem exec_nonce_step:
  assumes "run_ok E I em block" "state_ok E I s" "ExecuteTx E I em block tx s = (s', Inr u)"
  shows "nonces I s (tx_From tx) = Inr (tx_Nonce tx) \<and> unat (tx_Nonce tx) < 2 ^ 64 - 1 \<and>
    nonces I s' = (nonces I s)(tx_From tx := Inr (tx_Nonce tx + 1))"
proof -
  note n = ExecuteTx_nonces [OF assms]
  have "unat (tx_Nonce tx) < unat (tx_Nonce tx + 1)" using uint64_less_Suc [OF n(2)] by (simp add: word_less_nat_alt)
  moreover have "unat (tx_Nonce tx + 1) < 2 ^ LENGTH(64)" by (rule unsigned_less)
  ultimately show ?thesis using n by simp
qed

theorem exec_nonce_step_witness:
  "nonces mem sample_after = (nonces mem sample_state)(alice := Inr 1)"
  using exec_nonce_step [OF sample_run_ok sample_state_ok sample_exec] by (simp add: pay_bob_def)

section \<open>Balances\<close>

lemma ExecuteTx_balances:
  assumes "run_ok E I em block" "state_ok E I s" "ExecuteTx E I em block tx s = (s', Inr u)"
  obtains s1 s2 where
    "balances I s1 = fee_move block tx (balances I s)" "unat (tx_Fee tx) \<le> balances I s (tx_From tx)"
    "balances I s' = balances I s2" "state_ok E I s1" "GetListing I s1 = GetListing I s"
    "ctx_ok \<lparr>ctx_Env = E, ctx_DB = I, ctx_Block = block, ctx_Tx = tx, ctx_Emitter = em\<rparr>"
    "reg_Execute globalRegistry (tx_Type tx)
       \<lparr>ctx_Env = E, ctx_DB = I, ctx_Block = block, ctx_Tx = tx, ctx_Emitter = em\<rparr> (tx_Payload tx) s1 = (s2, Inr ())"
proof -
  obtain s1 s2 where v: "tx_Verify E tx = Inr ()" and fee: "charge_fee I block tx (fst (Snapshot s)) = (s1, Inr ())"
    and ex: "reg_Execute globalRegistry (tx_Type tx)
       \<lparr>ctx_Env = E, ctx_DB = I, ctx_Block = block, ctx_Tx = tx, ctx_Emitter = em\<rparr> (tx_Payload tx) s1 = (s2, Inr ())"
    and s': "s' = emit_event em \<lparr>ev_Type = EventTxExecuted, ev_TxID = tx_ID tx,
       ev_BlockHeight = hdr_Height (blk_Header block),
       ev_Data = [(''type'', DStr (tx_Type tx)), (''from'', DStr (tx_From tx))]\<rparr> s2"
    by (rule ExecuteTx_parts [OF assms(3)])
  have f: "utf8_ok (tx_From tx)" "tx_From tx \<noteq> []"
    using tx_Verify_utf8 [OF v] v by (auto simp: tx_Verify_def split: if_splits)
  have r: "utf8_ok (hdr_Proposer (blk_Header block))" "emitter_opt_ok I em"
    using assms(1) by (simp_all add: run_ok_def)
  have s: "state_ok E I (fst (Snapshot s))" using assms(2) by simp
  note b = charge_fee_balances [OF s f r(1) fee]
  show thesis
  proof (rule that [OF _ _ _ charge_fee_state_ok [OF s f(1) r(1) fee] _ _ ex])
    show "GetListing I s1 = GetListing I s" using charge_fee_assets [OF fee] by (simp add: listing_fun)
    show "balances I s' = balances I s2" using s' r(2) by simp
    show "ctx_ok \<lparr>ctx_Env = E, ctx_DB = I, ctx_Block = block, ctx_Tx = tx, ctx_Emitter = em\<rparr>"
      using assms(1) f(1) by (simp add: ctx_ok_def run_ok_def)
  qed (use b in simp_all)
qed

text \<open>
  C18. A token transfer refines the abstract ledger: the fee moves from the sender to the proposer, then
  the amount moves from the sender to the recipient, and no other balance changes.
\<close>

theorem transfer_refines_move:
  assumes "run_ok E I em block" "state_ok E I s" "ExecuteTx E I em block tx s = (s', Inr u)" "tx_Type tx = TxTransfer"
  shows "\<exists>p. unmarshal_raw dec_transfer (tx_Payload tx) = Inr p \<and>
    unat (tx_Fee tx) \<le> balances I s (tx_From tx) \<and>
    unat (tp_Amount p) \<le> fee_move block tx (balances I s) (tx_From tx) \<and>
    balances I s' = move (unat (tp_Amount p)) (tx_From tx) (tp_To p) (fee_move block tx (balances I s))"
proof (rule ExecuteTx_balances [OF assms(1-3)])
  fix s1 s2
  let ?ctx = "\<lparr>ctx_Env = E, ctx_DB = I, ctx_Block = block, ctx_Tx = tx, ctx_Emitter = em\<rparr>"
  assume b: "balances I s1 = fee_move block tx (balances I s)" "unat (tx_Fee tx) \<le> balances I s (tx_From tx)"
    "balances I s' = balances I s2" and ok: "state_ok E I s1" "ctx_ok ?ctx"
    and ex: "reg_Execute globalRegistry (tx_Type tx) ?ctx (tx_Payload tx) s1 = (s2, Inr ())"
  from ex have "handleTransfer ?ctx (tx_Payload tx) s1 = (s2, Inr ())" by (simp add: assms(4))
  then show ?thesis
    using b by (elim handleTransfer_balances [OF ok(2), of E s1, simplified, OF ok(1)]) simp
qed

theorem transfer_refines_move_witness:
  "balances mem sample_after = move 7 alice bob (move 1 alice bob (balances mem sample_state))"
  using transfer_refines_move [OF sample_run_ok sample_state_ok sample_exec] by (simp add: pay_bob_def fee_move_def)

text \<open>
  C19. A purchase refines the abstract ledger: the fee moves from the buyer to the proposer, then the price
  of the listing named in the payload moves from the buyer to the seller, and no other balance changes.
\<close>

theorem buy_moves_price:
  assumes "run_ok E I em block" "state_ok E I s" "ExecuteTx E I em block tx s = (s', Inr u)" "tx_Type tx = TxBuyMarket"
  shows "\<exists>p l. unmarshal_raw dec_buy_market (tx_Payload tx) = Inr p \<and> GetListing I s (up_ListingID p) = Inr l \<and>
    unat (lst_Price l) \<le> fee_move block tx (balances I s) (tx_From tx) \<and>
    balances I s' = move (unat (lst_Price l)) (tx_From tx) (lst_Seller l) (fee_move block tx (balances I s))"
proof (rule ExecuteTx_balances [OF assms(1-3)])
  fix s1 s2
  let ?ctx = "\<lparr>ctx_Env = E, ctx_DB = I, ctx_Block = block, ctx_Tx = tx, ctx_Emitter = em\<rparr>"
  assume b: "balances I s1 = fee_move block tx (balances I s)" "balances I s' = balances I s2"
    and l: "GetListing I s1 = GetListing I s" and ok: "state_ok E I s1" "ctx_ok ?ctx"
    and ex: "reg_Execute globalRegistry (tx_Type tx) ?ctx (tx_Payload tx) s1 = (s2, Inr ())"
  from ex have "handleBuyMarket ?ctx (tx_Payload tx) s1 = (s2, Inr ())" by (simp add: assms(4))
  then show ?thesis
    using b l by (elim handleBuyMarket_balances [OF ok(2), of E s1, simplified, OF ok(1)]) simp
qed

lemma market_ok_state [simp]: "state_ok sample_env mem market3" "buf_ok market3"
  using mem.ledger_ok [OF market_ledger] by simp_all

theorem buy_moves_price_witness:
  "balances mem market4 = move 2 bob alice (balances mem market3)"
proof -
  have "fee_move market_block buy_tx (balances mem market3) = balances mem market3"
    by (simp add: fee_move_def market_block_def move_self balances_def fun_eq_iff)
  then show ?thesis
    using buy_moves_price [OF _ market_ok_state(1) market_run4] by (simp add: market_block_def the_offer_def)
qed

text \<open>
  C6. Only the sender can be made poorer. When a transaction leaves an account other than the sender's
  with less than it had, the transaction opens a game session that lists the account as a player, and
  the loss is at most the stake for each time it is listed.
\<close>

theorem balance_authority:
  assumes "run_ok E I em block" "state_ok E I s" "ExecuteTx E I em block tx s = (s', Inr u)"
    and "a \<noteq> tx_From tx" "balances I s' a < balances I s a"
  shows "tx_Type tx = TxSessionOpen \<and> (\<exists>p. unmarshal_raw dec_session_open (tx_Payload tx) = Inr p \<and>
    a \<in> set (sp_Players p) \<and> balances I s a - balances I s' a \<le> count_list (sp_Players p) a * unat (sp_Stakes p))"
  using ExecuteTx_balance_other [OF assms(1-4)] assms(5) by auto

definition lock_bob :: transaction where
  "lock_bob = sample_tx TxSessionOpen alice_key 0 0
     (Some (JObj [(''session_id'', enc_string ''g''), (''players'', JArr [enc_string bob]), (''stakes'', enc_uint64 2)]))"

lemma lock_bob_payload:
  "unmarshal_raw dec_session_open (tx_Payload lock_bob) =
     Inr \<lparr>sp_SessionID = ''g'', sp_GameID = [], sp_Players = [bob], sp_Stakes = 2\<rparr>"
  by (simp add: lock_bob_def unmarshal_raw_def raw_valid_def dec_session_open_def session_open_field_def struct_simps
      dec_strings_def utf8_ok_ascii_all)

lemma lock_bob_simps [simp]:
  "tx_Verify sample_env lock_bob = Inr ()" "tx_From lock_bob = alice" "tx_Nonce lock_bob = 0" "tx_Fee lock_bob = 0"
  "tx_Type lock_bob = TxSessionOpen"
  by (simp_all add: lock_bob_def)

lemma lock_bob_run:
  "\<exists>s'. ExecuteTx sample_env mem None market_block lock_bob sample_state = (s', Inr ()) \<and> balances mem s' bob = 1"
proof -
  have none: "GetSession mem sample_state d = Inl ErrNotFound" for d
    by (simp add: sample_state_def empty_get)
  obtain s' where s': "applyTx sample_env mem None market_block lock_bob (fst (Snapshot sample_state)) = (s', Inr ())"
    "GetAccount mem s' bob = Inr (sample_account bob 1 0)"
    by (simp add: market_step_defs handleSessionOpen_def lock_bob_payload none)
  then show ?thesis by (intro exI [of _ s']) (simp add: ExecuteTx_ok balances_def)
qed

theorem balance_authority_witness:
  "tx_Type lock_bob = TxSessionOpen \<and> (\<exists>p. unmarshal_raw dec_session_open (tx_Payload lock_bob) = Inr p \<and>
     bob \<in> set (sp_Players p))"
proof -
  obtain s' where s': "ExecuteTx sample_env mem None market_block lock_bob sample_state = (s', Inr ())"
    "balances mem s' bob = 1"
    using lock_bob_run by blast
  have "run_ok sample_env mem None market_block" by (simp add: market_block_def)
  from balance_authority [OF this sample_state_ok s'(1), of bob] s'(2) show ?thesis
    by (auto simp: balances_def)
qed

section \<open>Assets and the market\<close>

text \<open>
  C8. From a state without assets, every reachable state has a consistent market: each active listing
  names an existing tradeable asset that its seller owns and that points back to it, its price is
  positive, and each asset marked as listed has exactly that active listing.
\<close>

theorem market_consistent:
  assumes "healthy_db I \<alpha>" "ledger E I em s0 h s" "state_ok E I s0" "buf_ok s0" "no_assets E I s0"
    and "no_collision E (run_texts E h)" "hash_nonempty E"
  shows "market_ok (GetAsset E I s) (GetListing I s)"
  using healthy_db.ledger_market [OF assms] by blast

theorem market_consistent_witness:
  "\<exists>a. GetAsset sample_env mem market3 sword = Inr a \<and> ast_Owner a = alice \<and> ast_ActiveListingID a = offer"
  using market_ok_listing [OF market_consistent [OF mem.healthy_db_axioms market_ledger], of offer "the_offer True"]
  by (simp add: the_offer_def the_sword_def)

text \<open>
  C7. An asset leaves its owner only by the owner's will. Whenever a transaction changes the owner of an
  existing asset or removes it, either the owner sent it to burn or transfer the asset, or it buys the asset
  from an active listing that the owner put up.
\<close>

theorem asset_authority:
  assumes "healthy_db I \<alpha>" "ledger E I em s0 h s" "state_ok E I s0" "buf_ok s0" "no_assets E I s0"
    and "run_ok E I em block" "tx_ok tx" "payload_fits (tx_Payload tx)" "ExecuteTx E I em block tx s = (s', Inr u)"
    and "no_collision E (run_texts E (h @ [(block, tx)]))" "hash_nonempty E" "GetAsset E I s j = Inr a"
    and "\<nexists>a'. GetAsset E I s' j = Inr a' \<and> ast_Owner a' = ast_Owner a"
  shows "tx_From tx = ast_Owner a \<and> tx_Type tx \<in> {TxBurnAsset, TxTransferAsset} \<or>
    tx_Type tx = TxBuyMarket \<and> (\<exists>i l. GetListing I s i = Inr l \<and> lst_Active l \<and> lst_AssetID l = j \<and>
      lst_Seller l = ast_Owner a)"
  using healthy_db.ledger_owner [OF assms(1-12)] assms(13) by blast

lemma market4_sword: "GetAsset sample_env mem market4 sword = Inr (the_sword bob [])"
  by (simp add: market4_def)

theorem asset_authority_witness:
  "\<exists>i l. GetListing mem market3 i = Inr l \<and> lst_Active l \<and> lst_AssetID l = sword \<and> lst_Seller l = alice"
proof -
  have b: "run_ok sample_env mem None market_block" by (simp add: market_block_def)
  have "tx_From buy_tx = alice \<and> tx_Type buy_tx \<in> {TxBurnAsset, TxTransferAsset} \<or>
      tx_Type buy_tx = TxBuyMarket \<and> (\<exists>i l. GetListing mem market3 i = Inr l \<and> lst_Active l \<and> lst_AssetID l = sword \<and>
        lst_Seller l = alice)"
    using asset_authority [OF mem.healthy_db_axioms market_ledger _ _ _ b _ _ market_run4, of sword "the_sword alice offer"]
    by (simp add: market4_sword) (simp add: the_sword_def)
  then show ?thesis by simp
qed

section \<open>Independence of map iteration order\<close>

text \<open>
  C9. Executing a block does not depend on the order in which Go iterates maps: under any other iteration
  order it succeeds or fails just the same and leaves the same state.
\<close>

theorem execution_deterministic:
  assumes "run_ok E I em block" "state_ok E I s" "\<forall>tx\<in>set (blk_Transactions block). payload_fits (tx_Payload tx)"
  shows "fst (ExecuteBlock (reorder ord E) I em block s) = fst (ExecuteBlock E I em block s) \<and>
    is_ok (snd (ExecuteBlock (reorder ord E) I em block s)) = is_ok (snd (ExecuteBlock E I em block s))"
  using execute_txs_order [OF assms(1,2,3)] by (simp add: ExecuteBlock_def)

theorem execution_deterministic_witness:
  "fst (ExecuteBlock (reorder (\<lambda>n. rev) sample_env) mem None (sample_block bob [pay_bob]) sample_state) =
     fst (ExecuteBlock sample_env mem None (sample_block bob [pay_bob]) sample_state)"
  using execution_deterministic [OF sample_run_ok sample_state_ok, of bob "[pay_bob]" "\<lambda>n. rev"] by simp

section \<open>Failures and blocks\<close>

text \<open>
  C3. A transaction that fails, for whatever reason, leaves the world state exactly as it was: the
  write buffer, the stack of snapshots and the key-value store.
\<close>

theorem exec_failure_restores:
  assumes "ExecuteTx E I em block tx s = (s', Inl e)"
  shows "s' = s"
  by (cases rule: ExecuteTx_cases [of E tx I em block s]) (use assms in auto)

lemma sample_failure:
  "ExecuteTx sample_env mem None (sample_block bob []) (sample_tx TxTransfer alice_key 1 1 None) sample_state =
     (sample_state, Inl (Errorf ''invalid nonce''))"
proof -
  have "applyTx sample_env mem None (sample_block bob []) (sample_tx TxTransfer alice_key 1 1 None)
      (fst (Snapshot sample_state)) = (fst (Snapshot sample_state), Inl (Errorf ''invalid nonce''))"
    by (simp add: applyTx_def charge_fee_def)
  then show ?thesis
    by (cases rule: ExecuteTx_cases [of sample_env "sample_tx TxTransfer alice_key 1 1 None" mem None
        "sample_block bob []" sample_state]) auto
qed

theorem exec_failure_restores_witness:
  "fst (ExecuteTx sample_env mem None (sample_block bob []) (sample_tx TxTransfer alice_key 1 1 None) sample_state) =
     sample_state"
  using exec_failure_restores [OF sample_failure] sample_failure by simp

text \<open>
  Executing a block neither creates nor destroys tokens: the balances of all accounts together
  with the stakes locked in open sessions sum to the same amount before and after, except for the
  fees of a block that names no proposer.
\<close>

theorem block_conserves_supply:
  assumes "kv_db I \<alpha>" "run_ok E I em block" "state_ok E I s"
    and "\<forall>tx\<in>set (blk_Transactions block). payload_fits (tx_Payload tx)"
    and "ExecuteBlock E I em block s = (s', Inr u)"
  shows "total_supply I s' + sum_list (map (burned_fee block) (blk_Transactions block)) = total_supply I s"
  using kv_db.execute_txs_supply [OF assms(1,2,4,3)] assms(5) by (simp add: ExecuteBlock_def)

lemma sample_block_run:
  "\<exists>s'. ExecuteBlock sample_env mem None (sample_block bob [pay_bob]) sample_state = (s', Inr ())"
  by (simp add: ExecuteBlock_def sample_run)

theorem block_conserves_supply_witness:
  "\<exists>s'. ExecuteBlock sample_env mem None (sample_block bob [pay_bob]) sample_state = (s', Inr ()) \<and>
     total_supply mem s' = total_supply mem sample_state"
proof -
  obtain s' where s': "ExecuteBlock sample_env mem None (sample_block bob [pay_bob]) sample_state = (s', Inr ())"
    using sample_block_run by blast
  have "total_supply mem s' + sum_list (map (burned_fee (sample_block bob [pay_bob]))
      (blk_Transactions (sample_block bob [pay_bob]))) = total_supply mem sample_state"
    by (rule block_conserves_supply [OF mem.kv_db_axioms _ _ _ s']) simp_all
  with s' show ?thesis by (simp add: burned_fee_def)
qed

end
