(* ===== verification/StateTheorems.thy ===== *)
theory StateTheorems
  imports ExecTheorems LevelDB
begin

text \<open>
  What the state database, the transactions, the blocks and the stores promise: commit is atomic, a
  snapshot restores the state, the state root identifies the state and nothing else, IDs and hashes bind
  what they name, and everything written is read back.
\<close>

section \<open>The state database\<close>

lemma sample_sdb_ok [simp]: "sdb_ok sample_state"
  using sample_buf_ok by (simp add: buf_ok_def)

text \<open>
  C14. Committing is atomic: a commit that succeeds leaves in the store exactly what the buffered state
  showed, with an empty buffer; one that fails leaves the store and the buffer as they were.
\<close>

theorem commit_atomic:
  assumes "kv_db I \<alpha>" "sdb_ok s" "Commit E I s = (s', r)"
  shows "case r of Inr _ \<Rightarrow> \<alpha> (sdb_db s') = view \<alpha> s \<and> s' = NewStateDB (sdb_db s')
    | Inl _ \<Rightarrow> \<alpha> (sdb_db s') = \<alpha> (sdb_db s) \<and> s' = s\<lparr>sdb_db := sdb_db s'\<rparr>"
proof (cases r)
  case (Inl e)
  then show ?thesis
    using assms(3) kv_db.write_error [OF assms(1)] by (auto simp: Commit_def split: prod.splits sum.splits)
next
  case (Inr u)
  then show ?thesis using kv_db.Commit_ok [OF assms(1,2)] assms(3) by auto
qed

definition sample_committed :: "mem_store statedb" where
  "sample_committed = fst (Commit sample_env mem sample_state)"

lemma mem_Commit: "\<exists>s'. Commit E (MemDB F) s = (s', Inr ())"
  using mem_Write_spec(1) [of "sdb_db s" "commit_ops E s"]
  by (auto simp: Commit_def MemDB_def split: prod.splits sum.splits)

lemma sample_commit: "Commit sample_env mem sample_state = (sample_committed, Inr ())"
  unfolding sample_committed_def using mem_Commit [of sample_env sample_env sample_state] by auto

theorem commit_atomic_witness:
  "fmlookup (sdb_db sample_committed) = view fmlookup sample_state"
  using commit_atomic [OF mem.kv_db_axioms sample_sdb_ok sample_commit] by simp

text \<open>
  C15. Reverting to a snapshot undoes everything since: after any writes, deletions and nested snapshots
  and reverts above it, the state is the one the snapshot was taken in, exactly.
\<close>

theorem snapshot_restores:
  assumes "Snapshot s = (s1, sid)" "\<forall>op\<in>set ops. above sid op"
  shows "RevertToSnapshot (run_ops ops s1) (int sid) = (s, Inr ())"
  by (rule revert_restores [OF assms])

theorem snapshot_restores_witness:
  "RevertToSnapshot (run_ops [OpSet ''acc:x'' ''1'', OpDel ''acc:y'', OpSnapshot] (fst (Snapshot sample_state))) 0 =
     (sample_state, Inr ())"
  using snapshot_restores [of sample_state "fst (Snapshot sample_state)" 0
      "[OpSet ''acc:x'' ''1'', OpDel ''acc:y'', OpSnapshot]"]
  by (simp add: Snapshot_def sample_state_def NewStateDB_def SetAccount_def sdb_set_def Let_def)

section \<open>The state root\<close>

lemma sample_committed_view: "view fmlookup sample_committed = view fmlookup sample_state" "buf_ok sample_committed"
  using mem.Commit_ok [OF sample_sdb_ok sample_commit] mem.commit_buf_ok [OF sample_buf_ok sample_commit] by auto

text \<open>
  C27. The state root depends only on the entries of the world state: two nodes that show the same
  entries compute the same root, whatever is buffered and what is stored, whatever database they use,
  whatever else it holds, and whatever the iteration order of their maps.
\<close>

theorem root_canonical:
  assumes "kv_db I \<alpha>" "db_healthy I (sdb_db s)" "buf_ok s" "kv_db J \<beta>" "db_healthy J (sdb_db t)" "buf_ok t"
    and "\<forall>k. state_key k \<longrightarrow> view \<alpha> s k = view \<beta> t k"
  shows "ComputeRoot E I s = ComputeRoot (reorder ord E) J t"
proof -
  have "view \<alpha> s |` {k. state_key k} = view \<beta> t |` {k. state_key k}"
    using assms(7) by (auto simp: restrict_map_def fun_eq_iff)
  from root_of_view [OF assms(1-6) this, of E "reorder ord E"] show ?thesis by (simp add: ComputeRoot_def)
qed

theorem root_canonical_witness:
  "ComputeRoot sample_env mem sample_state = ComputeRoot (reorder (\<lambda>n. rev) sample_env) mem sample_committed"
  using root_canonical [OF mem.kv_db_axioms mem.healthy sample_buf_ok mem.kv_db_axioms mem.healthy] sample_committed_view
  by simp

lemma get_of_view:
  assumes "kv_db I \<alpha>" "db_healthy I (sdb_db s)" "kv_db J \<beta>" "db_healthy J (sdb_db t)"
    and "\<And>k. state_key k \<Longrightarrow> view \<alpha> s k = view \<beta> t k"
  shows "GetAccount I s = GetAccount J t" "GetAsset E I s = GetAsset E J t" "GetTemplate E I s = GetTemplate E J t"
    "GetSession I s = GetSession J t" "GetListing I s = GetListing J t"
proof -
  have "sdb_get I s k = sdb_get J t k" if "state_key k" for k
    using kv_db.healthy_get_view [OF assms(1,2)] kv_db.healthy_get_view [OF assms(3,4)] assms(5) [OF that] by metis
  then show "GetAccount I s = GetAccount J t" "GetAsset E I s = GetAsset E J t"
    "GetTemplate E I s = GetTemplate E J t" "GetSession I s = GetSession J t" "GetListing I s = GetListing J t"
    by (simp_all add: accessor_defs fun_eq_iff)
qed

text \<open>
  C13. The state root commits to the whole world state: two nodes with the same root read the same
  accounts, assets, templates, sessions and listings, as long as the two hashed texts do not collide and
  every key and value is shorter than 4 GiB.
\<close>

theorem root_binding:
  assumes "kv_db I \<alpha>" "db_healthy I (sdb_db s)" "buf_ok s" "kv_db J \<beta>" "db_healthy J (sdb_db t)" "buf_ok t"
    and "entries_fit (root_merged E I s)" "entries_fit (root_merged E J t)"
    and "no_collision E {root_text E (root_merged E I s), root_text E (root_merged E J t)}"
    and "ComputeRoot E I s = ComputeRoot E J t"
  shows "GetAccount I s = GetAccount J t \<and> GetAsset E I s = GetAsset E J t \<and> GetTemplate E I s = GetTemplate E J t \<and>
    GetSession I s = GetSession J t \<and> GetListing I s = GetListing J t"
proof -
  have "root_text E (root_merged E I s) = root_text E (root_merged E J t)"
    using Hash_inject [OF assms(9)] assms(10) by (simp add: ComputeRoot_def)
  from root_binds_view [OF assms(1-8) this]
  have "view \<alpha> s k = view \<beta> t k" if "state_key k" for k
    using that by (metis (mono_tags) mem_Collect_eq restrict_in)
  from get_of_view [OF assms(1,2,4,5) this] show ?thesis by blast
qed

lemma print_nat_length: "length (print_nat n) \<le> Suc n"
proof (induction n rule: print_nat.induct)
  case (1 n)
  then show ?case
  proof (cases "n < 10")
    case False
    then have "length (print_nat (n div 10)) \<le> Suc (n div 10)" using 1 by simp
    with False show ?thesis by (subst print_nat.simps) simp
  qed (subst print_nat.simps, simp)
qed

lemma sample_account_fits:
  "a \<in> {alice, bob} \<Longrightarrow> unat b \<le> 1000 \<Longrightarrow> unat n \<le> 1000 \<Longrightarrow>
     fits32 (prefixAccount @ a) \<and> fits32 (marshal enc_account (sample_account a b n))"
  using print_nat_length [of "unat b"] print_nat_length [of "unat n"]
  by (auto simp: fits32_def marshal_def enc_account_def sample_account_def enc_string_def enc_uint64_def prefixAccount_def)

lemma sample_view: "view fmlookup sample_state =
    [prefixAccount @ alice \<mapsto> marshal enc_account (sample_account alice 100 0),
     prefixAccount @ bob \<mapsto> marshal enc_account (sample_account bob 3 0)]"
  by (simp add: sample_state_def SetAccount_def view_set view_NewStateDB fun_upd_twist)

lemma sample_entries: "view fmlookup s = view fmlookup sample_state \<Longrightarrow> buf_ok s \<Longrightarrow> entries_fit (root_merged E mem s)"
  using sample_account_fits [of alice 100 0] sample_account_fits [of bob 3 0]
  by (auto simp: entries_fit_def buf_ok_def mem.root_merged_lookup [OF mem.healthy] restrict_map_def sample_view
      split: if_splits)

theorem root_binding_witness: "GetAccount mem sample_committed = GetAccount mem sample_state"
proof -
  have "ComputeRoot sample_env mem sample_committed = ComputeRoot sample_env mem sample_state"
    using root_of_view [OF mem.kv_db_axioms mem.healthy sample_committed_view(2) mem.kv_db_axioms mem.healthy sample_buf_ok,
        of sample_env sample_env sample_env sample_env] sample_committed_view(1) by (simp add: ComputeRoot_def)
  then show ?thesis
    using root_binding [OF mem.kv_db_axioms mem.healthy sample_committed_view(2) mem.kv_db_axioms mem.healthy sample_buf_ok
        sample_entries sample_entries, where E = sample_env] sample_committed_view by simp
qed

section \<open>Transactions\<close>

text \<open>
  C16. A transaction ID names one transaction body: two well-formed transactions that pass verification
  under the same ID agree in every signed field, as long as their signing texts do not collide.
\<close>

theorem tx_id_binding:
  assumes "tx_ok t" "tx_ok u" "tx_Verify E t = Inr ()" "tx_Verify E u = Inr ()" "tx_ID t = tx_ID u"
    and "no_collision E {marshal enc_signingBody t, marshal enc_signingBody u}"
  shows "same_body t u"
proof -
  have "tx_Hash E t = tx_Hash E u" using assms(3-5) by (auto simp: tx_Verify_Inr)
  then have "marshal enc_signingBody t = marshal enc_signingBody u"
    using Hash_inject [OF assms(6)] by (simp add: tx_Hash_def)
  then show ?thesis using marshal_signingBody_inject [OF assms(1,2)] by blast
qed

lemma wire_form_ok: "tx_ok tx \<Longrightarrow> tx_ok (wire_form tx)"
  using enc_raw_ok(1) [OF tx_ok_payload] enc_raw_depth by (auto simp: tx_ok_def wire_form_def)

lemma pay_bob_Verify [simp]: "tx_Verify sample_env pay_bob = Inr ()"
  by (simp add: pay_bob_def)

theorem tx_id_binding_witness: "same_body pay_bob (wire_form pay_bob)"
proof -
  have "tx_ID (wire_form pay_bob) = tx_ID pay_bob" by (simp add: wire_form_def)
  then show ?thesis
    using tx_id_binding [OF pay_bob_ok wire_form_ok [OF pay_bob_ok], where E = sample_env] by simp
qed

text \<open>
  C29. A transaction signed with a key verifies, and still does after a trip through JSON, whatever the
  type, nonce, fee and payload: the decoded transaction has the same fields, the payload in escaped form,
  and the same hash.
\<close>

theorem tx_signed_roundtrip:
  assumes "ed25519_ok E" "length priv = 64" "tx_From tx = Hex (Public E priv)" "tx_ok (tx_Sign E priv tx)"
  shows "unmarshal dec_transaction (marshal enc_transaction (tx_Sign E priv tx)) = Inr (wire_form (tx_Sign E priv tx)) \<and>
    tx_Verify E (wire_form (tx_Sign E priv tx)) = Inr () \<and>
    tx_Hash E (wire_form (tx_Sign E priv tx)) = tx_ID (tx_Sign E priv tx)"
proof -
  have "unmarshal dec_transaction (marshal enc_transaction (tx_Sign E priv tx)) = Inr (wire_form (tx_Sign E priv tx))"
    using parse_print_json [OF enc_transaction_ok [OF assms(4)]] dec_enc_transaction [OF assms(4)]
    by (simp add: unmarshal_def marshal_def)
  moreover note v = tx_Verify_Sign [OF assms(1-3)]
  moreover have "tx_Hash E (wire_form (tx_Sign E priv tx)) = tx_ID (tx_Sign E priv tx)"
    using v by (auto simp: tx_Verify_Inr tx_Hash_def marshal_def)
  ultimately show ?thesis by simp
qed

theorem tx_signed_roundtrip_witness:
  "unmarshal dec_transaction (marshal enc_transaction pay_bob) = Inr (wire_form pay_bob)"
  using tx_signed_roundtrip [OF sample_ed25519_ok key_length(1),
      of "sample_unsigned TxTransfer alice 0 1 (Some (transfer_payload_json bob 7))"] pay_bob_ok
  by (simp add: pay_bob_def sample_tx_def sample_unsigned_def)

text \<open>
  C30. Whatever bytes a peer or a client sends, when they decode to a transaction it is well formed: its
  strings are valid UTF-8, its numbers are in range and its payload is valid JSON; so it can be sent on and
  decodes again to the same transaction.
\<close>

theorem decoded_tx_ok:
  assumes "unmarshal dec_transaction data = Inr tx"
  shows "tx_ok tx \<and> unmarshal dec_transaction (marshal enc_transaction tx) = Inr (wire_form tx)"
proof -
  obtain j where j: "parse_json data = Some j" "dec_transaction j = Inr tx"
    using assms by (auto simp: unmarshal_def split: option.splits)
  then have "tx_ok tx" using parse_json_sound dec_transaction_ok by (metis raw_valid_def)
  then show ?thesis
    using parse_print_json [OF enc_transaction_ok] dec_enc_transaction by (simp add: unmarshal_def marshal_def)
qed

theorem decoded_tx_ok_witness: "tx_ok (wire_form pay_bob)"
proof -
  have "unmarshal dec_transaction (marshal enc_transaction pay_bob) = Inr (wire_form pay_bob)"
    using parse_print_json [OF enc_transaction_ok [OF pay_bob_ok]] dec_enc_transaction [OF pay_bob_ok]
    by (simp add: unmarshal_def marshal_def)
  from decoded_tx_ok [OF this] show ?thesis by blast
qed

section \<open>Records of the world state\<close>

text \<open>
  C28. What a setter of the state database writes, the getter reads back, for every well-formed account,
  asset, template, session and listing; every other ID of that kind reads as before.
\<close>

theorem state_records_roundtrip:
  "(account_ok acc \<longrightarrow> GetAccount I (SetAccount s acc) = (GetAccount I s)(acc_Address acc := Inr acc)) \<and>
   (asset_ok (float_norm E) x \<longrightarrow> GetAsset E I (SetAsset s x) = (GetAsset E I s)(ast_ID x := Inr x)) \<and>
   GetAsset E I (DeleteAsset s i) = (GetAsset E I s)(i := Inl ErrNotFound) \<and>
   (template_ok (float_norm E) t \<longrightarrow> GetTemplate E I (SetTemplate s t) = (GetTemplate E I s)(tpl_ID t := Inr t)) \<and>
   (session_ok q \<longrightarrow> GetSession I (SetSession s q) = (GetSession I s)(ses_ID q := Inr q)) \<and>
   (listing_ok l \<longrightarrow> GetListing I (SetListing s l) = (GetListing I s)(lst_ID l := Inr l))"
  by (simp add: fun_eq_iff)

theorem state_records_roundtrip_witness:
  "GetAsset sample_env mem (SetAsset sample_state (the_sword alice [])) =
     (GetAsset sample_env mem sample_state)(sword := Inr (the_sword alice []))"
  using state_records_roundtrip [where s = sample_state and x = "the_sword alice []" and E = sample_env and I = mem]
  by simp

section \<open>Blocks\<close>

lemma same_body_list:
  assumes "list_all2 (\<lambda>t u. tx_ok t \<and> tx_ok u \<and> tx_Verify E t = Inr () \<and> tx_Verify E u = Inr () \<and> tx_ID t = tx_ID u) ts us"
    and "no_collision E (marshal enc_signingBody ` (set ts \<union> set us))"
  shows "list_all2 same_body ts us"
  using assms
proof (induction rule: list_all2_induct)
  case (Cons t ts u us)
  have "tx_Hash E t = tx_Hash E u" using Cons.hyps(1) by (auto simp: tx_Verify_Inr)
  then have "marshal enc_signingBody t = marshal enc_signingBody u"
    using Hash_inject [OF Cons.prems] by (simp add: tx_Hash_def)
  then have "same_body t u" using marshal_signingBody_inject Cons.hyps(1) by blast
  moreover have "no_collision E (marshal enc_signingBody ` (set ts \<union> set us))"
    using Cons.prems by (auto simp: no_collision_def intro: inj_on_subset)
  ultimately show ?case using Cons.IH by simp
qed simp

text \<open>
  C17. A block hash names one block: two intact blocks with the same hash have the same header and the
  same transactions in the same order, each with the same signed fields, as long as the texts that are
  hashed (headers, transaction roots, signing bodies) do not collide.
\<close>

theorem block_hash_binding:
  assumes "VerifyIntegrity E b = Inr ()" "VerifyIntegrity E c = Inr ()" "blk_Hash b = blk_Hash c"
    and "header_ok (blk_Header b)" "header_ok (blk_Header c)"
    and "\<forall>t\<in>set (blk_Transactions b) \<union> set (blk_Transactions c). tx_ok t \<and> tx_Verify E t = Inr () \<and> fits32 (tx_ID t)"
    and "no_collision E ({marshal enc_header (blk_Header b), marshal enc_header (blk_Header c),
      tx_root_text (blk_Transactions b), tx_root_text (blk_Transactions c)} \<union>
      marshal enc_signingBody ` (set (blk_Transactions b) \<union> set (blk_Transactions c)))"
  shows "blk_Header b = blk_Header c \<and> list_all2 same_body (blk_Transactions b) (blk_Transactions c)"
proof -
  note i = assms(1,2) [unfolded VerifyIntegrity_Inr]
  have "marshal enc_header (blk_Header b) = marshal enc_header (blk_Header c)"
    using Hash_inject [OF assms(7)] i assms(3) by (simp add: ComputeHash_def)
  then have h: "blk_Header b = blk_Header c" using marshal_header_inject assms(4,5) by blast
  then have "tx_root_text (blk_Transactions b) = tx_root_text (blk_Transactions c)"
    using Hash_inject [OF assms(7)] i by (simp add: ComputeTxRoot_def)
  then have "map tx_ID (blk_Transactions b) = map tx_ID (blk_Transactions c)"
    using tx_root_text_inject assms(6) by blast
  then have "list_all2 (\<lambda>t u. tx_ID t = tx_ID u) (blk_Transactions b) (blk_Transactions c)"
    by (simp add: list_all2_map1 list_all2_map2 flip: list.rel_eq)
  then have "list_all2 (\<lambda>t u. tx_ok t \<and> tx_ok u \<and> tx_Verify E t = Inr () \<and> tx_Verify E u = Inr () \<and> tx_ID t = tx_ID u)
      (blk_Transactions b) (blk_Transactions c)"
    using assms(6) by (auto intro: list_all2_mono simp: list_all2_conv_all_nth)
  moreover have "no_collision E (marshal enc_signingBody ` (set (blk_Transactions b) \<union> set (blk_Transactions c)))"
    using assms(7) by (auto simp: no_collision_def intro: inj_on_subset)
  ultimately show ?thesis using h same_body_list by blast
qed

definition sealed_block :: block where
  "sealed_block = blk_Sign sample_env bob_key (sample_block bob [pay_bob])"

lemma sealed_simps [simp]:
  "blk_Transactions sealed_block = [pay_bob]" "VerifyIntegrity sample_env sealed_block = Inr ()"
  "header_ok (blk_Header sealed_block)"
  by (simp_all add: sealed_block_def VerifyIntegrity_def)
    (simp_all add: sample_block_def NewBlock_def header_ok_def in_int64_def utf8_ok_ascii_all ComputeTxRoot_def)

lemma quote_transfer [simp]: "quote_go ''transfer'' = ''transfer''"
  by (simp add: quote_go.simps esc_ascii_def)

lemma html_bob [simp]: "html_raw bob = bob"
  unfolding bob_def by (rule html_hex) (auto simp: Hex_def hex_encode_hex)

lemma pay_bob_ID_fits [simp]: "fits32 (tx_ID pay_bob)"
  by (simp add: pay_bob_def sample_tx_ID size_simps TxTransfer_def html_raw.simps fits32_def transfer_payload_json_def)

theorem block_hash_binding_witness: "list_all2 same_body [pay_bob] [wire_form pay_bob]"
proof -
  let ?c = "sealed_block\<lparr>blk_Transactions := [wire_form pay_bob]\<rparr>"
  have i: "tx_ID (wire_form pay_bob) = tx_ID pay_bob" by (simp add: wire_form_def)
  have "VerifyIntegrity sample_env ?c = Inr ()"
    using sealed_simps(2) [unfolded VerifyIntegrity_Inr] by (simp add: VerifyIntegrity_Inr ComputeHash_def ComputeTxRoot_def tx_root_text_def i)
  then show ?thesis
    using block_hash_binding [of sample_env sealed_block ?c] wire_form_ok [OF pay_bob_ok] by (simp add: i)
qed

section \<open>The stores\<close>

text \<open>A LevelDB handle that behaves as documented, for the witnesses: a map, with no I/O errors.\<close>

definition map_ldb :: "mem_store goleveldb" where
  "map_ldb = \<lparr>ldb_Get = (\<lambda>d k. case fmlookup d k of None \<Rightarrow> Inl LdbNotFound | Some v \<Rightarrow> Inr v),
     ldb_Put = (\<lambda>d k v. (fmupd k v d, None)), ldb_Delete = (\<lambda>d k. (fmdrop k d, None)),
     ldb_Write = (\<lambda>d ops. (fst (mem_Write d ops), None)),
     ldb_Iter = (\<lambda>d p. (fst (mem_NewIterator sample_env d p), None))\<rparr>"

lemma map_ldb_ok: "goleveldb_ok map_ldb fmlookup"
  using mem.healthy_iter [OF mem.healthy, of sample_env]
  by (auto simp: goleveldb_ok_def map_ldb_def mem_Write_spec MemDB_def fun_eq_iff split: option.splits)

text \<open>
  C36. On LevelDB a state commit is all or nothing: for every handle that behaves as documented, a commit
  that reports success has written exactly the buffered state, and one that reports an error has written
  nothing and can be tried again.
\<close>

theorem leveldb_commit:
  assumes "goleveldb_ok G \<gamma>" "sdb_ok s" "Commit E (LevelDB G) s = (s', r)"
  shows "\<gamma> (sdb_db s') = (if is_ok r then view \<gamma> s else \<gamma> (sdb_db s)) \<and> view \<gamma> s' = view \<gamma> s"
proof -
  note k = LevelDB_kv_db [OF assms(1)]
  show ?thesis
  proof (cases r)
    case (Inl e)
    then show ?thesis
      using assms(3) kv_db.write_error [OF k] kv_db.Commit_error(1) [OF k]
      by (auto simp: Commit_def split: prod.splits sum.splits)
  next
    case (Inr u)
    then show ?thesis using kv_db.Commit_ok [OF k assms(2)] assms(3) by auto
  qed
qed

theorem leveldb_commit_witness:
  "\<exists>s'. fst (Commit sample_env (LevelDB map_ldb) sample_state) = s' \<and> fmlookup (sdb_db s') = view fmlookup sample_state"
proof -
  obtain s' where "Commit sample_env (LevelDB map_ldb) sample_state = (s', Inr ())"
    by (simp add: Commit_def LevelDB_def lvl_Write_def map_ldb_def ldb_result_def)
  with leveldb_commit [OF map_ldb_ok sample_sdb_ok this] show ?thesis by simp
qed

end
