(* ===== verification/ChainTheorems.thy ===== *)
theory ChainTheorems
  imports StateTheorems Consensus
begin

text \<open>
  What the pool, the chain, the configuration, the genesis block and consensus promise: the pool is a
  queue that serves everyone, the chain is linked and survives a restart, validators take turns, and a block
  that one node produces passes validation at the others.
\<close>

section \<open>The pool\<close>

text \<open>
  C20. The pool refines a queue: an admitted transaction goes to the end, a refused one changes nothing,
  \<open>Pending\<close> returns the oldest \<open>n\<close>, \<open>Remove\<close> takes out exactly the named ones, and
  the pool never holds two transactions with one ID, more than its limit, or one that does not verify.
\<close>

theorem pool_refines_queue:
  assumes "pool_ok E m"
  shows "(pool_Add E now tx m = (m', Inr ()) \<longrightarrow> pool_ok E m' \<and> pool_queue m' = pool_queue m @ [tx]) \<and>
    (pool_Add E now tx m = (m', Inl e) \<longrightarrow> m' = m) \<and>
    (0 < n \<longrightarrow> pool_Pending n m = Some (take (nat n) (pool_queue m))) \<and>
    pool_ok E (pool_Remove ids m) \<and>
    pool_queue (pool_Remove ids m) = filter (\<lambda>t. tx_ID t \<notin> set ids) (pool_queue m) \<and>
    distinct (map tx_ID (pool_queue m)) \<and> int (length (pool_queue m)) \<le> maxMempoolSize \<and>
    (\<forall>t\<in>set (pool_queue m). tx_Verify E t = Inr ())"
proof (intro conjI impI ballI)
  show "pool_Add E now tx m = (m', Inr ()) \<Longrightarrow> pool_ok E m'"
    "pool_Add E now tx m = (m', Inr ()) \<Longrightarrow> pool_queue m' = pool_queue m @ [tx]"
    using pool_Add_ok [OF assms] by blast+
  show "pool_Add E now tx m = (m', Inl e) \<Longrightarrow> m' = m" by (rule pool_Add_error)
  show "0 < n \<Longrightarrow> pool_Pending n m = Some (take (nat n) (pool_queue m))" by (rule pool_Pending_take [OF assms])
  show "pool_ok E (pool_Remove ids m)"
    "pool_queue (pool_Remove ids m) = filter (\<lambda>t. tx_ID t \<notin> set ids) (pool_queue m)"
    using pool_Remove_ok [OF assms] by blast+
  show "distinct (map tx_ID (pool_queue m))" by (rule pool.ids [OF assms])
  show "int (length (pool_queue m)) \<le> maxMempoolSize"
    using pool_Size_queue [OF assms] assms by (simp add: pool_ok_def)
  show "t \<in> set (pool_queue m) \<Longrightarrow> tx_Verify E t = Inr ()" for t by (rule pool_queue_verified [OF assms])
qed

definition sample_pool :: mempool where
  "sample_pool = fst (pool_Add sample_env 5 pay_bob NewMempool)"

lemma sample_pool_add: "pool_Add sample_env 5 pay_bob NewMempool = (sample_pool, Inr ())"
proof -
  have "tx_Timestamp pay_bob = 5"
    by (simp add: pay_bob_def sample_tx_def sample_unsigned_def tx_Sign_def Let_def)
  then show ?thesis
    by (simp add: sample_pool_def pool_Add_def NewMempool_def pool_Size_def mempool_consts fcard_fempty)
qed

lemma sample_pool_ok [simp]: "pool_ok sample_env sample_pool" "pool_queue sample_pool = [pay_bob]"
  using pool.add_ok [OF NewMempool_ok(1) sample_pool_add] NewMempool_ok(2) by simp_all

theorem pool_refines_queue_witness: "pool_Pending 3 sample_pool = Some [pay_bob]"
  using pool_refines_queue [OF sample_pool_ok(1), where n = 3] by simp

lemma nth_in_chunk:
  fixes i n :: nat
  assumes "i < length xs" "0 < n"
  shows "xs ! i \<in> set (take n (drop (i div n * n) xs))"
proof -
  obtain a b where ab: "i = a * n + b" "b < n" "i div n = a"
    using assms(2) by (metis div_mod_decomp mod_less_divisor)
  have "take n (drop (a * n) xs) ! b = xs ! i" "b < length (take n (drop (a * n) xs))"
    using ab assms(1) by (simp_all add: add.commute)
  then show ?thesis using ab(3) by (metis nth_mem)
qed



text \<open>
  C37. Admission bounds the age of a transaction: one that is admitted is at most one hour old and at most
  five minutes ahead of the clock, when the difference of the two timestamps fits 64 bits.
\<close>

theorem pool_admission_window:
  assumes "pool_Add E now tx m = (m', Inr u)" "0 \<le> now" "in_int64 (tx_Timestamp tx)" "now - tx_Timestamp tx < 2 ^ 63"
  shows "now - maxTxAge \<le> tx_Timestamp tx \<and> tx_Timestamp tx \<le> now + maxTxFuture"
  by (rule pool_window [OF assms])

theorem pool_admission_window_witness: "5 - maxTxAge \<le> tx_Timestamp pay_bob"
  using pool_admission_window [OF sample_pool_add]
  by (simp add: pay_bob_def sample_tx_def sample_unsigned_def tx_Sign_def Let_def in_int64_def)

section \<open>The chain\<close>

text \<open>
  Adding a block keeps the chain linked and complete: each block follows its predecessor in height
  and names its hash, and all of them are in the store under their hash and height, the newest as the tip. A
  block that is refused changes neither the tip nor what is stored.
\<close>

theorem add_block_extends:
  assumes "kv_db I \<alpha>" "ldb_chain \<alpha> bc bs" "bc_AddBlock (LevelBlockStore I) b bc = (bc', r)"
    and "stored_ok b" "sb_Hash b \<notin> sb_Hash ` set bs" "in_int64 (bc_height bc)"
  shows "ldb_chain \<alpha> bc' (if is_ok r then bs @ [b] else bs)"
  by (rule kv_db.chain_AddBlock [OF assms])

definition stored_sample :: stored_block where
  "stored_sample = store_form False sealed_block"

lemma stored_sample_ok [simp]: "stored_ok stored_sample"
proof -
  have "jdepth (enc_raw (tx_Payload pay_bob)) = 1"
    by (simp add: pay_bob_def enc_raw_def transfer_payload_json_def enc_string_def enc_uint64_def)
  moreover have "utf8_ok (blk_Hash sealed_block)" "utf8_ok (blk_Signature sealed_block)"
    by (simp_all add: sealed_block_def ComputeHash_def Sign_def utf8_ok_hex hex_encode_hex)
  ultimately show ?thesis
    by (simp add: stored_sample_def stored_ok_def store_form_def sb_list_def max_nesting_def)
qed

lemma empty_chain: "ldb_chain fmlookup (NewBlockchain fmempty) []"
  by (simp add: chain_holds_def NewBlockchain_def stored_tip_def stored_heights_def [abs_def])

lemma mem_AddBlock_first: "\<exists>bc. bc_AddBlock (LevelBlockStore mem) b (NewBlockchain d) = (bc, Inr ())"
  by (simp add: bc_AddBlock_def NewBlockchain_def LevelBlockStore_def lbs_CommitBlock_def MemDB_def)

theorem add_block_extends_witness:
  "\<exists>bc. bc_AddBlock (LevelBlockStore mem) stored_sample (NewBlockchain fmempty) = (bc, Inr ()) \<and>
     ldb_chain fmlookup bc [stored_sample]"
proof -
  obtain bc where bc: "bc_AddBlock (LevelBlockStore mem) stored_sample (NewBlockchain fmempty) = (bc, Inr ())"
    using mem_AddBlock_first by blast
  with add_block_extends [OF mem.kv_db_axioms empty_chain bc] show ?thesis
    by (simp add: NewBlockchain_def in_int64_def)
qed

text \<open>
  A node finds its chain again after a restart: initialising a new blockchain object on the same store
  succeeds, and it holds the same blocks with the same tip and height; each of them can be read by hash and
  by height.
\<close>

theorem chain_restart:
  assumes "healthy_db I \<alpha>" "ldb_chain \<alpha> bc bs" "\<forall>b\<in>set bs. sb_Hash b \<noteq> []"
  shows "\<exists>bc'. bc_Init (LevelBlockStore I) (NewBlockchain (bc_store bc)) = (bc', Inr ()) \<and> ldb_chain \<alpha> bc' bs \<and>
    (\<forall>b\<in>set bs. bc_GetBlock (LevelBlockStore I) bc' (sb_Hash b) = Inr (wire_block b) \<and>
       bc_GetBlockByHeight (LevelBlockStore I) bc' (sb_Height b) = Inr (wire_block b))"
  using healthy_db.chain_Init [OF assms] healthy_db.chain_Get [OF assms(1)] by blast

lemma sealed_hash: "sb_Hash stored_sample \<noteq> []"
  using Hash_nonempty [OF sample_hash_nonempty]
  by (simp add: stored_sample_def store_form_def sealed_block_def ComputeHash_def marshal_def enc_header_def)

theorem chain_restart_witness:
  "\<exists>bc bc'. bc_AddBlock (LevelBlockStore mem) stored_sample (NewBlockchain fmempty) = (bc, Inr ()) \<and>
     bc_Init (LevelBlockStore mem) (NewBlockchain (bc_store bc)) = (bc', Inr ()) \<and> ldb_chain fmlookup bc' [stored_sample]"
proof -
  obtain bc where bc: "bc_AddBlock (LevelBlockStore mem) stored_sample (NewBlockchain fmempty) = (bc, Inr ())"
    using mem_AddBlock_first by blast
  have "ldb_chain fmlookup bc [stored_sample]"
    using mem.chain_AddBlock [OF empty_chain bc] by (simp add: NewBlockchain_def in_int64_def)
  from chain_restart [OF mem.healthy_db_axioms this] sealed_hash bc show ?thesis by auto
qed

text \<open>
  C35. A payload nested almost as deep as the decoder allows passes every check on its own, but a block with
  it cannot be read back: after such a block is added the node does not start again.
\<close>

theorem deep_block_stops_node:
  assumes "healthy_db I \<alpha>" "bc_AddBlock (LevelBlockStore I) b bc = (bc', Inr u)" "sb_Hash b \<noteq> []"
    and "\<forall>tx. Some tx \<in> set (sb_list b) \<longrightarrow> tx_ok tx"
    and "Some t \<in> set (sb_list b)" "max_nesting < jdepth (enc_raw (tx_Payload t)) + 3"
  shows "bc_Init (LevelBlockStore I) (NewBlockchain (bc_store bc')) =
    (NewBlockchain (bc_store bc'), Inl (Wrapf ''load tip block'' JSONError))"
  using healthy_db.chain_deep [OF assms(1,2,3,5,6)] assms(4) by blast

primrec nested :: "nat \<Rightarrow> json" where
  "nested 0 = JArr []"
| "nested (Suc n) = JArr [nested n]"

lemma nested_depth: "jdepth (nested n) = Suc n" "json_ok (nested n)" "html_json (nested n) = nested n"
  by (induction n) simp_all

definition deep_tx :: transaction where
  "deep_tx = sample_tx TxTransfer alice_key 0 1 (Some (nested 9997))"

lemma deep_tx_ok: "tx_ok deep_tx" "tx_Verify sample_env deep_tx = Inr ()"
  unfolding deep_tx_def
  by (rule sample_tx_ok) (simp_all add: nested_depth max_nesting_def TxTransfer_def utf8_ok_ascii_all)

definition deep_stored :: stored_block where
  "deep_stored = stored_sample\<lparr>sb_Transactions := Some [Some deep_tx]\<rparr>"

theorem deep_block_stops_node_witness:
  "\<exists>bc. bc_AddBlock (LevelBlockStore mem) deep_stored (NewBlockchain fmempty) = (bc, Inr ()) \<and>
     snd (bc_Init (LevelBlockStore mem) (NewBlockchain (bc_store bc))) = Inl (Wrapf ''load tip block'' JSONError)"
proof -
  obtain bc where bc: "bc_AddBlock (LevelBlockStore mem) deep_stored (NewBlockchain fmempty) = (bc, Inr ())"
    using mem_AddBlock_first by blast
  have "sb_Hash deep_stored \<noteq> []" using sealed_hash by (simp add: deep_stored_def)
  moreover have "sb_list deep_stored = [Some deep_tx]" by (simp add: deep_stored_def sb_list_def)
  moreover have "jdepth (enc_raw (tx_Payload deep_tx)) = 9998" by (simp add: deep_tx_def enc_raw_def nested_depth)
  ultimately show ?thesis
    using deep_block_stops_node [OF mem.healthy_db_axioms bc, of deep_tx] deep_tx_ok(1) bc
    by (simp add: max_nesting_def)
qed

section \<open>Configuration and genesis\<close>

text \<open>
  A configuration file is accepted exactly when it decodes and is sound: identifiers are present, the
  ports are distinct and in range, there is at least one validator, the validators are distinct and are
  public keys, and TLS files are given all or not at all. The default configuration is not accepted.
\<close>

theorem config_accepted_iff:
  "(cfg_Load data = Inr c \<longleftrightarrow> (\<exists>text. data = Inr text \<and> unmarshal dec_config text = Inr c \<and> config_ok c)) \<and>
   \<not> is_ok (cfg_Validate DefaultConfig)"
proof -
  have "cfg_Validate DefaultConfig \<noteq> Inr u" for u using cfg_Validate_Inr default_invalid by blast
  then have "\<not> is_ok (cfg_Validate DefaultConfig)" by (cases "cfg_Validate DefaultConfig") auto
  then show ?thesis using cfg_Load_Inr by blast
qed

text \<open>
  C31. The genesis block starts the ledger as configured: on a store without state entries every account
  has the balance of the allocation and nonce zero, nothing else exists, the supply is the sum of the
  allocation, and the root in the block is the root of the committed state.
\<close>

theorem genesis_starts_ledger:
  assumes "healthy_db I \<alpha>" "fresh_store (\<alpha> d)" "map_utf8 (gen_Alloc (cfg_Genesis cfg))"
    and "CreateGenesisBlock E I now cfg priv (NewStateDB d) = (s, Inr b)"
  shows "(\<forall>a. GetAccount I s a = Inr \<lparr>acc_Address = a, acc_Balance = alloc_of cfg a, acc_Nonce = 0\<rparr>) \<and>
    state_ok E I s \<and> no_assets E I s \<and>
    total_supply I s = (\<Sum>a\<in>fset (fmdom (map_or_empty (gen_Alloc (cfg_Genesis cfg)))). unat (alloc_of cfg a)) \<and>
    hdr_StateRoot (blk_Header b) = ComputeRoot E I s"
  using healthy_db.genesis_state [OF assms] healthy_db.genesis_supply [OF assms] by blast

definition sample_config :: config where
  "sample_config = DefaultConfig\<lparr>cfg_Validators := [bob, alice],
     cfg_Genesis := \<lparr>gen_ChainID = ''tolchain'', gen_Alloc = Some (fmupd alice 100 (fmupd bob 3 fmempty))\<rparr>\<rparr>"

lemma sample_genesis:
  "\<exists>s b. CreateGenesisBlock sample_env mem 1 sample_config bob_key (NewStateDB fmempty) = (s, Inr b)"
  using mem_Commit [of sample_env sample_env] unfolding CreateGenesisBlock_Inr by fastforce

lemma sample_alloc [simp]: "map_utf8 (gen_Alloc (cfg_Genesis sample_config))" "fresh_store (fmlookup fmempty)"
  by (simp_all add: sample_config_def map_utf8_def fresh_store_def)

theorem genesis_starts_ledger_witness:
  "\<exists>s b. CreateGenesisBlock sample_env mem 1 sample_config bob_key (NewStateDB fmempty) = (s, Inr b) \<and>
     total_supply mem s = 103"
proof -
  obtain s b where g: "CreateGenesisBlock sample_env mem 1 sample_config bob_key (NewStateDB fmempty) = (s, Inr b)"
    using sample_genesis by blast
  from genesis_starts_ledger [OF mem.healthy_db_axioms _ _ g]
  have "total_supply mem s = 103" by (simp add: alloc_of_def) (simp add: sample_config_def)
  with g show ?thesis by blast
qed

section \<open>Consensus\<close>

text \<open>
  C22. Validators take turns: with a valid configuration, among any \<open>n\<close> consecutive heights (\<open>n\<close> the
  number of validators) each validator is the proposer of exactly one.
\<close>

theorem validators_take_turns:
  assumes "cfg_Validate cfg = Inr ()" "v \<in> set (cfg_Validators cfg)" "0 \<le> h"
  shows "\<exists>!k. k < length (cfg_Validators cfg) \<and> proposer_at (cfg_Validators cfg) (h + int k) = Some v"
  using assms round_robin by (auto simp: cfg_Validate_Inr config_ok_def)

lemma sample_config_ok: "config_ok sample_config"
  by (simp add: config_ok_def sample_config_def DefaultConfig_def)

theorem validators_take_turns_witness:
  "\<exists>!k. k < 2 \<and> proposer_at [bob, alice] (7 + int k) = Some alice"
  using validators_take_turns [of sample_config alice 7] sample_config_ok
  by (simp add: cfg_Validate_Inr) (simp add: sample_config_def numeral_2_eq_2)

lemma wire_block_simps [simp]:
  "sb_Header (wire_block b) = sb_Header b" "sb_Hash (wire_block b) = sb_Hash b"
  "sb_Signature (wire_block b) = sb_Signature b"
  by (simp_all add: wire_block_def)

lemma block_of_wire:
  "block_of (wire_block (store_form False b)) = Some (b\<lparr>blk_Transactions := map wire_form (blk_Transactions b)\<rparr>)"
  by (cases b) (auto simp: block_of_def wire_block_def store_form_def sb_list_def)

lemma ComputeTxRoot_wire [simp]: "ComputeTxRoot E (map wire_form txs) = ComputeTxRoot E txs"
proof -
  have "map tx_ID (map wire_form txs) = map tx_ID txs" by (simp add: wire_form_def)
  then show ?thesis
    by (cases "txs = []") (simp_all only: ComputeTxRoot_def tx_root_text_concat list.map map_is_Nil_conv not_False_eq_True)
qed

lemma produced_wire_valid:
  assumes "ProduceBlock E I B em now cfg priv nd = (nd', Ok b)" "ed25519_ok E" "length priv = 64"
    and "bc_height (nd_bc nd) = (case bc_tip (nd_bc nd) of None \<Rightarrow> 0 | Some t \<Rightarrow> sb_Height t)"
    and "rel_option (\<lambda>t t'. sb_Header t = sb_Header t' \<and> sb_Hash t = sb_Hash t') (bc_tip (nd_bc nd)) tip'"
    and "\<forall>t. bc_tip (nd_bc nd) = Some t \<longrightarrow> hdr_Timestamp (sb_Header t) \<le> now"
    and "now \<le> now' + maxBlockTimeDrift" "in_int64 (now' + maxBlockTimeDrift)"
  shows "ValidateBlock E now' cfg tip' (wire_block (store_form False b)) = Ok ()"
proof (rule ProduceBlock_Ok [OF assms(1)])
  fix txs prev h s1 bc s2 b0 b1
  assume turn: "IsProposer E cfg priv nd = Some True"
    and link: "(prev, h) = (case bc_tip (nd_bc nd) of None \<Rightarrow> (GenesisHash, 1)
       | Some tip \<Rightarrow> (sb_Hash tip, wrap64 (sb_Height tip + 1)))"
    and b0: "b0 = NewBlock E (gen_ChainID (cfg_Genesis cfg)) h prev (Hex (Public E priv)) txs now"
    and b1: "b1 = b0\<lparr>blk_Header := (blk_Header b0)\<lparr>hdr_StateRoot := ComputeRoot E I s1\<rparr>\<rparr>" and b: "b = blk_Sign E priv b1"
  define b' where "b' = wire_block (store_form False b)"
  have hd: "sb_Header b' = blk_Header b1" "sb_Hash b' = blk_Hash b" "sb_Signature b' = blk_Signature b"
    using b by (simp_all add: b'_def store_form_def)
  have pub: "PubKeyFromHex (Hex (Public E priv)) = Inr (Public E priv)"
    using assms(2,3) by (simp add: ed25519_ok_def Public_def)
  have "h = wrap64 (bc_height (nd_bc nd) + 1)" using link assms(4) by (auto split: option.splits simp: wrap64_def)
  then have p: "proposer_at (cfg_Validators cfg) h = Some (Hex (Public E priv))" "cfg_Validators cfg \<noteq> []"
    using turn by (auto simp: IsProposer_def nd_chain_def split: if_splits)
  have v: "blk_Verify E (Public E priv) (b\<lparr>blk_Transactions := map wire_form (blk_Transactions b)\<rparr>) = Inr ()"
    using b Verify_Sign [OF assms(2,3)] by (simp add: blk_Verify_Inr ComputeHash_def)
  have "\<not> wrap64 (now' + maxBlockTimeDrift) < now" using assms(7,8) by (simp add: wrap64_id)
  then have "validate_link now' (blk_Header b1) tip' = Ok ()"
    using link b0 b1 assms(5,6)
    by (cases "bc_tip (nd_bc nd)"; cases tip') (auto simp: validate_link_def NewBlock_def IsGenesisHash_def)
  then have "ValidateBlock E now' cfg tip' b' = Ok ()"
    unfolding ValidateBlock_Ok hd(1)
    using p pub v b0 b1 b block_of_wire [of b] by (simp add: b'_def NewBlock_def)
  then show ?thesis by (simp add: b'_def)
qed

text \<open>
  C10. What one validator produces, the others accept: a block produced on some tip, sent as JSON and
  decoded, passes the validation of every node with the same configuration and a tip with the same header
  and hash, when the clocks differ by at most the allowed drift and the producer's clock is not before the tip.
\<close>

theorem produced_block_valid:
  assumes "ProduceBlock E I B em now cfg priv nd = (nd', Ok b)" "ed25519_ok E" "length priv = 64"
    and "bc_height (nd_bc nd) = (case bc_tip (nd_bc nd) of None \<Rightarrow> 0 | Some t \<Rightarrow> sb_Height t)"
    and "stored_ok (store_form False b)"
    and "rel_option (\<lambda>t t'. sb_Header t = sb_Header t' \<and> sb_Hash t = sb_Hash t') (bc_tip (nd_bc nd)) tip'"
    and "\<forall>t. bc_tip (nd_bc nd) = Some t \<longrightarrow> hdr_Timestamp (sb_Header t) \<le> now"
    and "now \<le> now' + maxBlockTimeDrift" "in_int64 (now' + maxBlockTimeDrift)"
  shows "\<exists>b'. unmarshal dec_block (marshal enc_block (store_form False b)) = Inr b' \<and>
    ValidateBlock E now' cfg tip' b' = Ok ()"
  using unmarshal_block [OF assms(5)] produced_wire_valid [OF assms(1-4,6-)] by blast

definition sample_node :: "mem_store node" where
  "sample_node = \<lparr>nd_state = sample_state, nd_bc = NewBlockchain fmempty, nd_pool = sample_pool\<rparr>"

definition first_block :: "bytes \<Rightarrow> transaction list \<Rightarrow> block" where
  "first_block key txs = NewBlock sample_env ''tolchain'' 1 GenesisHash (Hex (Public sample_env key)) txs 10"

lemma emit_New [simp]: "emit_event (Some NewEmitter) ev s = s"
  by (simp add: emit_event_def Emit_def)

lemma first_run:
  "\<exists>s'. ExecuteBlock sample_env mem (Some NewEmitter) (first_block alice_key [pay_bob]) sample_state = (s', Inr ())"
proof -
  have b: "hdr_Proposer (blk_Header (first_block alice_key txs)) = alice" "blk_Transactions (first_block k txs) = txs"
    for k txs
    by (simp_all add: first_block_def NewBlock_def)
  obtain s' where "applyTx sample_env mem (Some NewEmitter) (first_block alice_key [pay_bob]) pay_bob
      (fst (Snapshot sample_state)) = (s', Inr ())"
    by (simp add: applyTx_def charge_fee_def handleTransfer_def max_uint64_def ctx_emit_def pay_bob_def b)
  then show ?thesis
    by (cases "Snapshot sample_state") (simp add: ExecuteBlock_def b ExecuteTx_def)
qed

lemma produce_on_memory:
  assumes "IsProposer E cfg priv nd = Some True" "bc_tip (nd_bc nd) = None"
    and "pool_Pending (if cfg_MaxBlockTxs cfg \<le> 0 then 500 else cfg_MaxBlockTxs cfg) (nd_pool nd) = Some txs"
    and "ExecuteBlock E (MemDB F) (Some em)
      (NewBlock E (gen_ChainID (cfg_Genesis cfg)) 1 GenesisHash (Hex (Public E priv)) txs now) (nd_state nd) = (s1, Inr ())"
  shows "\<exists>nd' b. ProduceBlock E (MemDB F) (LevelBlockStore (MemDB F)) em now cfg priv nd = (nd', Ok b) \<and>
    blk_Transactions b = txs \<and> blk_Hash b = ComputeHash E b \<and>
    blk_Signature b = Sign E priv (ComputeHash E b) \<and>
    blk_Header b = \<lparr>hdr_ChainID = gen_ChainID (cfg_Genesis cfg), hdr_Height = 1, hdr_PrevHash = GenesisHash,
      hdr_StateRoot = ComputeRoot E (MemDB F) s1, hdr_TxRoot = ComputeTxRoot E txs, hdr_Timestamp = now,
      hdr_Proposer = Hex (Public E priv)\<rparr>"
proof -
  have add: "\<exists>bc. bc_AddBlock (LevelBlockStore (MemDB F)) b ((nd_bc nd)\<lparr>bc_store := d\<rparr>) = (bc, Inr ())" for b d
    using assms(2) by (simp add: bc_AddBlock_def LevelBlockStore_def lbs_CommitBlock_def MemDB_def)
  let ?b = "blk_Sign E priv ((NewBlock E (gen_ChainID (cfg_Genesis cfg)) 1 GenesisHash (Hex (Public E priv)) txs now)
    \<lparr>blk_Header := (blk_Header (NewBlock E (gen_ChainID (cfg_Genesis cfg)) 1 GenesisHash (Hex (Public E priv)) txs now))
      \<lparr>hdr_StateRoot := ComputeRoot E (MemDB F) s1\<rparr>\<rparr>)"
  obtain bc where bc: "bc_AddBlock (LevelBlockStore (MemDB F)) (store_form False ?b) ((nd_bc nd)\<lparr>bc_store := sdb_db s1\<rparr>) =
      (bc, Inr ())"
    using add by blast
  obtain s2 where s2: "Commit E (MemDB F) (s1\<lparr>sdb_db := bc_store bc\<rparr>) = (s2, Inr ())" using mem_Commit by blast
  have "\<exists>nd'. ProduceBlock E (MemDB F) (LevelBlockStore (MemDB F)) em now cfg priv nd = (nd', Ok ?b)"
    using assms bc s2 by (simp add: ProduceBlock_def Let_def nd_chain_def nd_set_chain_def)
  moreover have "blk_Header ?b = \<lparr>hdr_ChainID = gen_ChainID (cfg_Genesis cfg), hdr_Height = 1, hdr_PrevHash = GenesisHash,
      hdr_StateRoot = ComputeRoot E (MemDB F) s1, hdr_TxRoot = ComputeTxRoot E txs, hdr_Timestamp = now,
      hdr_Proposer = Hex (Public E priv)\<rparr>" "blk_Transactions ?b = txs"
    by (simp_all add: NewBlock_def)
  ultimately show ?thesis by (metis blk_Sign_simps(3,4,5))
qed

lemma sample_produce:
  obtains nd' b where
    "ProduceBlock sample_env mem (LevelBlockStore mem) NewEmitter 10 sample_config alice_key sample_node = (nd', Ok b)"
    "stored_ok (store_form False b)"
proof -
  obtain s1 where s1: "ExecuteBlock sample_env mem (Some NewEmitter) (first_block alice_key [pay_bob]) sample_state = (s1, Inr ())"
    using first_run by blast
  have c: "cfg_MaxBlockTxs sample_config = 500" "gen_ChainID (cfg_Genesis sample_config) = ''tolchain''"
    "cfg_Validators sample_config = [bob, alice]"
    by (simp_all add: sample_config_def DefaultConfig_def)
  have "IsProposer sample_env sample_config alice_key sample_node = Some True"
    by (simp add: IsProposer_def c sample_node_def nd_chain_def NewBlockchain_def proposer_at_def go_rem_def wrap64_def)
  moreover have "pool_Pending 500 (nd_pool sample_node) = Some [pay_bob]"
    using pool_Pending_take [OF sample_pool_ok(1), of 500] by (simp add: sample_node_def)
  ultimately obtain nd' b where
    p: "ProduceBlock sample_env mem (LevelBlockStore mem) NewEmitter 10 sample_config alice_key sample_node = (nd', Ok b)"
    "blk_Transactions b = [pay_bob]" "blk_Hash b = ComputeHash sample_env b"
    "blk_Signature b = Sign sample_env alice_key (ComputeHash sample_env b)"
    "blk_Header b = \<lparr>hdr_ChainID = ''tolchain'', hdr_Height = 1, hdr_PrevHash = GenesisHash,
      hdr_StateRoot = ComputeRoot sample_env mem s1, hdr_TxRoot = ComputeTxRoot sample_env [pay_bob], hdr_Timestamp = 10,
      hdr_Proposer = alice\<rparr>"
    using produce_on_memory [of sample_env sample_config alice_key sample_node "[pay_bob]" sample_env NewEmitter 10 s1] s1
    by (auto simp: sample_node_def NewBlockchain_def c first_block_def)
  have "jdepth (enc_raw (tx_Payload pay_bob)) = 1"
    by (simp add: pay_bob_def enc_raw_def transfer_payload_json_def enc_string_def enc_uint64_def)
  then have "stored_ok (store_form False b)"
    using p(2-5) by (simp add: stored_ok_def store_form_def sb_list_def max_nesting_def header_ok_def in_int64_def
        ComputeHash_def ComputeRoot_def ComputeTxRoot_def Sign_def GenesisHash_def utf8_ok_ascii_all utf8_ok_hex hex_encode_hex)
  with p(1) that show thesis by blast
qed

theorem produced_block_valid_witness:
  "\<exists>nd' b b'. ProduceBlock sample_env mem (LevelBlockStore mem) NewEmitter 10 sample_config alice_key sample_node =
     (nd', Ok b) \<and> unmarshal dec_block (marshal enc_block (store_form False b)) = Inr b' \<and>
     ValidateBlock sample_env 12 sample_config None b' = Ok ()"
proof -
  obtain nd' b where
    p: "ProduceBlock sample_env mem (LevelBlockStore mem) NewEmitter 10 sample_config alice_key sample_node = (nd', Ok b)"
    "stored_ok (store_form False b)"
    by (rule sample_produce)
  have "bc_tip (nd_bc sample_node) = None" "bc_height (nd_bc sample_node) = 0"
    by (simp_all add: sample_node_def NewBlockchain_def)
  then show ?thesis
    using produced_block_valid [OF p(1) sample_ed25519_ok key_length(1) _ p(2), of None 12] p(1)
    by (auto simp: maxBlockTimeDrift_def in_int64_def)
qed

end
