(* ===== verification/JsonHtml.thy ===== *)
theory JsonHtml
  imports Transaction
begin

text \<open>
  Marshalling a raw message escapes the characters that matter in HTML. A decoder cannot tell: it reads the
  same value from the escaped document. So a payload means the same before and after it was sent.
\<close>

section \<open>Literals\<close>

lemma raw_ok_unit:
  assumes "raw_ok r" "r \<noteq> []"
  obtains (plain) c s where "r = c # s" "c \<noteq> bslash" "raw_ok s"
  | (escape) d s where "r = bslash # d # s" "d \<in> set (dquote # bslash # ''/bfnrt'')" "raw_ok s"
  | (unicode) h1 h2 h3 h4 s where "r = bslash # CHR ''u'' # h1 # h2 # h3 # h4 # s"
      "is_hex h1" "is_hex h2" "is_hex h3" "is_hex h4" "raw_ok s"
  using assms(1) [unfolded raw_ok_def] assms(2)
proof (cases rule: scan_str_unit)
  case (plain c s)
  then show ?thesis by (intro that(1)) (simp_all add: raw_ok_def)
next
  case (escape d s)
  then show ?thesis by (intro that(2)) (simp_all only: raw_ok_def)
next
  case (unicode h1 h2 h3 h4 s)
  then show ?thesis by (intro that(3) [of h1 h2 h3 h4 s]) (simp_all only: raw_ok_def)
qed

lemma is_cont_html: "is_cont d \<Longrightarrow> html_raw (d # s) = d # html_raw s"
  by (cases d s rule: html_raw_cases) (auto simp: is_cont_def)

lemma html_not_cont:
  assumes "\<not> is_cont d"
  obtains x t where "html_raw (d # s) = x # t" "\<not> is_cont x"
proof -
  have "\<not> is_cont bslash" by (simp add: is_cont_def)
  then show ?thesis
    using assms that by (cases d s rule: html_raw_cases) (auto simp: esc_u_def)
qed

lemma second_ok_cont: "second_ok b d \<Longrightarrow> is_cont d"
  by (auto simp: second_ok_def is_cont_def split: if_splits)

text \<open>How many bytes of a rune follow does not change.\<close>

definition conts :: "nat \<Rightarrow> bytes \<Rightarrow> bool" where
  "conts n s \<longleftrightarrow> n \<le> length s \<and> (\<forall>d\<in>set (take n s). is_cont d)"

lemma conts_simps [simp]: "conts 0 s" "\<not> conts (Suc n) []" "conts (Suc n) (d # s) \<longleftrightarrow> is_cont d \<and> conts n s"
  by (auto simp: conts_def)

lemma conts_html: "conts n (html_raw s) = conts n s"
  and take_conts_html: "conts n s \<Longrightarrow> take n (html_raw s) = take n s \<and> drop n (html_raw s) = html_raw (drop n s)"
proof (induction n arbitrary: s)
  case (Suc n)
  {
    case 1
    show ?case
    proof (cases s)
      case (Cons d t)
      show ?thesis
      proof (cases "is_cont d")
        case False
        then obtain x u where "html_raw (d # t) = x # u" "\<not> is_cont x" by (rule html_not_cont)
        then show ?thesis using Cons False by simp
      qed (use Suc Cons in \<open>simp add: is_cont_html\<close>)
    qed simp
  next
    case 2
    then show ?case using Suc by (cases s) (simp_all add: is_cont_html)
  }
qed simp_all

lemma rune_len_conts:
  assumes "\<not> byte_of c < 128"
  shows "rune_len (c # s) = 0 \<or> (\<exists>n. rune_len (c # s) = Suc n \<and> conts n s)"
  using assms by (auto simp: rune_len.simps(2) Let_def split: list.splits)
    (auto simp: numeral_2_eq_2 numeral_3_eq_3 dest: second_ok_cont)

lemma rune_len_cong:
  assumes "\<And>n. conts n s = conts n t" "\<And>n. conts n s \<Longrightarrow> take n s = take n t"
  shows "rune_len (c # s) = rune_len (c # t)"
proof -
  have hd: "conts n s \<Longrightarrow> 0 < n \<Longrightarrow> hd s = hd t" for n using assms(2) [of n] by (metis hd_take)
  have iff: "conts 1 s = conts 1 t" "conts 2 s = conts 2 t" "conts 3 s = conts 3 t" using assms(1) by blast+
  have one: "(case u of d # _ \<Rightarrow> if is_cont d then 2 else 0 | [] \<Rightarrow> 0) = (if conts 1 u then 2 else 0 :: nat)" for u
    by (cases u) simp_all
  have two: "(case u of d # e # _ \<Rightarrow> if second_ok b d \<and> is_cont e then 3 else 0 | _ \<Rightarrow> 0) =
      (if conts 2 u \<and> second_ok b (hd u) then 3 else 0 :: nat)" for b u
    using second_ok_cont by (auto simp: numeral_2_eq_2 split: list.split)
  have three: "(case u of d # e # f # _ \<Rightarrow> if second_ok b d \<and> is_cont e \<and> is_cont f then 4 else 0 | _ \<Rightarrow> 0) =
      (if conts 3 u \<and> second_ok b (hd u) then 4 else 0 :: nat)" for b u
    using second_ok_cont by (auto simp: numeral_3_eq_3 split: list.split)
  show ?thesis unfolding rune_len.simps(2) one two three using iff hd [of 2] hd [of 3] by (simp add: Let_def) metis
qed

lemma rune_len_html: "rune_len (c # html_raw s) = rune_len (c # s)"
  by (rule rune_len_cong) (simp_all add: conts_html take_conts_html)

lemma raw_ok_conts: "raw_ok s \<Longrightarrow> conts n s \<Longrightarrow> raw_ok (drop n s)"
proof (induction n arbitrary: s)
  case (Suc n)
  then obtain d t where s: "s = d # t" "is_cont d" "conts n t" by (cases s) auto
  have "d \<noteq> bslash" using s(2) by (auto simp: is_cont_def)
  then have "raw_ok t" using raw_ok_unit [OF Suc.prems(1)] s(1) by blast
  then show ?case using Suc.IH s by simp
qed simp

lemma getu4_html:
  assumes "raw_ok s"
  shows "Option.bind (getu4 (html_raw s)) (surrogate_pair r) = Option.bind (getu4 s) (surrogate_pair r)"
proof (cases "s = []")
  case False
  from assms False show ?thesis
  proof (cases rule: raw_ok_unit)
    case (plain c t)
    have n: "getu4 (c # u) = None" for u using plain(2) by (cases "c # u" rule: getu4.cases) auto
    show ?thesis
    proof (cases c t rule: html_raw_cases)
      case lt
      then have "byte_of c < (65536 :: nat)" "(byte_of c :: nat) < 55296" by auto
      then show ?thesis using lt(2) plain(1) n by (simp add: getu4_esc_u surrogate_pair_def)
    next
      case (sep q u)
      then show ?thesis using plain(1) n by (auto simp: getu4_esc_u surrogate_pair_def)
    next
      case copy
      then show ?thesis using plain(1) n by simp
    qed
  next
    case (escape d t)
    have "getu4 (bslash # d # u) = None" for u
      using escape(2) by (cases "bslash # d # u" rule: getu4.cases) auto
    then show ?thesis using escape(1,2) by (simp add: html_raw_escape del: set_simps)
  next
    case (unicode h1 h2 h3 h4 t)
    then show ?thesis by (simp add: html_raw_ascii)
  qed
qed simp

lemma getu4_rest:
  assumes "raw_ok s" "Option.bind (getu4 s) (surrogate_pair r) = Some q"
  shows "drop 6 (html_raw s) = html_raw (drop 6 s)" "raw_ok (drop 6 s)" "6 \<le> length s"
proof -
  have "s \<noteq> []" using assms(2) by auto
  from assms(1) this have "drop 6 (html_raw s) = html_raw (drop 6 s) \<and> raw_ok (drop 6 s) \<and> 6 \<le> length s"
  proof (cases rule: raw_ok_unit)
    case (plain c t)
    then show ?thesis using assms(2) by (cases "c # t" rule: getu4.cases) (auto split: if_splits)
  next
    case (escape d t)
    then show ?thesis using assms(2) by (cases "bslash # d # t" rule: getu4.cases) (auto split: if_splits)
  next
    case (unicode h1 h2 h3 h4 t)
    then show ?thesis by (simp add: html_raw_ascii)
  qed
  then show "drop 6 (html_raw s) = html_raw (drop 6 s)" "raw_ok (drop 6 s)" "6 \<le> length s" by blast+
qed

lemma enc_rune_html:
  "c \<in> set ''<>&'' \<Longrightarrow> enc_rune (byte_of c) = [c]"
  "enc_rune 8232 = [CHR 0xE2, CHR 0x80, CHR 0xA8]" "enc_rune 8233 = [CHR 0xE2, CHR 0x80, CHR 0xA9]"
  by (auto simp: enc_rune_def char_of_eq)

lemma is_rune_sep: "is_rune [CHR 0xE2, CHR 0x80, CHR 0xA8]" "is_rune [CHR 0xE2, CHR 0x80, CHR 0xA9]"
  by (simp_all add: is_rune_def rune_len.simps(2) second_ok_def is_cont_def)

lemma unquote_high:
  assumes "\<not> byte_of c < 128"
  shows "unquote_go (c # s) = (if rune_len (c # s) = 0 then rune_error @ unquote_go s
    else take (rune_len (c # s)) (c # s) @ unquote_go (drop (rune_len (c # s)) (c # s)))"
  using assms by (subst unquote_go.simps) (auto split: if_splits)

lemma unquote_surrogate:
  assumes "is_hex h1" "is_hex h2" "is_hex h3" "is_hex h4"
  shows "unquote_go (bslash # CHR ''u'' # h1 # h2 # h3 # h4 # s) =
    (if is_surrogate (hex4 h1 h2 h3 h4) then
       (case Option.bind (getu4 s) (surrogate_pair (hex4 h1 h2 h3 h4)) of
          Some r \<Rightarrow> enc_rune r @ unquote_go (drop 6 s) | None \<Rightarrow> rune_error @ unquote_go s)
     else enc_rune (hex4 h1 h2 h3 h4) @ unquote_go s)"
  using assms by (subst unquote_go.simps) (auto split: option.splits)

lemma unquote_html: "raw_ok r \<Longrightarrow> unquote_go (html_raw r) = unquote_go r"
proof (induction r rule: length_induct)
  case (1 r)
  have IH: "length s < length r \<Longrightarrow> raw_ok s \<Longrightarrow> unquote_go (html_raw s) = unquote_go s" for s using 1(1) by simp
  show ?case
  proof (cases "r = []")
    case False
    from 1(2) False show ?thesis
    proof (cases rule: raw_ok_unit)
      case (plain c s)
      show ?thesis
      proof (cases c s rule: html_raw_cases)
        case lt
        then have b: "byte_of c < (65536 :: nat)" "\<not> is_surrogate (byte_of c)" "(byte_of c :: nat) < 128"
          by (auto simp: is_surrogate_def)
        then show ?thesis
          using lt plain IH [of s] by (simp add: unquote_esc_u enc_rune_html unquote_ascii del: set_simps)
      next
        case (sep q t)
        then have "raw_ok t"
          using plain(3) raw_ok_conts [of s 2] by (auto simp: numeral_2_eq_2 is_cont_def split: if_splits)
        then have t: "unquote_go (html_raw t) = unquote_go t" using IH [of t] plain(1) sep(2) by simp
        have "\<not> is_surrogate q" "q < 65536" using sep(1) by (auto simp: is_surrogate_def)
        then have "unquote_go (html_raw r) = enc_rune q @ unquote_go t" using sep(4) plain(1) t by (simp add: unquote_esc_u)
        moreover have "unquote_go r = enc_rune q @ unquote_go t"
          using sep plain(1) unquote_rune [OF is_rune_sep(1), of _ _ t] unquote_rune [OF is_rune_sep(2), of _ _ t]
          by (auto simp: enc_rune_html)
        ultimately show ?thesis by simp
      next
        case copy
        show ?thesis
        proof (cases "byte_of c < (128 :: nat)")
          case True
          then show ?thesis using copy(3) plain IH [of s] by (simp add: unquote_ascii)
        next
          case high: False
          from rune_len_conts [OF high, of s] show ?thesis
          proof (elim disjE exE conjE)
            fix n
            assume n: "rune_len (c # s) = Suc n" "conts n s"
            then show ?thesis
              using copy(3) plain IH [of "drop n s"] raw_ok_conts [OF plain(3) n(2)] take_conts_html [OF n(2)]
              by (simp add: unquote_high [OF high] rune_len_html)
          qed (use copy(3) plain IH [of s] in \<open>simp add: unquote_high [OF high] rune_len_html\<close>)
        qed
      qed
    next
      case (escape d s)
      moreover have "is_escape d" using escape(2) by (auto simp: is_escape_def)
      ultimately show ?thesis using IH [of s] by (simp add: html_raw_escape unquote_esc del: set_simps)
    next
      case (unicode h1 h2 h3 h4 s)
      have "html_raw r = bslash # CHR ''u'' # h1 # h2 # h3 # h4 # html_raw s"
        using unicode by (simp add: html_raw_ascii)
      moreover have "drop 6 (html_raw s) = html_raw (drop 6 s) \<and> unquote_go (html_raw (drop 6 s)) = unquote_go (drop 6 s)"
        if "Option.bind (getu4 s) (surrogate_pair (hex4 h1 h2 h3 h4)) = Some q" for q
        using getu4_rest [OF unicode(6) that] IH [of "drop 6 s"] unicode(1) by simp
      ultimately show ?thesis
        using unicode IH [of s] getu4_html [OF unicode(6)]
        by (simp add: unquote_surrogate split: option.split)
    qed
  qed simp
qed

section \<open>Decoders\<close>

named_theorems html_dec \<open>a decoder reads the same value from an escaped document\<close>

lemma html_null [simp]: "html_json j = JNull \<longleftrightarrow> j = JNull"
  by (cases j) simp_all

lemma dec_scalar_html [html_dec]:
  "json_ok j \<Longrightarrow> dec_string old (html_json j) = dec_string old j" "dec_bool b (html_json j) = dec_bool b j"
  "dec_uint64 w (html_json j) = dec_uint64 w j" "dec_int64 i (html_json j) = dec_int64 i j"
  by (cases j; simp add: dec_string_def dec_bool_def dec_uint64_def dec_int64_def unquote_html)+

lemma dec_strings_html [html_dec]:
  assumes "json_ok j"
  shows "dec_strings old (html_json j) = dec_strings old j"
proof (cases j)
  case (JArr vs)
  have "dec_str_elems o1 (html_elems us) = dec_str_elems o1 us" if "elems_ok us" for o1 us
    using that by (induction us arbitrary: o1) (simp_all add: html_dec)
  then show ?thesis using assms JArr by (simp add: dec_strings_def)
qed (simp_all add: dec_strings_def)

lemma dec_u64_map_html [html_dec]:
  assumes "json_ok j"
  shows "dec_u64_map old (html_json j) = dec_u64_map old j"
proof (cases j)
  case (JObj ms)
  have "dec_u64_members (html_members us) m = dec_u64_members us m" if "members_ok us" for us m
    using that by (induction us arbitrary: m) (simp_all add: html_dec unquote_html)
  then show ?thesis using assms JObj by (simp add: dec_u64_map_def)
qed (simp_all add: dec_u64_map_def)

lemma dec_any_html [html_dec]:
  "json_ok j \<Longrightarrow> dec_any fn (html_json j) = dec_any fn j"
  "elems_ok vs \<Longrightarrow> dec_any_elems fn (html_elems vs) = dec_any_elems fn vs"
  "members_ok ms \<Longrightarrow> dec_any_members fn (html_members ms) acc = dec_any_members fn ms acc"
  by (induction j and vs and ms arbitrary: and and acc rule: html_json_html_elems_html_members.induct)
    (simp_all add: unquote_html)

lemma dec_anymap_html [html_dec]: "json_ok j \<Longrightarrow> dec_anymap fn old (html_json j) = dec_anymap fn old j"
  by (cases j) (simp_all add: dec_anymap_def html_dec)

lemma decode_struct_html:
  assumes "json_ok j" "\<And>k v x. json_ok v \<Longrightarrow> f k (html_json v) x = f k v x"
  shows "decode_struct names f old (html_json j) = decode_struct names f old j"
proof (cases j)
  case (JObj ms)
  have "decode_fields names f (html_members us) a = decode_fields names f us a" if "members_ok us" for us a
    using that
  proof (induction us arbitrary: a)
    case (Cons u us)
    then have "decode_fields names f (html_members us) = decode_fields names f us" by (simp add: fun_eq_iff)
    then show ?case using Cons.prems assms(2) by (simp add: unquote_html split: option.split)
  qed simp
  then show ?thesis using assms(1) JObj by (simp add: decode_struct_def)
qed (simp_all add: decode_struct_def)

lemmas payload_field_defs = transfer_field_def mint_field_def burn_field_def transfer_asset_field_def register_field_def
  session_open_field_def session_result_field_def list_field_def buy_field_def

lemma dec_payload_html [html_dec]:
  assumes "json_ok j"
  shows "dec_transfer (html_json j) = dec_transfer j" "dec_mint fn (html_json j) = dec_mint fn j"
    "dec_burn (html_json j) = dec_burn j" "dec_transfer_asset (html_json j) = dec_transfer_asset j"
    "dec_register fn (html_json j) = dec_register fn j" "dec_session_open (html_json j) = dec_session_open j"
    "dec_session_result (html_json j) = dec_session_result j" "dec_list_market (html_json j) = dec_list_market j"
    "dec_buy_market (html_json j) = dec_buy_market j"
  using assms
  by (simp_all add: dec_transfer_def dec_mint_def dec_burn_def dec_transfer_asset_def dec_register_def dec_session_open_def
      dec_session_result_def dec_list_market_def dec_buy_market_def decode_struct_html payload_field_defs html_dec)

text \<open>A payload that is not nil decodes to the same value after it was sent.\<close>

lemma unmarshal_wire:
  assumes "pred_option raw_valid p" "p \<noteq> None" "\<And>j. json_ok j \<Longrightarrow> dec (html_json j) = dec j"
  shows "unmarshal_raw dec (Some (enc_raw p)) = unmarshal_raw dec p"
  using assms raw_valid_html by (auto simp: unmarshal_raw_def enc_raw_def raw_valid_def split: option.split)

end
