(* ===== verification/IndexFacts.thy ===== *)
theory IndexFacts
  imports Indexer
begin

text \<open>
  What the index says. A transaction changes the owner lists and the asset table together in one of six
  ways; all but the purchase keep them in agreement, and no transaction changes a session list.
\<close>

section \<open>The events the indexer hears\<close>

definition the_indexer :: "'d db_iface \<Rightarrow> 'd emitter" where
  "the_indexer I = NewIndexer I NewEmitter"

lemma event_types_distinct [simp]:
  "EventAssetMinted \<noteq> EventAssetTransfer" "EventAssetMinted \<noteq> EventAssetBurned" "EventAssetMinted \<noteq> EventSessionOpen"
  "EventAssetTransfer \<noteq> EventAssetMinted" "EventAssetTransfer \<noteq> EventAssetBurned" "EventAssetTransfer \<noteq> EventSessionOpen"
  "EventAssetBurned \<noteq> EventAssetMinted" "EventAssetBurned \<noteq> EventAssetTransfer" "EventAssetBurned \<noteq> EventSessionOpen"
  "EventSessionOpen \<noteq> EventAssetMinted" "EventSessionOpen \<noteq> EventAssetTransfer" "EventSessionOpen \<noteq> EventAssetBurned"
  by (simp_all add: event_type_defs)

lemma Emit_the_indexer:
  "Emit (the_indexer I) ev d =
     (if ev_Type ev = EventAssetMinted then fst (onAssetMinted I ev d)
      else if ev_Type ev = EventAssetTransfer then fst (onAssetTransferred I ev d)
      else if ev_Type ev = EventAssetBurned then fst (onAssetBurned I ev d)
      else if ev_Type ev = EventSessionOpen then fst (onSessionOpen I ev d) else d)"
  by (simp add: Emit_def the_indexer_def NewIndexer_def)

text \<open>The other events leave the database alone, and so does an opened session, whose players are a \<open>[]string\<close>.\<close>

lemma ctx_emit_db:
  assumes "ctx_Emitter ctx = Some (the_indexer I)"
  shows "sdb_db (ctx_emit ctx t dat s) = Emit (the_indexer I)
    \<lparr>ev_Type = t, ev_TxID = tx_ID (ctx_Tx ctx), ev_BlockHeight = hdr_Height (blk_Header (ctx_Block ctx)), ev_Data = dat\<rparr>
    (sdb_db s)"
  using assms by (simp add: ctx_emit_def emit_event_def)

lemma quiet_events [simp]:
  assumes "ctx_Emitter ctx = Some (the_indexer I)"
  shows "sdb_db (ctx_emit ctx EventTokenTransfer dat s) = sdb_db s" "sdb_db (ctx_emit ctx EventTemplateReg dat s) = sdb_db s"
    "sdb_db (ctx_emit ctx EventSessionClose dat s) = sdb_db s" "sdb_db (ctx_emit ctx EventMarketList dat s) = sdb_db s"
    "sdb_db (ctx_emit ctx EventMarketBuy dat s) = sdb_db s"
    "sdb_db (ctx_emit ctx EventSessionOpen [(''session_id'', x), (''game_id'', y), (''players'', DStrs ps)] s) = sdb_db s"
  using assms
  by (simp_all add: ctx_emit_db Emit_the_indexer onSessionOpen_def data_anys_def Let_def) (simp_all add: event_type_defs)

section \<open>What a transaction does to assets and lists\<close>

inductive index_effect ::
  "env \<Rightarrow> 'd db_iface \<Rightarrow> transaction \<Rightarrow> (bytes \<Rightarrow> listing result) \<Rightarrow> (bytes \<Rightarrow> asset result) \<Rightarrow> 'd \<Rightarrow>
   (bytes \<Rightarrow> asset result) \<Rightarrow> 'd \<Rightarrow> bool"
  for E I tx fl fa d where
  eff_none: "tx_Type tx \<noteq> TxBuyMarket \<Longrightarrow> index_effect E I tx fl fa d fa d"
| eff_mint: "tx_Type tx = TxMintAsset \<Longrightarrow> unmarshal_raw (dec_mint (float_norm E)) (tx_Payload tx) = Inr p \<Longrightarrow>
    j = asset_id E tx (mp_TemplateID p) \<Longrightarrow> ast_Owner a = b \<Longrightarrow> utf8_ok b \<Longrightarrow>
    index_effect E I tx fl fa d (fa(j := Inr a)) (fst (idx_addToList I (prefixOwnerAssets @ b) j d))"
| eff_burn: "tx_Type tx \<noteq> TxBuyMarket \<Longrightarrow> fa j = Inr a \<Longrightarrow> ast_Owner a = tx_From tx \<Longrightarrow>
    index_effect E I tx fl fa d (fa(j := Inl ErrNotFound))
      (fst (idx_removeFromList I (prefixOwnerAssets @ tx_From tx) j d))"
| eff_transfer: "tx_Type tx \<noteq> TxBuyMarket \<Longrightarrow> fa j = Inr a \<Longrightarrow> ast_Owner a = tx_From tx \<Longrightarrow> utf8_ok b \<Longrightarrow> utf8_ok j \<Longrightarrow>
    index_effect E I tx fl fa d (fa(j := Inr (a\<lparr>ast_Owner := b\<rparr>)))
      (fst (idx_addToList I (prefixOwnerAssets @ b) j (fst (idx_removeFromList I (prefixOwnerAssets @ tx_From tx) j d))))"
| eff_list: "tx_Type tx \<noteq> TxBuyMarket \<Longrightarrow> fa j = Inr a \<Longrightarrow> ast_Owner a' = ast_Owner a \<Longrightarrow>
    index_effect E I tx fl fa d (fa(j := Inr a')) d"
| eff_buy: "tx_Type tx = TxBuyMarket \<Longrightarrow> unmarshal_raw dec_buy_market (tx_Payload tx) = Inr p \<Longrightarrow>
    fl (up_ListingID p) = Inr l \<Longrightarrow> lst_Active l \<Longrightarrow> lst_Seller l \<noteq> tx_From tx \<Longrightarrow> j = lst_AssetID l \<Longrightarrow>
    fa j = Inr a \<Longrightarrow> ast_Owner a' = tx_From tx \<Longrightarrow> index_effect E I tx fl fa d (fa(j := Inr a')) d"

lemma not_a_purchase [simp]:
  "TxTransfer \<noteq> TxBuyMarket" "TxMintAsset \<noteq> TxBuyMarket" "TxBurnAsset \<noteq> TxBuyMarket" "TxTransferAsset \<noteq> TxBuyMarket"
  "TxRegisterTemplate \<noteq> TxBuyMarket" "TxSessionOpen \<noteq> TxBuyMarket" "TxSessionResult \<noteq> TxBuyMarket"
  "TxListMarket \<noteq> TxBuyMarket"
  by (simp_all add: tx_type_defs)

text \<open>A key that parses is not empty, and IDs are digests.\<close>

lemma PubKeyFromHex_nonempty: "PubKeyFromHex [] \<noteq> Inr x"
  by (simp add: PubKeyFromHex_def public_key_size_def)

lemma asset_id_nonempty: "hash_nonempty E \<Longrightarrow> asset_id E tx t \<noteq> []"
  unfolding asset_id_def by (rule Hash_nonempty) simp_all

lemma mint_effect:
  assumes "ctx_ok ctx" "ctx_Emitter ctx = Some (the_indexer (ctx_DB ctx))" "hash_nonempty (ctx_Env ctx)"
    and "tx_From (ctx_Tx ctx) \<noteq> []" "tx_Type (ctx_Tx ctx) = TxMintAsset"
    and "handleMintAsset ctx (tx_Payload (ctx_Tx ctx)) s = (s', Inr u)"
  shows "index_effect (ctx_Env ctx) (ctx_DB ctx) (ctx_Tx ctx) fl (GetAsset (ctx_Env ctx) (ctx_DB ctx) s) (sdb_db s)
    (GetAsset (ctx_Env ctx) (ctx_DB ctx) s') (sdb_db s')"
  using assms(6)
proof (cases rule: handleMintAsset_ok)
  case (1 p tmpl owner)
  obtain j where "raw_valid j" "dec_mint (float_norm (ctx_Env ctx)) j = Inr p"
    using 1(1) by (auto simp: unmarshal_raw_Inr)
  then have p: "utf8_ok (mp_TemplateID p)" "utf8_ok (mp_Owner p)" "anymap_valid (float_norm (ctx_Env ctx)) (mp_Properties p)"
    using dec_mint_valid [OF ctx_okD(1) [OF assms(1)]] by blast+
  have o: "utf8_ok owner" "owner \<noteq> []"
    using p(2) 1(4,5) ctx_okD(3) [OF assms(1)] assms(4) by simp_all
  define x where "x = \<lparr>ast_ID = asset_id (ctx_Env ctx) (ctx_Tx ctx) (mp_TemplateID p),
    ast_TemplateID = mp_TemplateID p, ast_Owner = owner, ast_Properties = mp_Properties p,
    ast_Tradeable = tpl_Tradeable tmpl, ast_MintedAt = hdr_Timestamp (blk_Header (ctx_Block ctx)),
    ast_ActiveListingID = []\<rparr>"
  have "asset_ok (float_norm (ctx_Env ctx)) x"
    using p o ctx_okD(4) [OF assms(1)] by (simp add: x_def asset_ok_def asset_id_def anymap_valid_def)
  then have "GetAsset (ctx_Env ctx) (ctx_DB ctx) s' = (GetAsset (ctx_Env ctx) (ctx_DB ctx) s)(ast_ID x := Inr x)"
    using 1(6) [folded x_def] ctx_okD(2) [OF assms(1)] by (simp add: asset_fun)
  moreover have "sdb_db s' = fst (idx_addToList (ctx_DB ctx) (prefixOwnerAssets @ owner) (ast_ID x) (sdb_db s))"
    using 1(6) o(2) asset_id_nonempty [OF assms(3)]
    by (simp add: ctx_emit_db [OF assms(2)] Emit_the_indexer onAssetMinted_def data_string_def Let_def x_def)
  ultimately show ?thesis
    using eff_mint [OF assms(5) 1(1) refl, of x owner] o(1) by (simp add: x_def)
qed

lemma burn_effect:
  assumes "ctx_ok ctx" "ctx_Emitter ctx = Some (the_indexer (ctx_DB ctx))" "tx_From (ctx_Tx ctx) \<noteq> []"
    and "\<not> is_ok (GetAsset (ctx_Env ctx) (ctx_DB ctx) s [])" "handleBurnAsset ctx q s = (s', Inr u)"
    and "tx_Type (ctx_Tx ctx) \<noteq> TxBuyMarket"
  shows "index_effect (ctx_Env ctx) (ctx_DB ctx) (ctx_Tx ctx) fl (GetAsset (ctx_Env ctx) (ctx_DB ctx) s) (sdb_db s)
    (GetAsset (ctx_Env ctx) (ctx_DB ctx) s') (sdb_db s')"
  using assms(5)
proof (cases rule: handleBurnAsset_ok)
  case (1 p a)
  have "bp_AssetID p \<noteq> []" using 1(2) assms(4) by auto
  then have "sdb_db s' = fst (idx_removeFromList (ctx_DB ctx) (prefixOwnerAssets @ tx_From (ctx_Tx ctx)) (bp_AssetID p) (sdb_db s))"
    using 1(3,5) assms(3)
    by (simp add: ctx_emit_db [OF assms(2)] Emit_the_indexer onAssetBurned_def data_string_def Let_def)
  then show ?thesis
    using 1(5) ctx_okD(2) [OF assms(1)] eff_burn [where fa = "GetAsset (ctx_Env ctx) (ctx_DB ctx) s", OF assms(6) 1(2,3)]
    by (simp add: asset_fun)
qed

lemma transfer_effect:
  assumes "ctx_ok ctx" "ctx_Emitter ctx = Some (the_indexer (ctx_DB ctx))" "tx_From (ctx_Tx ctx) \<noteq> []"
    and "\<not> is_ok (GetAsset (ctx_Env ctx) (ctx_DB ctx) s [])" "state_ok (ctx_Env ctx) (ctx_DB ctx) s"
    and "handleTransferAsset ctx q s = (s', Inr u)" "tx_Type (ctx_Tx ctx) \<noteq> TxBuyMarket"
  shows "index_effect (ctx_Env ctx) (ctx_DB ctx) (ctx_Tx ctx) fl (GetAsset (ctx_Env ctx) (ctx_DB ctx) s) (sdb_db s)
    (GetAsset (ctx_Env ctx) (ctx_DB ctx) s') (sdb_db s')"
  using assms(6)
proof (cases rule: handleTransferAsset_ok)
  case (1 p pk a)
  have a: "ast_ID a = ap_AssetID p" "asset_ok (float_norm (ctx_Env ctx)) a" using state_okD(2) [OF assms(5) 1(3)] by simp_all
  then have j: "utf8_ok (ap_AssetID p)" by (auto simp: asset_ok_def)
  have to: "utf8_ok (ap_To p)" "ap_To p \<noteq> []" using PubKeyFromHex_utf8 PubKeyFromHex_nonempty 1(2) by auto
  have "ap_AssetID p \<noteq> []" using 1(3) assms(4) by auto
  then have "sdb_db s' = fst (idx_addToList (ctx_DB ctx) (prefixOwnerAssets @ ap_To p) (ap_AssetID p)
      (fst (idx_removeFromList (ctx_DB ctx) (prefixOwnerAssets @ tx_From (ctx_Tx ctx)) (ap_AssetID p) (sdb_db s))))"
    using 1(7) to(2) assms(3)
    by (simp add: ctx_emit_db [OF assms(2)] Emit_the_indexer onAssetTransferred_def data_string_def Let_def)
  then show ?thesis
    using 1(7) a to(1) j ctx_okD(2) [OF assms(1)]
      eff_transfer [where fa = "GetAsset (ctx_Env ctx) (ctx_DB ctx) s" and b = "ap_To p", OF assms(7) 1(3,4)]
    by (simp add: asset_fun asset_ok_upd)
qed

lemma market_effect:
  assumes "ctx_ok ctx" "ctx_Emitter ctx = Some (the_indexer (ctx_DB ctx))" "state_ok (ctx_Env ctx) (ctx_DB ctx) s"
  shows "tx_Type (ctx_Tx ctx) \<noteq> TxBuyMarket \<Longrightarrow> handleListMarket ctx q s = (s', Inr u) \<Longrightarrow>
      index_effect (ctx_Env ctx) (ctx_DB ctx) (ctx_Tx ctx) fl (GetAsset (ctx_Env ctx) (ctx_DB ctx) s) (sdb_db s)
        (GetAsset (ctx_Env ctx) (ctx_DB ctx) s') (sdb_db s')"
    "tx_Type (ctx_Tx ctx) = TxBuyMarket \<Longrightarrow> handleBuyMarket ctx (tx_Payload (ctx_Tx ctx)) s = (s', Inr u) \<Longrightarrow>
      index_effect (ctx_Env ctx) (ctx_DB ctx) (ctx_Tx ctx) (GetListing (ctx_DB ctx) s)
        (GetAsset (ctx_Env ctx) (ctx_DB ctx) s) (sdb_db s) (GetAsset (ctx_Env ctx) (ctx_DB ctx) s') (sdb_db s')"
proof -
  assume ty: "tx_Type (ctx_Tx ctx) \<noteq> TxBuyMarket" and "handleListMarket ctx q s = (s', Inr u)"
  from this(2) show "index_effect (ctx_Env ctx) (ctx_DB ctx) (ctx_Tx ctx) fl (GetAsset (ctx_Env ctx) (ctx_DB ctx) s) (sdb_db s)
      (GetAsset (ctx_Env ctx) (ctx_DB ctx) s') (sdb_db s')"
  proof (cases rule: handleListMarket_ok)
    case (1 p a lid)
    have a: "ast_ID a = lp_AssetID p" "asset_ok (float_norm (ctx_Env ctx)) a" "utf8_ok lid"
      using state_okD(2) [OF assms(3) 1(3)] 1(7) by (simp_all add: listing_id_def)
    have db: "sdb_db s' = sdb_db s" using 1(8) by (simp add: assms(2))
    have "GetAsset (ctx_Env ctx) (ctx_DB ctx) s' =
        (GetAsset (ctx_Env ctx) (ctx_DB ctx) s)(lp_AssetID p := Inr (a\<lparr>ast_ActiveListingID := lid\<rparr>))"
      using 1(8) a ctx_okD(2) [OF assms(1)] by (simp add: asset_fun asset_ok_upd)
    then show ?thesis unfolding db by (simp add: eff_list [where fa = "GetAsset (ctx_Env ctx) (ctx_DB ctx) s", OF ty 1(3)])
  qed
next
  assume ty: "tx_Type (ctx_Tx ctx) = TxBuyMarket" and "handleBuyMarket ctx (tx_Payload (ctx_Tx ctx)) s = (s', Inr u)"
  from this(2) show "index_effect (ctx_Env ctx) (ctx_DB ctx) (ctx_Tx ctx) (GetListing (ctx_DB ctx) s)
      (GetAsset (ctx_Env ctx) (ctx_DB ctx) s) (sdb_db s) (GetAsset (ctx_Env ctx) (ctx_DB ctx) s') (sdb_db s')"
  proof (cases rule: handleBuyMarket_ok)
    case (1 p l buyer seller a s1 s2)
    have s2: "GetAsset (ctx_Env ctx) (ctx_DB ctx) s2 = GetAsset (ctx_Env ctx) (ctx_DB ctx) s"
      using 1(7,10) by (simp add: asset_fun)
    then have a: "GetAsset (ctx_Env ctx) (ctx_DB ctx) s (lst_AssetID l) = Inr a" using 1(11) by simp
    note x = state_okD(2) [OF assms(3) a]
    have db: "sdb_db s' = sdb_db s" using 1(7,10,12) by (simp add: assms(2))
    have "GetAsset (ctx_Env ctx) (ctx_DB ctx) s' = (GetAsset (ctx_Env ctx) (ctx_DB ctx) s)
        (lst_AssetID l := Inr (a\<lparr>ast_Owner := tx_From (ctx_Tx ctx), ast_ActiveListingID := []\<rparr>))"
      using 1(12) s2 x ctx_okD(2,3) [OF assms(1)] by (simp add: asset_fun asset_ok_upd)
    then show ?thesis unfolding db 
      by (simp add: eff_buy [where fl = "GetListing (ctx_DB ctx) s" and fa = "GetAsset (ctx_Env ctx) (ctx_DB ctx) s",
          OF ty 1(1-4) refl a])
  qed
qed

lemma account_effect:
  assumes "ctx_ok ctx" "ctx_Emitter ctx = Some (the_indexer (ctx_DB ctx))"
  shows "handleTransfer ctx p s = (s', Inr u) \<Longrightarrow> sdb_db s' = sdb_db s"
    "handleRegisterTemplate ctx p s = (s', Inr u) \<Longrightarrow> sdb_db s' = sdb_db s"
    "handleSessionOpen ctx p s = (s', Inr u) \<Longrightarrow> sdb_db s' = sdb_db s"
    "handleSessionResult ctx p s = (s', Inr u) \<Longrightarrow> sdb_db s' = sdb_db s"
  using assms(2)
  by (auto elim!: handleTransfer_ok handleRegisterTemplate_ok handleSessionOpen_ok handleSessionResult_ok
      dest!: lock_stakes_db pay_rewards_db split: if_splits)

lemma reg_Execute_effect:
  assumes "ctx_ok ctx" "ctx_Emitter ctx = Some (the_indexer (ctx_DB ctx))" "state_ok (ctx_Env ctx) (ctx_DB ctx) s"
    and "hash_nonempty (ctx_Env ctx)" "tx_From (ctx_Tx ctx) \<noteq> []" "\<not> is_ok (GetAsset (ctx_Env ctx) (ctx_DB ctx) s [])"
    and "reg_Execute globalRegistry (tx_Type (ctx_Tx ctx)) ctx (tx_Payload (ctx_Tx ctx)) s = (s', Inr u)"
  shows "index_effect (ctx_Env ctx) (ctx_DB ctx) (ctx_Tx ctx) (GetListing (ctx_DB ctx) s)
    (GetAsset (ctx_Env ctx) (ctx_DB ctx) s) (sdb_db s) (GetAsset (ctx_Env ctx) (ctx_DB ctx) s') (sdb_db s')"
proof -
  note acc = account_effect [OF assms(1,2)] and same = account_handler_market [OF assms(1), of _ _ _ _ "ctx_Env ctx"]
  from assms(7) show ?thesis
  proof (cases rule: reg_Execute_cases)
    case mint then show ?thesis by (rule mint_effect [OF assms(1,2,4,5)])
  next
    case burn then show ?thesis using burn_effect [OF assms(1,2,5,6)] by simp
  next
    case transfer_asset then show ?thesis using transfer_effect [OF assms(1,2,5,6,3)] by simp
  next
    case list_market then show ?thesis using market_effect(1) [OF assms(1-3)] by simp
  next
    case buy_market then show ?thesis using market_effect(2) [OF assms(1-3)] by blast
  qed (use same acc in \<open>auto simp: same_market_def eff_none\<close>)
qed

context healthy_db
begin

lemma the_indexer_ok: "emitter_opt_ok I (Some (the_indexer I))"
  using index_emitter_ok [OF NewIndexer_index [OF index_emitter_New]] by (simp add: emitter_opt_ok_def the_indexer_def)

lemma ExecuteTx_effect:
  assumes "run_ok E I (Some (the_indexer I)) block" "state_ok E I s" "hash_nonempty E" "\<not> is_ok (GetAsset E I s [])"
    and "ExecuteTx E I (Some (the_indexer I)) block tx s = (s', Inr u)"
  shows "index_effect E I tx (GetListing I s) (GetAsset E I s) (sdb_db s) (GetAsset E I s') (sdb_db s')"
proof -
  define ctx where
    "ctx = \<lparr>ctx_Env = E, ctx_DB = I, ctx_Block = block, ctx_Tx = tx, ctx_Emitter = Some (the_indexer I)\<rparr>"
  obtain s1 s2 where v: "tx_Verify E tx = Inr ()" and fee: "charge_fee I block tx (fst (Snapshot s)) = (s1, Inr ())"
    and ex: "reg_Execute globalRegistry (tx_Type tx) ctx (tx_Payload tx) s1 = (s2, Inr ())"
    and s': "s' = emit_event (Some (the_indexer I)) \<lparr>ev_Type = EventTxExecuted, ev_TxID = tx_ID tx,
       ev_BlockHeight = hdr_Height (blk_Header block),
       ev_Data = [(''type'', DStr (tx_Type tx)), (''from'', DStr (tx_From tx))]\<rparr> s2"
    unfolding ctx_def by (rule ExecuteTx_parts [OF assms(5)])
  have f: "utf8_ok (tx_From tx)" "tx_From tx \<noteq> []"
    using tx_Verify_utf8 [OF v] v by (auto simp: tx_Verify_def split: if_splits)
  have r: "utf8_ok (hdr_Proposer (blk_Header block))" using assms(1) by (simp add: run_ok_def)
  have "state_ok E I (fst (Snapshot s))" using assms(2) by simp
  note ok = charge_fee_state_ok [OF this f(1) r fee]
  have "sdb_db (fst (Snapshot s)) = sdb_db s" by (simp add: Snapshot_simps)
  then have same: "GetAsset E I s1 = GetAsset E I s" "GetListing I s1 = GetListing I s" "sdb_db s1 = sdb_db s"
    using charge_fee_assets [OF fee] charge_fee_keeps(2) [of I block tx "fst (Snapshot s)"] fee
    by (simp_all add: asset_fun listing_fun)
  have "index_effect E I tx (GetListing I s1) (GetAsset E I s1) (sdb_db s1) (GetAsset E I s2) (sdb_db s2)"
    using reg_Execute_effect [of ctx s1 s2] ex ok assms(1,3,4) f same
    by (simp add: ctx_def ctx_ok_def run_ok_def)
  moreover have "GetAsset E I s' = GetAsset E I s2" "sdb_db s' = sdb_db s2"
    using s' the_indexer_ok by (simp_all add: asset_fun emit_event_def Emit_the_indexer) (simp_all add: event_type_defs)
  ultimately show ?thesis using same by simp
qed

end

section \<open>The owner index\<close>

text \<open>The list stored for an owner; \<open>None\<close> when the entry does not decode.\<close>

definition owner_list :: "(bytes \<rightharpoonup> bytes) \<Rightarrow> bytes \<Rightarrow> bytes list option" where
  "owner_list m b =
     (case m (prefixOwnerAssets @ b) of
        None \<Rightarrow> Some []
      | Some v \<Rightarrow> (case unmarshal dec_ids v of Inl _ \<Rightarrow> None | Inr ids \<Rightarrow> Some (ids_list ids)))"

definition owned_by :: "(bytes \<Rightarrow> asset result) \<Rightarrow> bytes \<Rightarrow> bytes set" where
  "owned_by fa b = {j. \<exists>a. fa j = Inr a \<and> ast_Owner a = b}"

text \<open>The index is right when each list holds, once each, the assets of its owner.\<close>

definition index_right :: "(bytes \<rightharpoonup> bytes) \<Rightarrow> (bytes \<Rightarrow> asset result) \<Rightarrow> bool" where
  "index_right m fa \<longleftrightarrow> (\<forall>b. \<exists>ids. owner_list m b = Some ids \<and> distinct ids \<and> list_all utf8_ok ids \<and> set ids = owned_by fa b)"

lemma unmarshal_ids:
  assumes "list_all utf8_ok ids"
  shows "unmarshal dec_ids (marshal enc_ids ids) = Inr (Some ids)"
proof -
  have "json_ok (enc_ids ids)" "jdepth (enc_ids ids) \<le> max_nesting" by (simp_all add: enc_ids_def max_nesting_def)
  then have "parse_json (marshal enc_ids ids) = Some (enc_ids ids)" unfolding marshal_def by (rule parse_print_json)
  moreover have "dec_ids (enc_ids ids) = Inr (Some ids)"
    using assms by (simp add: dec_ids_def enc_ids_def dec_strings_def dec_enc_str_elems list_all_iff)
  ultimately show ?thesis by (simp add: unmarshal_def)
qed

lemma owner_list_upd:
  "list_all utf8_ok ids \<Longrightarrow>
     owner_list (m(prefixOwnerAssets @ b \<mapsto> marshal enc_ids ids)) = (owner_list m)(b := Some ids)"
  by (auto simp: owner_list_def fun_eq_iff unmarshal_ids ids_list_def)

text \<open>A store whose writes succeed.\<close>

locale working_db = healthy_db +
  assumes set_succeeds: "snd (DB_Set I d k v) = Inr ()" and write_succeeds: "snd (DB_Write I d ops) = Inr ()"
begin

lemma Set_alpha: "\<alpha> (fst (DB_Set I d k v)) = (\<alpha> d)(k \<mapsto> v)"
  using set_ok [of d k v "fst (DB_Set I d k v)" "()"] set_succeeds [of d k v] by (metis prod.collapse)

lemma getList_owner:
  assumes "owner_list (\<alpha> d) b = Some ids"
  shows "\<exists>x. idx_getList I d (prefixOwnerAssets @ b) = Inr x \<and> ids_list x = ids"
  using assms by (auto simp: idx_getList_def owner_list_def healthy_get [OF healthy] ids_list_def split: option.splits sum.splits)

lemma add_owner:
  assumes "owner_list (\<alpha> d) b = Some ids" "list_all utf8_ok ids" "utf8_ok j"
  shows "owner_list (\<alpha> (fst (idx_addToList I (prefixOwnerAssets @ b) j d))) =
    (owner_list (\<alpha> d))(b := Some (if j \<in> set ids then ids else ids @ [j]))"
proof -
  obtain x where "idx_getList I d (prefixOwnerAssets @ b) = Inr x" "ids_list x = ids"
    using getList_owner [OF assms(1)] by blast
  then show ?thesis
    using assms owner_list_upd [of "ids @ [j]" "\<alpha> d" b] by (auto simp: idx_addToList_def Set_alpha fun_upd_idem)
qed

lemma remove_owner:
  assumes "owner_list (\<alpha> d) b = Some ids" "list_all utf8_ok ids"
  shows "owner_list (\<alpha> (fst (idx_removeFromList I (prefixOwnerAssets @ b) j d))) =
    (owner_list (\<alpha> d))(b := Some (filter (\<lambda>i. i \<noteq> j) ids))"
proof -
  obtain x where x: "idx_getList I d (prefixOwnerAssets @ b) = Inr x" "ids_list x = ids"
    using getList_owner [OF assms(1)] by blast
  have u: "list_all utf8_ok (filter (\<lambda>i. i \<noteq> j) ids)" using assms(2) by (simp add: list_all_iff)
  show ?thesis
  proof (cases x)
    case None
    then have "ids = []" using x(2) by (simp add: ids_list_def)
    then show ?thesis using x(1) None assms(1) by (simp add: idx_removeFromList_def fun_upd_idem)
  next
    case (Some ys)
    then show ?thesis using x owner_list_upd [OF u, of "\<alpha> d" b] by (simp add: idx_removeFromList_def Set_alpha ids_list_def)
  qed
qed

lemma index_rightD:
  assumes "index_right (\<alpha> d) fa"
  obtains ids where "owner_list (\<alpha> d) b = Some ids" "distinct ids" "list_all utf8_ok ids" "set ids = owned_by fa b"
  using assms unfolding index_right_def by blast

lemma index_right_mint:
  assumes "index_right (\<alpha> d) fa" "\<not> is_ok (fa j)" "ast_Owner a = b" "utf8_ok j"
  shows "index_right (\<alpha> (fst (idx_addToList I (prefixOwnerAssets @ b) j d))) (fa(j := Inr a))"
proof -
  obtain ids where ids: "owner_list (\<alpha> d) b = Some ids" "distinct ids" "list_all utf8_ok ids" "set ids = owned_by fa b"
    by (rule index_rightD [OF assms(1)])
  have new: "j \<notin> owned_by fa c" for c using assms(2) by (auto simp: owned_by_def)
  have o: "owned_by (fa(j := Inr a)) c = (if c = b then insert j (owned_by fa b) else owned_by fa c)" for c
    using assms(2,3) by (auto simp: owned_by_def)
  show ?thesis
    unfolding index_right_def add_owner [OF ids(1,3) assms(4)] o
    using assms(1,4) ids new by (auto simp: index_right_def)
qed

lemma index_right_remove:
  assumes "index_right (\<alpha> d) fa" "fa j = Inr a" "ast_Owner a = b"
  shows "index_right (\<alpha> (fst (idx_removeFromList I (prefixOwnerAssets @ b) j d))) (fa(j := Inl e))"
proof -
  obtain ids where ids: "owner_list (\<alpha> d) b = Some ids" "distinct ids" "list_all utf8_ok ids" "set ids = owned_by fa b"
    by (rule index_rightD [OF assms(1)])
  have o: "owned_by (fa(j := Inl e)) c = (if c = b then owned_by fa b - {j} else owned_by fa c)" for c
    using assms(2,3) by (auto simp: owned_by_def)
  have "set (filter (\<lambda>i. i \<noteq> j) ids) = owned_by fa b - {j}" using ids(4) by auto
  then show ?thesis
    unfolding index_right_def remove_owner [OF ids(1,3)] o
    using assms(1) ids(2,3) by (auto simp: index_right_def list_all_iff)
qed

lemma index_right_owner:
  assumes "index_right m fa" "fa j = Inr a" "ast_Owner a' = ast_Owner a"
  shows "index_right m (fa(j := Inr a'))"
proof -
  have "owned_by (fa(j := Inr a')) = owned_by fa" using assms(2,3) by (auto simp: owned_by_def fun_eq_iff)
  then show ?thesis using assms(1) by (simp add: index_right_def)
qed

text \<open>Every transaction but a purchase keeps the index right.\<close>

lemma index_right_step:
  assumes "index_effect E I tx fl fa d fa' d'" "index_right (\<alpha> d) fa" "tx_Type tx \<noteq> TxBuyMarket"
    and "\<And>p. tx_Type tx = TxMintAsset \<Longrightarrow> unmarshal_raw (dec_mint (float_norm E)) (tx_Payload tx) = Inr p \<Longrightarrow>
      \<not> is_ok (fa (asset_id E tx (mp_TemplateID p)))"
  shows "index_right (\<alpha> d') fa'"
  using assms(1)
proof cases
  case (eff_mint p j a b)
  then show ?thesis using index_right_mint [OF assms(2)] assms(4) by (simp add: asset_id_def)
next
  case (eff_burn j a)
  then show ?thesis using index_right_remove [OF assms(2)] by simp
next
  case (eff_transfer j a b)
  have "index_right (\<alpha> (fst (idx_removeFromList I (prefixOwnerAssets @ tx_From tx) j d))) (fa(j := Inl ErrNotFound))"
    using index_right_remove [OF assms(2) eff_transfer(4,5)] .
  from index_right_mint [OF this, of j "a\<lparr>ast_Owner := b\<rparr>" b] eff_transfer show ?thesis by simp
next
  case (eff_list j a a')
  then show ?thesis using index_right_owner [OF assms(2)] by simp
qed (use assms(2,3) in simp_all)

text \<open>A purchase makes it wrong: the asset has a new owner and the lists are as before.\<close>

lemma index_wrong_buy:
  assumes "index_effect E I tx fl fa d fa' d'" "index_right (\<alpha> d) fa" "tx_Type tx = TxBuyMarket" "market_ok fa fl"
  shows "\<exists>j. j \<in> owned_by fa' (tx_From tx) \<and> (\<exists>ids. owner_list (\<alpha> d') (tx_From tx) = Some ids \<and> j \<notin> set ids)"
  using assms(1)
proof cases
  case (eff_buy p l j a a')
  obtain a1 where "fa (lst_AssetID l) = Inr a1" "ast_Owner a1 = lst_Seller l"
    by (rule market_ok_listing [OF assms(4) eff_buy(5,6)])
  then have "j \<notin> owned_by fa (tx_From tx)" using eff_buy by (simp add: owned_by_def)
  moreover obtain ids where "owner_list (\<alpha> d) (tx_From tx) = Some ids" "set ids = owned_by fa (tx_From tx)"
    by (rule index_rightD [OF assms(2)])
  moreover have "j \<in> owned_by fa' (tx_From tx)" using eff_buy by (simp add: owned_by_def)
  ultimately show ?thesis using eff_buy(2) by auto
qed (use assms(3) in \<open>simp_all add: tx_type_defs\<close>)

end

section \<open>The session index\<close>

lemma session_owner_keys [simp]: "prefixPlayerSession @ p \<noteq> prefixOwnerAssets @ b"
  by (simp add: prefixPlayerSession_def prefixOwnerAssets_def)

context healthy_db
begin

lemma Set_other: "k' \<noteq> k \<Longrightarrow> \<alpha> (fst (DB_Set I d k v)) k' = \<alpha> d k'"
  using set_ok [of d k v] set_error [of d k v]
  by (cases "DB_Set I d k v"; cases "snd (DB_Set I d k v)") auto

lemma list_other:
  "k' \<noteq> k \<Longrightarrow> \<alpha> (fst (idx_addToList I k v d)) k' = \<alpha> d k'"
  "k' \<noteq> k \<Longrightarrow> \<alpha> (fst (idx_removeFromList I k v d)) k' = \<alpha> d k'"
  by (auto simp: idx_addToList_def idx_removeFromList_def Set_other split: sum.split option.split)

lemma session_lists_unchanged:
  "index_effect E I tx fl fa d fa' d' \<Longrightarrow> \<alpha> d' (prefixPlayerSession @ p) = \<alpha> d (prefixPlayerSession @ p)"
  by (induction rule: index_effect.induct) (simp_all add: list_other)

lemma GetSessionsByPlayer_unchanged:
  "index_effect E I tx fl fa d fa' d' \<Longrightarrow> GetSessionsByPlayer I d' p = GetSessionsByPlayer I d p"
  using session_lists_unchanged [of E tx fl fa d fa' d' p]
  by (simp add: GetSessionsByPlayer_def idx_getList_def healthy_get [OF healthy])

end

interpretation mem: working_db "MemDB E" fmlookup
  by unfold_locales (simp_all add: MemDB_def mem_Set_def mem_Write_spec)

end
