(* ===== verification/Agreement.thy ===== *)
theory Agreement
  imports ChainTheorems NodeRun JsonHtml IndexFacts
begin

text \<open>
  Two nodes agree: a block that one node produced, sent to another node that holds the same state and the
  same tip, is executed there with the same effect, passes the check of the state root and is stored.
\<close>

section \<open>What execution reads\<close>

text \<open>The state entries as a function of their key. Execution depends on the state only through it.\<close>

definition reads :: "'d db_iface \<Rightarrow> 'd statedb \<Rightarrow> bytes \<Rightarrow> bytes result" where
  "reads I s k = (if state_key k then sdb_get I s k else Inl ErrNotFound)"

lemma state_keys [simp]:
  "state_key (prefixAccount @ k)" "state_key (prefixAsset @ k)" "state_key (prefixTemplate @ k)"
  "state_key (prefixSession @ k)" "state_key (prefixListing @ k)"
  by (simp_all add: state_key_def statePrefixes_def has_prefix_def)

named_theorems read_simps \<open>accessors in terms of the state entries\<close>

lemma get_reads [read_simps]:
  "GetAccount I s a = (case reads I s (prefixAccount @ a) of
     Inl e \<Rightarrow> if is_not_found e then Inr (new_account a) else Inl e | Inr data \<Rightarrow> unmarshal dec_account data)"
  "GetAsset E I s b = (case reads I s (prefixAsset @ b) of
     Inl e \<Rightarrow> Inl e | Inr data \<Rightarrow> unmarshal (dec_asset (float_norm E)) data)"
  "GetTemplate E I s c = (case reads I s (prefixTemplate @ c) of
     Inl e \<Rightarrow> Inl e | Inr data \<Rightarrow> unmarshal (dec_template (float_norm E)) data)"
  "GetSession I s d = (case reads I s (prefixSession @ d) of
     Inl e \<Rightarrow> Inl e | Inr data \<Rightarrow> unmarshal dec_session data)"
  "GetListing I s l = (case reads I s (prefixListing @ l) of
     Inl e \<Rightarrow> Inl e | Inr data \<Rightarrow> unmarshal dec_listing data)"
  by (simp_all add: reads_def accessor_defs)

lemma set_reads [read_simps]:
  "reads I (SetAccount s x) = (reads I s)(prefixAccount @ acc_Address x := Inr (marshal enc_account x))"
  "reads I (SetAsset s a) = (reads I s)(prefixAsset @ ast_ID a := Inr (marshal enc_asset a))"
  "reads I (DeleteAsset s b) = (reads I s)(prefixAsset @ b := Inl ErrNotFound)"
  "reads I (SetTemplate s t) = (reads I s)(prefixTemplate @ tpl_ID t := Inr (marshal enc_template t))"
  "reads I (SetSession s q) = (reads I s)(prefixSession @ ses_ID q := Inr (marshal enc_session q))"
  "reads I (SetListing s l) = (reads I s)(prefixListing @ lst_ID l := Inr (marshal enc_listing l))"
  by (auto simp: reads_def fun_eq_iff accessor_defs sdb_get_set sdb_get_del)

lemma reads_Snapshot [read_simps]: "reads I (fst (Snapshot s)) = reads I s"
  by (simp add: reads_def fun_eq_iff Snapshot_simps)

lemma reads_keeps: "db_keeps I (sdb_db s) d \<Longrightarrow> reads I (s\<lparr>sdb_db := d\<rparr>) = reads I s"
  by (auto simp: reads_def fun_eq_iff sdb_get_def db_keeps_def split: option.split)

lemma reads_emit: "emitter_opt_ok I em \<Longrightarrow> reads I (emit_event em ev s) = reads I s"
  by (auto simp: emit_event_def emitter_opt_ok_def intro: reads_keeps Emit_keeps split: option.splits)

lemma reads_ctx_emit:
  "emitter_opt_ok (ctx_DB c) (ctx_Emitter c) \<Longrightarrow> reads (ctx_DB c) (ctx_emit c ty data s) = reads (ctx_DB c) s"
  by (simp add: ctx_emit_def reads_emit)

section \<open>Handlers\<close>

text \<open>Two contexts for one transaction: on two stores, in two forms of the block and of the payload.\<close>

definition like_ctx :: "'d vm_context \<Rightarrow> 'e vm_context \<Rightarrow> bool" where
  "like_ctx c d \<longleftrightarrow> ctx_Env c = ctx_Env d \<and> tx_From (ctx_Tx c) = tx_From (ctx_Tx d) \<and> tx_ID (ctx_Tx c) = tx_ID (ctx_Tx d) \<and>
     hdr_Timestamp (blk_Header (ctx_Block c)) = hdr_Timestamp (blk_Header (ctx_Block d)) \<and>
     emitter_opt_ok (ctx_DB c) (ctx_Emitter c) \<and> emitter_opt_ok (ctx_DB d) (ctx_Emitter d)"

text \<open>Results that leave the same entries, and the same error.\<close>

definition like_result :: "'d db_iface \<Rightarrow> 'e db_iface \<Rightarrow> 'd statedb \<times> unit result \<Rightarrow> 'e statedb \<times> unit result \<Rightarrow> bool" where
  "like_result I J x y \<longleftrightarrow> reads I (fst x) = reads J (fst y) \<and> snd x = snd y"

lemma like_result_pair [simp]: "like_result I J (s, r) (t, q) \<longleftrightarrow> reads I s = reads J t \<and> r = q"
  by (simp add: like_result_def)

lemma like_case:
  assumes "r = q" "\<And>e. r = Inl e \<Longrightarrow> like_result I J (f e) (f' e)" "\<And>v. r = Inr v \<Longrightarrow> like_result I J (g v) (g' v)"
  shows "like_result I J (case r of Inl e \<Rightarrow> f e | Inr v \<Rightarrow> g v) (case q of Inl e \<Rightarrow> f' e | Inr v \<Rightarrow> g' v)"
  using assms by (cases r) auto

lemma like_if:
  assumes "b = c" "b \<Longrightarrow> like_result I J x x'" "\<not> b \<Longrightarrow> like_result I J y y'"
  shows "like_result I J (if b then x else y) (if c then x' else y')"
  using assms by simp

lemma lock_stakes_like:
  "reads I s = reads J t \<Longrightarrow> like_result I J (lock_stakes I w ps s) (lock_stakes J w ps t)"
proof (induction ps arbitrary: s t)
  case (Cons p ps)
  have a: "GetAccount J t p = GetAccount I s p" using Cons.prems by (simp add: get_reads)
  show ?case
    unfolding lock_stakes.simps a
    by (intro like_case like_if refl) (use Cons in \<open>simp_all add: set_reads\<close>)
qed simp

lemma pay_rewards_like:
  "reads I s = reads J t \<Longrightarrow> like_result I J (pay_rewards I krs s) (pay_rewards J krs t)"
proof (induction krs arbitrary: s t)
  case (Cons kr krs)
  have a: "GetAccount J t (fst kr) = GetAccount I s (fst kr)" using Cons.prems by (simp add: get_reads)
  show ?case
    unfolding pay_rewards.simps a
    by (intro like_case like_if refl) (use Cons in \<open>simp_all add: set_reads\<close>)
qed simp

lemma like_case_pair:
  assumes "like_result I J x y"
    and "\<And>s t e. reads I s = reads J t \<Longrightarrow> like_result I J (f s e) (f' t e)"
    and "\<And>s t v. reads I s = reads J t \<Longrightarrow> like_result I J (g s v) (g' t v)"
  shows "like_result I J (case x of (s, Inl e) \<Rightarrow> f s e | (s, Inr v) \<Rightarrow> g s v) (case y of (s, Inl e) \<Rightarrow> f' s e | (s, Inr v) \<Rightarrow> g' s v)"
  using assms by (cases x; cases y; cases "snd x") auto

lemmas like_rules = like_case like_if like_case_pair
lemmas like_simps = like_ctx_def get_reads set_reads reads_ctx_emit

lemma handlers_like:
  assumes "like_ctx c d" "reads (ctx_DB c) s = reads (ctx_DB d) t"
  shows "unmarshal_raw dec_transfer q = unmarshal_raw dec_transfer p \<Longrightarrow>
      like_result (ctx_DB c) (ctx_DB d) (handleTransfer c p s) (handleTransfer d q t)"
    "unmarshal_raw (dec_mint (float_norm (ctx_Env c))) q = unmarshal_raw (dec_mint (float_norm (ctx_Env c))) p \<Longrightarrow>
      like_result (ctx_DB c) (ctx_DB d) (handleMintAsset c p s) (handleMintAsset d q t)"
    "unmarshal_raw dec_burn q = unmarshal_raw dec_burn p \<Longrightarrow>
      like_result (ctx_DB c) (ctx_DB d) (handleBurnAsset c p s) (handleBurnAsset d q t)"
    "unmarshal_raw dec_transfer_asset q = unmarshal_raw dec_transfer_asset p \<Longrightarrow>
      like_result (ctx_DB c) (ctx_DB d) (handleTransferAsset c p s) (handleTransferAsset d q t)"
    "unmarshal_raw (dec_register (float_norm (ctx_Env c))) q = unmarshal_raw (dec_register (float_norm (ctx_Env c))) p \<Longrightarrow>
      like_result (ctx_DB c) (ctx_DB d) (handleRegisterTemplate c p s) (handleRegisterTemplate d q t)"
    "unmarshal_raw dec_list_market q = unmarshal_raw dec_list_market p \<Longrightarrow>
      like_result (ctx_DB c) (ctx_DB d) (handleListMarket c p s) (handleListMarket d q t)"
    "unmarshal_raw dec_buy_market q = unmarshal_raw dec_buy_market p \<Longrightarrow>
      like_result (ctx_DB c) (ctx_DB d) (handleBuyMarket c p s) (handleBuyMarket d q t)"
  unfolding handleTransfer_def handleMintAsset_def handleBurnAsset_def handleTransferAsset_def handleRegisterTemplate_def
    handleListMarket_def handleBuyMarket_def Let_def
  by (intro like_rules; use assms in \<open>simp add: like_simps asset_id_def listing_id_def\<close>)+

lemma handleSessionOpen_like:
  assumes "like_ctx c d" "reads (ctx_DB c) s = reads (ctx_DB d) t"
    and "unmarshal_raw dec_session_open q = unmarshal_raw dec_session_open p"
  shows "like_result (ctx_DB c) (ctx_DB d) (handleSessionOpen c p s) (handleSessionOpen d q t)"
  unfolding handleSessionOpen_def Let_def
  by (intro like_rules) (use assms in \<open>simp_all add: like_simps lock_stakes_like\<close>)

lemma handleSessionResult_like:
  assumes "like_ctx c d" "reads (ctx_DB c) s = reads (ctx_DB d) t"
    and "unmarshal_raw dec_session_result q = unmarshal_raw dec_session_result p"
  shows "like_result (ctx_DB c) (ctx_DB d) (handleSessionResult c p s) (handleSessionResult d q t)"
proof -
  have "ctx_Env d = ctx_Env c" using assms(1) by (simp add: like_ctx_def)
  then show ?thesis
    unfolding handleSessionResult_def Let_def
    by (intro like_rules) (use assms in \<open>simp_all add: like_simps pay_rewards_like\<close>)
qed

section \<open>Transactions and blocks\<close>

lemma nil_payload: "\<not> is_ok (snd (reg_Execute globalRegistry ty c None s))"
proof -
  have h: "handleTransfer c None s = x \<Longrightarrow> \<not> is_ok (snd x)" "handleMintAsset c None s = x \<Longrightarrow> \<not> is_ok (snd x)"
    "handleBurnAsset c None s = x \<Longrightarrow> \<not> is_ok (snd x)" "handleTransferAsset c None s = x \<Longrightarrow> \<not> is_ok (snd x)"
    "handleRegisterTemplate c None s = x \<Longrightarrow> \<not> is_ok (snd x)" "handleListMarket c None s = x \<Longrightarrow> \<not> is_ok (snd x)"
    "handleBuyMarket c None s = x \<Longrightarrow> \<not> is_ok (snd x)" "handleSessionOpen c None s = x \<Longrightarrow> \<not> is_ok (snd x)"
    "handleSessionResult c None s = x \<Longrightarrow> \<not> is_ok (snd x)" for x
    by (auto simp: handler_defs handleSessionOpen_def handleSessionResult_def unmarshal_raw_def Let_def)
  define x where "x = reg_Execute globalRegistry ty c None s"
  have "reg_Execute globalRegistry ty c None s = x" by (simp add: x_def)
  then have "\<not> is_ok (snd x)" by (cases rule: reg_Execute_cases) (use h in \<open>auto simp only: snd_conv is_ok_simps not_False_eq_True\<close>)
  then show ?thesis by (simp add: x_def)
qed

lemma reg_Execute_like:
  assumes "like_ctx c d" "reads (ctx_DB c) s = reads (ctx_DB d) t" "pred_option raw_valid p"
    and "reg_Execute globalRegistry ty c p s = (s', Inr u)"
  shows "like_result (ctx_DB c) (ctx_DB d) (reg_Execute globalRegistry ty c p s) (reg_Execute globalRegistry ty d (Some (enc_raw p)) t)"
proof -
  have p: "p \<noteq> None" using assms(4) nil_payload [of ty c s] by (metis is_ok_simps(1) snd_conv)
  note w = unmarshal_wire [OF assms(3) p]
  have "like_result (ctx_DB c) (ctx_DB d) (handleTransfer c p s) (handleTransfer d (Some (enc_raw p)) t)"
    "like_result (ctx_DB c) (ctx_DB d) (handleMintAsset c p s) (handleMintAsset d (Some (enc_raw p)) t)"
    "like_result (ctx_DB c) (ctx_DB d) (handleBurnAsset c p s) (handleBurnAsset d (Some (enc_raw p)) t)"
    "like_result (ctx_DB c) (ctx_DB d) (handleTransferAsset c p s) (handleTransferAsset d (Some (enc_raw p)) t)"
    "like_result (ctx_DB c) (ctx_DB d) (handleRegisterTemplate c p s) (handleRegisterTemplate d (Some (enc_raw p)) t)"
    "like_result (ctx_DB c) (ctx_DB d) (handleListMarket c p s) (handleListMarket d (Some (enc_raw p)) t)"
    "like_result (ctx_DB c) (ctx_DB d) (handleBuyMarket c p s) (handleBuyMarket d (Some (enc_raw p)) t)"
    "like_result (ctx_DB c) (ctx_DB d) (handleSessionOpen c p s) (handleSessionOpen d (Some (enc_raw p)) t)"
    "like_result (ctx_DB c) (ctx_DB d) (handleSessionResult c p s) (handleSessionResult d (Some (enc_raw p)) t)"
    using assms(1,2) by (simp_all add: handlers_like handleSessionOpen_like handleSessionResult_like w html_dec)
  with assms(4) show ?thesis by (cases rule: reg_Execute_cases [OF assms(4)]) simp_all
qed

text \<open>Two headers that execution cannot tell apart.\<close>

definition like_block :: "block \<Rightarrow> block \<Rightarrow> bool" where
  "like_block b b' \<longleftrightarrow> hdr_Timestamp (blk_Header b) = hdr_Timestamp (blk_Header b') \<and>
     hdr_Proposer (blk_Header b) = hdr_Proposer (blk_Header b')"

lemma charge_fee_like:
  assumes "like_block b b'" "reads I s = reads J t"
  shows "like_result I J (charge_fee I b tx s) (charge_fee J b' (wire_form tx) t)"
  unfolding charge_fee_def Let_def
  by (intro like_rules) (use assms in \<open>simp_all add: like_block_def wire_form_def get_reads set_reads\<close>)

lemma ExecuteTx_like:
  assumes "ExecuteTx E I em b tx s = (s', Inr u)" "tx_ok tx" "reads I s = reads J t" "like_block b b'"
    and "emitter_opt_ok I em" "emitter_opt_ok J em'"
  shows "\<exists>t'. ExecuteTx E J em' b' (wire_form tx) t = (t', Inr ()) \<and> reads I s' = reads J t'"
  using assms(1)
proof (rule ExecuteTx_parts)
  fix s1 s2
  assume v: "tx_Verify E tx = Inr ()" and f: "charge_fee I b tx (fst (Snapshot s)) = (s1, Inr ())"
    and x: "reg_Execute globalRegistry (tx_Type tx)
      \<lparr>ctx_Env = E, ctx_DB = I, ctx_Block = b, ctx_Tx = tx, ctx_Emitter = em\<rparr> (tx_Payload tx) s1 = (s2, Inr ())"
    and s': "s' = emit_event em \<lparr>ev_Type = EventTxExecuted, ev_TxID = tx_ID tx, ev_BlockHeight = hdr_Height (blk_Header b),
      ev_Data = [(''type'', DStr (tx_Type tx)), (''from'', DStr (tx_From tx))]\<rparr> s2"
  define d where "d = \<lparr>ctx_Env = E, ctx_DB = J, ctx_Block = b', ctx_Tx = wire_form tx, ctx_Emitter = em'\<rparr>"
  obtain t1 where t1: "charge_fee J b' (wire_form tx) (fst (Snapshot t)) = (t1, Inr ())" "reads I s1 = reads J t1"
    using charge_fee_like [OF assms(4), of I "fst (Snapshot s)" J "fst (Snapshot t)" tx] f assms(3)
    by (cases "charge_fee J b' (wire_form tx) (fst (Snapshot t))") (auto simp: reads_Snapshot)
  have "like_ctx \<lparr>ctx_Env = E, ctx_DB = I, ctx_Block = b, ctx_Tx = tx, ctx_Emitter = em\<rparr> d"
    using assms(4-6) by (simp add: like_ctx_def d_def like_block_def wire_form_def)
  moreover have "pred_option raw_valid (tx_Payload tx)"
    using assms(2) by (cases "tx_Payload tx") (simp_all add: tx_ok_def raw_valid_def)
  ultimately obtain t2 where
    t2: "reg_Execute globalRegistry (tx_Type tx) d (Some (enc_raw (tx_Payload tx))) t1 = (t2, Inr ())" "reads I s2 = reads J t2"
    using reg_Execute_like [OF _ _ _ x, of d t1] t1(2) x
    by (cases "reg_Execute globalRegistry (tx_Type tx) d (Some (enc_raw (tx_Payload tx))) t1") (auto simp: d_def)
  have i: "tx_ID (wire_form tx) = tx_ID tx" "tx_Type (wire_form tx) = tx_Type tx" "tx_From (wire_form tx) = tx_From tx"
    by (simp_all add: wire_form_def)
  have "applyTx E J em' b' (wire_form tx) (fst (Snapshot t)) = (t2, Inr ())"
    using t1(1) t2(1) by (simp add: applyTx_def d_def wire_form_def)
  then have "ExecuteTx E J em' b' (wire_form tx) t = (emit_event em' \<lparr>ev_Type = EventTxExecuted, ev_TxID = tx_ID tx,
      ev_BlockHeight = hdr_Height (blk_Header b'), ev_Data = [(''type'', DStr (tx_Type tx)), (''from'', DStr (tx_From tx))]\<rparr> t2, Inr ())"
    using v i by (cases "Snapshot t") (simp add: ExecuteTx_def)
  then show ?thesis using t2(2) s' assms(5,6) by (simp add: reads_emit)
qed

lemma execute_txs_like:
  assumes "execute_txs E I em b txs s = (s', Inr u)" "\<forall>tx\<in>set txs. tx_ok tx" "reads I s = reads J t" "like_block b b'"
    and "emitter_opt_ok I em" "emitter_opt_ok J em'"
  shows "\<exists>t'. execute_txs E J em' b' (map wire_form txs) t = (t', Inr ()) \<and> reads I s' = reads J t'"
  using assms(1-3)
proof (induction txs arbitrary: s t)
  case (Cons tx txs)
  obtain s1 where s1: "ExecuteTx E I em b tx s = (s1, Inr ())" "execute_txs E I em b txs s1 = (s', Inr u)"
    using Cons.prems(1) by (auto split: prod.splits sum.splits)
  obtain t1 where t1: "ExecuteTx E J em' b' (wire_form tx) t = (t1, Inr ())" "reads I s1 = reads J t1"
    using ExecuteTx_like [OF s1(1) _ Cons.prems(3) assms(4-6)] Cons.prems(2) by auto
  from Cons.IH [OF s1(2) _ t1(2)] Cons.prems(2) t1(1) show ?case by simp
qed simp

section \<open>Nodes\<close>

text \<open>
  Two nodes agree: the same entries in the state, the same header and hash at the tip, the height that of the
  tip, and in the buffers state entries only.
\<close>

definition tip_height :: "stored_block option \<Rightarrow> int64" where
  "tip_height tip = (case tip of None \<Rightarrow> 0 | Some t \<Rightarrow> sb_Height t)"

definition agree :: "'d db_iface \<Rightarrow> 'e db_iface \<Rightarrow> 'd node \<Rightarrow> 'e node \<Rightarrow> bool" where
  "agree I J A B \<longleftrightarrow> reads I (nd_state A) = reads J (nd_state B) \<and> buf_ok (nd_state A) \<and> buf_ok (nd_state B) \<and>
     rel_option (\<lambda>t t'. sb_Header t = sb_Header t' \<and> sb_Hash t = sb_Hash t') (bc_tip (nd_bc A)) (bc_tip (nd_bc B)) \<and>
     bc_height (nd_bc A) = tip_height (bc_tip (nd_bc A)) \<and> bc_height (nd_bc B) = tip_height (bc_tip (nd_bc B))"

lemma ComputeRoot_reads:
  assumes "healthy_db I \<alpha>" "healthy_db J \<beta>" "buf_ok s" "buf_ok t" "reads I s = reads J t"
  shows "ComputeRoot E I s = ComputeRoot E J t"
proof -
  note a = assms(1) [unfolded healthy_db_def] and b = assms(2) [unfolded healthy_db_def]
  have h: "db_healthy I (sdb_db s)" "db_healthy J (sdb_db t)"
    using healthy_db.healthy [OF assms(1)] healthy_db.healthy [OF assms(2)] by blast+
  have "view \<alpha> s k = view \<beta> t k" if "state_key k" for k
  proof -
    have "sdb_get I s k = sdb_get J t k" using fun_cong [OF assms(5), of k] that by (simp add: reads_def)
    then show ?thesis
      using kv_db.healthy_get_view [of I \<alpha> s k] kv_db.healthy_get_view [of J \<beta> t k] a b h by (auto split: option.splits)
  qed
  then have "view \<alpha> s |` {k. state_key k} = view \<beta> t |` {k. state_key k}"
    by (auto simp: restrict_map_def)
  with root_of_view [of I \<alpha> s J \<beta> t E E] a b h assms(3,4) show ?thesis by (simp add: ComputeRoot_def)
qed

context healthy_db
begin

lemma reads_commit:
  assumes "buf_ok s" "Commit E I s = (s', Inr u)"
  shows "reads I s' = reads I s" "buf_ok s'"
proof -
  have "view \<alpha> s' = view \<alpha> s" using Commit_ok(3) [OF _ assms(2)] assms(1) by (simp add: buf_ok_def)
  then show "reads I s' = reads I s" by (simp add: reads_def fun_eq_iff healthy_get_view [OF healthy])
  show "buf_ok s'" by (rule commit_buf_ok [OF assms])
qed

lemma reads_AddBlock:
  assumes "bc_AddBlock (LevelBlockStore I) b bc = (bc', r)" "bc_store bc = sdb_db s"
  shows "reads I (s\<lparr>sdb_db := bc_store bc'\<rparr>) = reads I s"
  using AddBlock_keeps [OF assms(1)] assms(2) by (intro reads_keeps) simp

text \<open>What remains of a block that was produced: the state as its execution left it, and the block as the tip.\<close>

lemma produced_reads:
  assumes "bc_AddBlock (LevelBlockStore I) b bc = (bc', Inr u)" "bc_store bc = sdb_db s" "buf_ok s"
    and "Commit E I (s\<lparr>sdb_db := bc_store bc'\<rparr>) = (s', Inr v)"
  shows "reads I s' = reads I s" "buf_ok s'" "bc_tip bc' = Some b" "bc_height bc' = sb_Height b"
proof -
  have b: "buf_ok (s\<lparr>sdb_db := bc_store bc'\<rparr>)" using assms(3) by (simp add: buf_ok_def sdb_ok_def)
  show "reads I s' = reads I s" "buf_ok s'"
    using reads_commit [OF b assms(4)] reads_AddBlock [OF assms(1,2)] by simp_all
  show "bc_tip bc' = Some b" "bc_height bc' = sb_Height b" using assms(1) by (auto elim: lbs.AddBlock_parts)
qed

end

context working_db
begin

lemma Commit_works: "\<exists>s'. Commit E I s = (s', Inr ())"
  using write_succeeds [of "sdb_db s" "commit_ops E s"] by (auto simp: Commit_def split: prod.splits)

lemma AddBlock_works:
  assumes "\<And>t. bc_tip bc = Some t \<Longrightarrow> bc_height bc < sb_Height b \<and> sb_Height b = wrap64 (bc_height bc + 1) \<and>
     hdr_PrevHash (sb_Header b) = sb_Hash t"
  shows "\<exists>bc'. bc_AddBlock (LevelBlockStore I) b bc = (bc', Inr ())"
proof -
  have "\<exists>d. BS_CommitBlock (LevelBlockStore I) (bc_store bc) b = (d, Inr ())"
    using write_succeeds [of "bc_store bc"] by (simp add: LevelBlockStore_def lbs_CommitBlock_def) (metis prod.collapse)
  then show ?thesis using assms by (cases "bc_tip bc") (auto simp: bc_AddBlock_def Let_def)
qed

end

lemma AddBlock_link:
  assumes "bc_AddBlock B b bc = (bc', Inr u)" "bc_tip bc = Some t"
  shows "bc_height bc < sb_Height b \<and> sb_Height b = wrap64 (bc_height bc + 1) \<and> hdr_PrevHash (sb_Header b) = sb_Hash t"
  using assms by (auto simp: bc_AddBlock_def Let_def split: if_splits)

text \<open>The execution of a produced block, in the form its receiver decodes.\<close>

lemma produced_executes:
  assumes "ExecuteBlock E I (Some em) b0 s = (s1, Inr ())" "b = blk_Sign E priv (b0\<lparr>blk_Header := (blk_Header b0)\<lparr>hdr_StateRoot := root\<rparr>\<rparr>)"
    and "stored_ok (store_form False b)" "reads I s = reads J t" "emitter_ok I em" "emitter_ok J em'"
    and "block_of (wire_block (store_form False b)) = Some blk"
  shows "\<exists>t1. ExecuteBlock E J (Some em') blk (fst (Snapshot t)) = (t1, Inr ()) \<and> reads I s1 = reads J t1"
proof -
  have blk: "blk = b\<lparr>blk_Transactions := map wire_form (blk_Transactions b)\<rparr>" using assms(7) by (simp add: block_of_wire)
  have txs: "blk_Transactions b = blk_Transactions b0" using assms(2) by simp
  have "\<forall>tx\<in>set (blk_Transactions b0). tx_ok tx"
    using assms(3) txs by (auto simp: stored_ok_def store_form_def sb_list_def)
  moreover have "like_block b0 blk" using assms(2) blk by (simp add: like_block_def)
  moreover have "reads I s = reads J (fst (Snapshot t))" using assms(4) by (simp add: reads_Snapshot)
  ultimately show ?thesis
    using execute_txs_like [of E I "Some em" b0 "blk_Transactions b0" s s1 "()" J "fst (Snapshot t)" blk "Some em'"]
      assms(1,5,6) blk txs by (simp add: ExecuteBlock_def emitter_opt_ok_def)
qed

lemma sync_block_added:
  assumes "ValidateBlock E now cfg (bc_tip (nd_bc nd)) b = Ok ()" "block_of b = Some blk"
    and "ExecuteBlock E I (Some em) blk (fst (Snapshot (nd_state nd))) = (s2, Inr ())"
    and "ComputeRoot E I s2 = hdr_StateRoot (sb_Header b)"
    and "bc_AddBlock B b ((nd_bc nd)\<lparr>bc_store := sdb_db s2\<rparr>) = (bc, Inr ())"
    and "Commit E I (s2\<lparr>sdb_db := bc_store bc\<rparr>) = (s3, Inr ())"
  shows "sync_block E I B em now cfg (Some b) nd = ((nd_set_chain bc (nd\<lparr>nd_state := s2\<rparr>))\<lparr>nd_state := s3\<rparr>, Ok True)"
  using assms by (cases "Snapshot (nd_state nd)") (simp add: sync_block_def Let_def nd_chain_def)

lemma follower_accepts:
  assumes "healthy_db I \<alpha>" "working_db J \<beta>" "agree I J A B" "emitter_ok I em" "emitter_ok J em'"
    and "ProduceBlock E I (LevelBlockStore I) em now cfg priv A = (A', Ok b)" "ed25519_ok E" "length priv = 64"
    and "stored_ok (store_form False b)"
    and "\<forall>t. bc_tip (nd_bc A) = Some t \<longrightarrow> hdr_Timestamp (sb_Header t) \<le> now"
    and "now \<le> now' + maxBlockTimeDrift" "in_int64 (now' + maxBlockTimeDrift)"
  shows "\<exists>B'. sync_block E J (LevelBlockStore J) em' now' cfg (Some (wire_block (store_form False b))) B = (B', Ok True) \<and>
    agree I J A' B'"
proof (rule ProduceBlock_Ok [OF assms(6)])
  fix txs prev h s1 bc s2 b0 b1
  assume x: "ExecuteBlock E I (Some em) b0 (nd_state A) = (s1, Inr ())"
    and b: "b1 = b0\<lparr>blk_Header := (blk_Header b0)\<lparr>hdr_StateRoot := ComputeRoot E I s1\<rparr>\<rparr>" "b = blk_Sign E priv b1"
    and a: "bc_AddBlock (LevelBlockStore I) (store_form False b) ((nd_bc A)\<lparr>bc_store := sdb_db s1\<rparr>) = (bc, Inr ())"
    and c: "Commit E I (s1\<lparr>sdb_db := bc_store bc\<rparr>) = (s2, Inr ())"
    and A': "A' = \<lparr>nd_state = emit_event (Some em) \<lparr>ev_Type = EventBlockCommit, ev_TxID = [],
        ev_BlockHeight = hdr_Height (blk_Header b),
        ev_Data = [(''hash'', DStr (blk_Hash b)), (''txs'', DInt (int (length (blk_Transactions b))))]\<rparr> s2,
       nd_bc = bc, nd_pool = pool_Remove (map tx_ID txs) (nd_pool A)\<rparr>"
  let ?b = "wire_block (store_form False b)"
  have J: "healthy_db J \<beta>" using assms(2) by (simp add: working_db_def)
  have ag: "reads I (nd_state A) = reads J (nd_state B)" "buf_ok (nd_state A)" "buf_ok (nd_state B)"
    "rel_option (\<lambda>t t'. sb_Header t = sb_Header t' \<and> sb_Hash t = sb_Hash t') (bc_tip (nd_bc A)) (bc_tip (nd_bc B))"
    "bc_height (nd_bc A) = tip_height (bc_tip (nd_bc A))" "bc_height (nd_bc B) = tip_height (bc_tip (nd_bc B))"
    using assms(3) by (simp_all add: agree_def)
  have v: "ValidateBlock E now' cfg (bc_tip (nd_bc B)) ?b = Ok ()"
    using produced_wire_valid [OF assms(6-8) _ ag(4) assms(10-12)] ag(5) by (simp add: tip_height_def)
  obtain blk where blk: "block_of ?b = Some blk" using block_of_wire by blast
  obtain t1 where t1: "ExecuteBlock E J (Some em') blk (fst (Snapshot (nd_state B))) = (t1, Inr ())" "reads I s1 = reads J t1"
    using produced_executes [OF x _ assms(9) ag(1) assms(4,5) blk] b by blast
  have ok: "buf_ok s1" "buf_ok t1"
    using execute_txs_buf_ok x t1(1) ag(2,3) unfolding ExecuteBlock_def by fastforce+
  have hd: "sb_Header ?b = blk_Header b" "sb_Hash ?b = blk_Hash b" by (simp_all add: store_form_def)
  have root: "ComputeRoot E J t1 = hdr_StateRoot (sb_Header ?b)"
    using ComputeRoot_reads [OF assms(1) J ok t1(2), of E] b hd(1) by simp
  let ?c = "(nd_bc B)\<lparr>bc_store := sdb_db t1\<rparr>"
  have link: "bc_height ?c < sb_Height ?b \<and> sb_Height ?b = wrap64 (bc_height ?c + 1) \<and> hdr_PrevHash (sb_Header ?b) = sb_Hash t"
    if t: "bc_tip ?c = Some t" for t
  proof -
    obtain t' where "bc_tip (nd_bc A) = Some t'" "sb_Header t' = sb_Header t" "sb_Hash t' = sb_Hash t"
      using ag(4) t by (cases "bc_tip (nd_bc A)") auto
    with AddBlock_link [OF a, of t'] ag(5,6) t show ?thesis by (simp add: tip_height_def store_form_def)
  qed
  obtain bc' where a': "bc_AddBlock (LevelBlockStore J) ?b ?c = (bc', Inr ())"
    using working_db.AddBlock_works [OF assms(2) link] by blast
  obtain t2 where c': "Commit E J (t1\<lparr>sdb_db := bc_store bc'\<rparr>) = (t2, Inr ())"
    using working_db.Commit_works [OF assms(2)] by blast
  note p = healthy_db.produced_reads [OF assms(1) a _ ok(1) c] and q = healthy_db.produced_reads [OF J a' _ ok(2) c']
  have "agree I J A' ((nd_set_chain bc' (B\<lparr>nd_state := t1\<rparr>))\<lparr>nd_state := t2\<rparr>)"
    using p q t1(2) A' assms(4) hd
    by (simp add: agree_def reads_emit emitter_opt_ok_def tip_height_def store_form_def nd_set_chain_def)
  then show ?thesis using sync_block_added [OF v blk t1(1) root a' c'] by blast
qed

text \<open>
  A producer at work: its pool changes and it produces blocks, each with a clock that is not behind the tip
  and not ahead of \<open>limit\<close>. The list has the blocks, oldest first.
\<close>

inductive producing ::
  "env \<Rightarrow> 'd db_iface \<Rightarrow> 'd emitter \<Rightarrow> config \<Rightarrow> bytes \<Rightarrow> int64 \<Rightarrow> 'd node \<Rightarrow> block list \<Rightarrow> 'd node \<Rightarrow> bool"
  for E I em cfg priv limit where
  producing_none: "producing E I em cfg priv limit A [] A"
| producing_pool: "producing E I em cfg priv limit (A\<lparr>nd_pool := m\<rparr>) bs A' \<Longrightarrow> producing E I em cfg priv limit A bs A'"
| producing_block: "ProduceBlock E I (LevelBlockStore I) em now cfg priv A = (A1, Ok b) \<Longrightarrow> stored_ok (store_form False b) \<Longrightarrow>
    \<forall>t. bc_tip (nd_bc A) = Some t \<longrightarrow> hdr_Timestamp (sb_Header t) \<le> now \<Longrightarrow> now \<le> limit \<Longrightarrow>
    producing E I em cfg priv limit A1 bs A' \<Longrightarrow> producing E I em cfg priv limit A (b # bs) A'"

lemma follower_catches_up:
  assumes "producing E I em cfg priv limit A bs A'" "agree I J A B" "healthy_db I \<alpha>" "working_db J \<beta>"
    and "emitter_ok I em" "emitter_ok J em'" "ed25519_ok E" "length priv = 64"
    and "limit \<le> now' + maxBlockTimeDrift" "in_int64 (now' + maxBlockTimeDrift)"
  shows "\<exists>B'. sync_blocks E J (LevelBlockStore J) em' now' cfg (map (\<lambda>b. Some (wire_block (store_form False b))) bs) B =
      (B', Ok True) \<and> agree I J A' B'"
  using assms(1,2)
proof (induction arbitrary: B)
  case (producing_pool A m bs A')
  then show ?case by (simp add: agree_def)
next
  case (producing_block now A A1 b bs A')
  have "now \<le> now' + maxBlockTimeDrift" using producing_block.hyps(4) assms(9) by simp
  from follower_accepts [OF assms(3,4) producing_block.prems assms(5,6) producing_block.hyps(1) assms(7,8)
      producing_block.hyps(2,3) this assms(10)]
  obtain B1 where B1: "sync_block E J (LevelBlockStore J) em' now' cfg (Some (wire_block (store_form False b))) B = (B1, Ok True)"
    "agree I J A1 B1"
    by blast
  from producing_block.IH [OF B1(2)] B1(1) show ?case by simp
qed simp

end
