(* ===== verification/Frames.thy ===== *)
theory Frames
  imports NodeSteps Agreement
begin

text \<open>
  Messages on a connection: a message that is sent arrives as it was, or is refused for its length; the
  loop that reads a connection ends; and a node that asks another one for blocks catches up.
\<close>

section \<open>A marshalled document is not escaped again\<close>

lemma html_conts: "\<forall>d\<in>set x. is_cont d \<Longrightarrow> html_raw (x @ u) = x @ html_raw u"
  by (induction x) (simp_all add: is_cont_html)

lemma html_rune:
  assumes "rune_len s \<noteq> 0" "s = c # cs" "\<not> byte_of c < 128"
    and "take 3 s \<noteq> [CHR 0xE2, CHR 0x80, CHR 0xA8]" "take 3 s \<noteq> [CHR 0xE2, CHR 0x80, CHR 0xA9]"
  shows "html_raw (take (rune_len s) s @ u) = take (rune_len s) s @ html_raw u"
proof -
  obtain n where n: "rune_len s = Suc n" "conts n cs" using rune_len_conts [OF assms(3), of cs] assms(1,2) by auto
  have "html_raw (c # take n cs @ u) = c # html_raw (take n cs @ u)"
  proof (cases c "take n cs @ u" rule: html_raw_cases)
    case lt
    then show ?thesis using assms(3) by auto
  next
    case (sep r t)
    then have "n = 2" using assms(2) n(1) by (auto simp: rune_len.simps(2) Let_def split: list.splits if_splits)
    then have "take 2 cs = take 2 (take n cs @ u)" "2 \<le> length cs" using n(2) by (simp_all add: conts_def)
    then have "take 3 s = [CHR 0xE2, CHR 0x80, if r = 8232 then CHR 0xA8 else CHR 0xA9]"
      using sep(2,3) assms(2) by (simp add: numeral_3_eq_3 numeral_2_eq_2)
    then show ?thesis using assms(4,5) sep(1) by auto
  qed
  then show ?thesis using html_conts [of "take n cs" u] n assms(2) by (simp add: conts_def)
qed

lemma html_ascii: "byte_of c < (128 :: nat) \<Longrightarrow> html_raw (esc_ascii c @ u) = esc_ascii c @ html_raw u"
  by (auto simp: esc_ascii_def html_raw_ascii html_raw_escape)

lemma html_quote [simp]: "html_raw (quote_go s) = quote_go s"
proof (induction s rule: quote_go.induct)
  case (1 s)
  show ?case
  proof (cases s)
    case (Cons c cs)
    have IH1: "html_raw (quote_go cs) = quote_go cs" if "byte_of c < (128 :: nat) \<or> rune_len s = 0"
      using 1(1,2) [OF Cons] that by argo
    have IH2: "html_raw (quote_go (drop (rune_len s) s)) = quote_go (drop (rune_len s) s)"
      if "\<not> byte_of c < (128 :: nat)" "rune_len s \<noteq> 0"
      using 1(3-5) [OF Cons that] by argo
    have "quote_go s = (if byte_of c < 128 then esc_ascii c @ quote_go cs
          else if rune_len s = 0 then esc_u 65533 @ quote_go cs
          else if take 3 s = [CHR 0xE2, CHR 0x80, CHR 0xA8] then esc_u 8232 @ quote_go (drop (rune_len s) s)
          else if take 3 s = [CHR 0xE2, CHR 0x80, CHR 0xA9] then esc_u 8233 @ quote_go (drop (rune_len s) s)
          else take (rune_len s) s @ quote_go (drop (rune_len s) s))"
      by (subst quote_go.simps) (simp add: Cons)
    moreover have "html_raw (esc_ascii c @ quote_go cs) = esc_ascii c @ quote_go cs" if "byte_of c < (128 :: nat)"
      using IH1 that by (simp add: html_ascii)
    moreover have "html_raw (take (rune_len s) s @ quote_go (drop (rune_len s) s)) =
        take (rune_len s) s @ quote_go (drop (rune_len s) s)"
      if "\<not> byte_of c < (128 :: nat)" "rune_len s \<noteq> 0" "take 3 s \<noteq> [CHR 0xE2, CHR 0x80, CHR 0xA8]"
        "take 3 s \<noteq> [CHR 0xE2, CHR 0x80, CHR 0xA9]"
      using html_rune [OF that(2) Cons that(1,3,4)] IH2 [OF that(1,2)] by (simp only:)
    moreover have "html_raw (esc_u r @ quote_go (drop (rune_len s) s)) = esc_u r @ quote_go (drop (rune_len s) s)"
      if "\<not> byte_of c < (128 :: nat)" "rune_len s \<noteq> 0" "r < 65536" for r
      using IH2 [OF that(1,2)] that(3) by (simp only: esc_u_html)
    moreover have "html_raw (esc_u 65533 @ quote_go cs) = esc_u 65533 @ quote_go cs" if "rune_len s = 0"
      using IH1 that by simp
    moreover have "8232 < (65536 :: nat)" "8233 < (65536 :: nat)" by simp_all
    ultimately show ?thesis by presburger
  qed (simp add: quote_go.simps)
qed

lemma html_plain: "list_all (\<lambda>c. byte_of c < (128 :: nat) \<and> c \<notin> set ''<>&'') s \<Longrightarrow> html_raw s = s"
  by (induction s) (simp_all add: html_raw_ascii)

lemma html_enc_scalar [simp]:
  "html_json (enc_string x) = enc_string x" "html_json (enc_int64 i) = enc_int64 i" "html_json (enc_uint64 w) = enc_uint64 w"
  by (simp_all add: enc_string_def enc_int64_def enc_uint64_def)

lemma html_enc_raw [simp]: "html_json (enc_raw p) = enc_raw p"
  by (cases p) (simp_all add: enc_raw_def)

lemma html_map: "(\<And>x. html_json (f x) = f x) \<Longrightarrow> html_elems (map f xs) = map f xs"
  by (induction xs) simp_all

lemma html_enc_transaction [simp]: "html_json (enc_transaction tx) = enc_transaction tx"
  by (simp add: enc_transaction_def html_plain)

lemma html_enc_ptr: "(\<And>x. html_json (f x) = f x) \<Longrightarrow> html_json (enc_ptr f p) = enc_ptr f p"
  by (cases p) (simp_all add: enc_ptr_def)

lemma html_enc_slice: "(\<And>x. html_json (f x) = f x) \<Longrightarrow> html_json (enc_slice f xs) = enc_slice f xs"
  by (cases xs) (simp_all add: enc_slice_def html_map)

lemma html_enc_header [simp]: "html_json (enc_header h) = enc_header h"
  by (simp add: enc_header_def html_plain)

lemma html_enc_block [simp]: "html_json (enc_block b) = enc_block b"
  by (simp add: enc_block_def html_plain html_enc_slice html_enc_ptr)

lemma html_enc_blocks [simp]: "html_json (enc_blocks bs) = enc_blocks bs" "html_json (enc_get_blocks r) = enc_get_blocks r"
  by (simp_all add: enc_blocks_def enc_get_blocks_def html_plain html_enc_slice html_enc_ptr)

section \<open>Messages and frames\<close>

text \<open>A message that can be sent, and what its receiver decodes.\<close>

definition message_ok :: "message \<Rightarrow> bool" where
  "message_ok m \<longleftrightarrow> utf8_ok (msg_Type m) \<and> pred_option (\<lambda>j. json_ok j \<and> jdepth j < max_nesting) (msg_Payload m)"

definition wire_message :: "message \<Rightarrow> message" where
  "wire_message m = m\<lparr>msg_Payload := Some (enc_raw (msg_Payload m))\<rparr>"

lemma unmarshal_message:
  assumes "message_ok m"
  shows "unmarshal dec_message (marshal enc_message m) = Inr (wire_message m)"
proof -
  have "json_ok (enc_raw (msg_Payload m))" "jdepth (enc_raw (msg_Payload m)) < max_nesting"
    using assms by (cases "msg_Payload m"; simp add: message_ok_def enc_raw_def html_json_ok max_nesting_def)+
  then have "parse_json (print_json (enc_message m)) = Some (enc_message m)"
    by (intro parse_print_json) (simp_all add: enc_message_def enc_string_def raw_ok_quote raw_ok_plain plain_name_def)
  then show ?thesis
    using assms by (simp add: unmarshal_def marshal_def) (simp add: enc_message_def dec_message_def message_field_def
        decode_struct_def plain_name_def message_ok_def wire_message_def)
qed

definition frame :: "message \<Rightarrow> bytes" where
  "frame m = be32 (length (marshal enc_message m)) @ marshal enc_message m"

text \<open>
  What the node relies on: a read returns as many bytes as it asked for, in their order, or fails; a write
  does not touch what is still to be read. \<open>conn_works\<close> describes a connection on which nothing fails.
\<close>

definition conn_ok :: "'c conn_iface \<Rightarrow> ('c \<Rightarrow> bytes) \<Rightarrow> bool" where
  "conn_ok C inbox \<longleftrightarrow>
     (\<forall>c n c' d. conn_ReadFull C c n = (c', Inr d) \<longrightarrow> length d = n \<and> inbox c = d @ inbox c') \<and>
     (\<forall>c d c' r. conn_Write C c d = (c', r) \<longrightarrow> inbox c' = inbox c)"

definition conn_works :: "'c conn_iface \<Rightarrow> ('c \<Rightarrow> bytes) \<Rightarrow> ('c \<Rightarrow> bytes) \<Rightarrow> bool" where
  "conn_works C inbox outbox \<longleftrightarrow> conn_ok C inbox \<and>
     (\<forall>c. conn_SetReadDeadline C c = Inr () \<and> conn_SetWriteDeadline C c = Inr ()) \<and>
     (\<forall>c n. n \<le> length (inbox c) \<longrightarrow> is_ok (snd (conn_ReadFull C c n))) \<and>
     (\<forall>c d. is_ok (snd (conn_Write C c d)) \<and> outbox (fst (conn_Write C c d)) = outbox c @ d) \<and>
     (\<forall>c n. outbox (fst (conn_ReadFull C c n)) = outbox c \<and> outbox (conn_Close C c) = outbox c)"

lemma works_read:
  assumes "conn_works C inbox outbox" "inbox c = x @ y"
  shows "\<exists>c'. conn_ReadFull C c (length x) = (c', Inr x) \<and> inbox c' = y \<and> outbox c' = outbox c"
proof -
  obtain c' d where r: "conn_ReadFull C c (length x) = (c', Inr d)"
    using assms by (cases "conn_ReadFull C c (length x)"; cases "snd (conn_ReadFull C c (length x))")
      (auto simp: conn_works_def dest!: spec [of _ c] spec [of _ "length x"])
  then have "length d = length x" "inbox c = d @ inbox c'" using assms(1) unfolding conn_works_def conn_ok_def by blast+
  with assms(2) have d: "d = x" "inbox c' = y" by simp_all
  have "outbox (fst (conn_ReadFull C c (length x))) = outbox c" using assms(1) by (simp add: conn_works_def)
  then show ?thesis using r d by simp
qed

lemma works_write:
  assumes "conn_works C inbox outbox"
  shows "\<exists>c'. conn_Write C c d = (c', Inr ()) \<and> outbox c' = outbox c @ d \<and> inbox c' = inbox c"
proof -
  obtain c' r where r: "conn_Write C c d = (c', r)" by fastforce
  moreover have "is_ok (snd (conn_Write C c d))" "outbox (fst (conn_Write C c d)) = outbox c @ d"
    using assms by (simp_all add: conn_works_def)
  moreover have "inbox c' = inbox c" using assms r unfolding conn_works_def conn_ok_def by blast
  ultimately show ?thesis by (cases r) simp_all
qed

lemma Send_works:
  assumes "conn_works C inbox outbox" "\<not> peer_closed p"
  shows "\<exists>c. peer_Send C m p = (p\<lparr>peer_conn := c\<rparr>, Inr ()) \<and> outbox c = outbox (peer_conn p) @ frame m \<and>
    inbox c = inbox (peer_conn p)"
proof -
  obtain c where c: "conn_Write C (peer_conn p) (be32 (length (marshal enc_message m))) = (c, Inr ())"
    "outbox c = outbox (peer_conn p) @ be32 (length (marshal enc_message m))" "inbox c = inbox (peer_conn p)"
    using works_write [OF assms(1)] by blast
  obtain c' where "conn_Write C c (marshal enc_message m) = (c', Inr ())" "outbox c' = outbox c @ marshal enc_message m"
    "inbox c' = inbox c"
    using works_write [OF assms(1)] by blast
  then show ?thesis using c assms by (auto simp: peer_Send_def conn_works_def frame_def Let_def)
qed

text \<open>A frame is read as one message; a frame that is too long is refused after its header.\<close>

lemma Receive_works:
  assumes "conn_works C inbox outbox" "message_ok m" "length (marshal enc_message m) < 2 ^ 32"
    and "inbox (peer_conn p) = frame m @ rest"
  shows "\<exists>c. peer_Receive C p = (p\<lparr>peer_conn := c\<rparr>,
      if length (marshal enc_message m) \<le> max_message then Inr (wire_message m) else Inl (Errorf ''message too large'')) \<and>
    inbox c = (if length (marshal enc_message m) \<le> max_message then rest else marshal enc_message m @ rest) \<and>
    outbox c = outbox (peer_conn p)"
proof -
  let ?d = "marshal enc_message m"
  obtain c where c: "conn_ReadFull C (peer_conn p) 4 = (c, Inr (be32 (length ?d)))" "inbox c = ?d @ rest"
      "outbox c = outbox (peer_conn p)"
    using works_read [OF assms(1), of "peer_conn p" "be32 (length ?d)" "?d @ rest"] assms(4) by (auto simp: frame_def)
  obtain c' where c': "conn_ReadFull C c (length ?d) = (c', Inr ?d)" "inbox c' = rest" "outbox c' = outbox c"
    using works_read [OF assms(1) c(2)] by blast
  have len: "from_be32 (be32 (length ?d)) = length ?d" using assms(3) by (intro from_be32_be32)
  show ?thesis
    using assms(1) c c' len unmarshal_message [OF assms(2)] by (auto simp: peer_Receive_def conn_works_def Let_def)
qed

section \<open>The read loop ends\<close>

text \<open>Whatever the connection answers, a message costs the four bytes of its header.\<close>

lemma Receive_consumes:
  assumes "peer_Receive C p = (p', Inr m)" "conn_ok C inbox"
  shows "length (inbox (peer_conn p')) + 4 \<le> length (inbox (peer_conn p))"
proof -
  obtain c h c' d where r: "conn_ReadFull C (peer_conn p) 4 = (c, Inr h)" "conn_ReadFull C c (from_be32 h) = (c', Inr d)"
    "p' = p\<lparr>peer_conn := c'\<rparr>"
    using assms(1) by (auto simp: peer_Receive_def Let_def split: sum.splits prod.splits if_splits)
  have "length h = 4" "inbox (peer_conn p) = h @ inbox c" "inbox c = d @ inbox c'"
    using assms(2) r(1,2) unfolding conn_ok_def by blast+
  then show ?thesis using r(3) by simp
qed

lemma Send_keeps_inbox:
  assumes "conn_ok C inbox"
  shows "inbox (peer_conn (fst (peer_Send C m p))) = inbox (peer_conn p)"
proof -
  have w: "inbox (fst (conn_Write C c d)) = inbox c" for c d using assms unfolding conn_ok_def by (metis prod.collapse)
  show ?thesis
    using w [of "peer_conn p" "be32 (length (marshal enc_message m))"] w [of _ "marshal enc_message m"]
    by (auto simp: peer_Send_def Let_def split: sum.splits prod.splits) (metis fst_conv)+
qed

text \<open>The handlers of the node only send.\<close>

lemma handlers_keep_inbox:
  assumes "fmlookup (p2p_handlers (node_p2p E I C cfg)) t = Some h" "h now p m nd = (nd', p', r)" "conn_ok C inbox"
  shows "inbox (peer_conn p') = inbox (peer_conn p)"
  using assms(1,2) Send_keeps_inbox [OF assms(3)]
  by (auto simp: node_handlers handleHello_def handleTx_def handleGetBlocks_def handleBlocks_def RequestBlocks_def Let_def
      split: if_splits sum.splits prod.splits outcome.splits bool.splits)

lemma readLoop_ends:
  assumes "conn_ok C inbox"
    and "\<And>t h now p m s s' p' r. fmlookup hs t = Some h \<Longrightarrow> h now p m s = (s', p', r) \<Longrightarrow> inbox (peer_conn p') = inbox (peer_conn p)"
    and "length (inbox (peer_conn p)) < 4 * n"
  shows "\<exists>x. readLoop n C hs clock p s = Some x"
  using assms(3)
proof (induction n arbitrary: p s)
  case (Suc n)
  obtain p1 r where rc: "peer_Receive C p = (p1, r)" by fastforce
  show ?case
  proof (cases r)
    case (Inl e)
    then show ?thesis using rc by simp
  next
    case (Inr m)
    have less: "length (inbox (peer_conn p1)) < 4 * n"
      using Receive_consumes [OF rc [unfolded Inr] assms(1)] Suc.prems by simp
    show ?thesis
    proof (cases "fmlookup hs (msg_Type m)")
      case None
      then show ?thesis using Suc.IH [OF less] rc Inr by simp
    next
      case (Some h)
      obtain s' p2 q where h: "h (clock n) p1 m s = (s', p2, q)" by (metis prod_cases3)
      then have "length (inbox (peer_conn p2)) < 4 * n" using assms(2) [OF Some h] less by simp
      then show ?thesis using Suc.IH rc Inr Some h by (cases q) simp_all
    qed
  qed
qed simp

section \<open>Blocks on the wire\<close>

lemma dec_enc_ptr_list:
  assumes "\<And>x. x \<in> set xs \<Longrightarrow> dec zero (enc x) = Inr (f x)" "\<And>x. enc x \<noteq> JNull"
  shows "dec_ptr_elems dec zero [] (map (enc_ptr enc) (map Some xs)) = Inr (map (\<lambda>x. Some (f x)) xs)"
  using assms(1) by (induction xs) (simp_all add: dec_ptr_def enc_ptr_def assms(2))

lemma dec_enc_blocks:
  assumes "\<forall>b\<in>set bs. stored_ok b"
  shows "dec_blocks (enc_blocks (Some (map Some bs))) = Inr (Some (map (\<lambda>b. Some (wire_block b)) bs))"
proof -
  have "dec_ptr_elems dec_block_into zero_block [] (map (enc_ptr enc_block) (map Some bs)) =
      Inr (map (\<lambda>b. Some (wire_block b)) bs)"
    by (rule dec_enc_ptr_list) (use assms dec_enc_block in \<open>simp_all add: dec_block_def enc_block_def\<close>)
  then show ?thesis
    by (simp add: dec_blocks_def enc_blocks_def blocks_field_def decode_struct_def plain_name_def enc_slice_def dec_ptrs_def)
qed

text \<open>A block in the answer to a request is nested three levels deeper than alone.\<close>

definition blocks_message :: "stored_block list \<Rightarrow> message" where
  "blocks_message bs = \<lparr>msg_Type = MsgBlocks, msg_Payload = Some (enc_blocks (Some (map Some bs)))\<rparr>"

lemma blocks_message_ok:
  assumes "\<forall>b\<in>set bs. stored_ok b \<and> jdepth (enc_block b) + 3 \<le> max_nesting"
  shows "message_ok (blocks_message bs)"
    "unmarshal_raw dec_blocks (msg_Payload (wire_message (blocks_message bs))) = Inr (Some (map (\<lambda>b. Some (wire_block b)) bs))"
proof -
  have "elems_depth (map (enc_ptr enc_block) (map Some bs)) \<le> max_nesting - 3"
    using assms by (auto simp: members_of_list enc_ptr_def comp_def)
  then have d: "jdepth (enc_blocks (Some (map Some bs))) < max_nesting"
    by (simp add: enc_blocks_def enc_slice_def max_nesting_def)
  have j: "json_ok (enc_blocks (Some (map Some bs)))"
    using assms enc_block_ok(1)
    by (auto simp: enc_blocks_def enc_slice_def members_of_list enc_ptr_def comp_def raw_ok_plain plain_name_def)
  show "message_ok (blocks_message bs)"
    using d j by (simp add: message_ok_def blocks_message_def MsgBlocks_def utf8_ok_ascii_all)
  show "unmarshal_raw dec_blocks (msg_Payload (wire_message (blocks_message bs))) = Inr (Some (map (\<lambda>b. Some (wire_block b)) bs))"
    using assms d j dec_enc_blocks [of bs]
    by (simp add: wire_message_def blocks_message_def enc_raw_def unmarshal_raw_def raw_valid_def)
qed

section \<open>Catching up over the wire\<close>

definition request_message :: "int64 \<Rightarrow> message" where
  "request_message h = \<lparr>msg_Type = MsgGetBlocks,
     msg_Payload = Some (enc_get_blocks \<lparr>gb_FromHeight = h, gb_Limit = 50\<rparr>)\<rparr>"

lemma print_nat_log: "n < 10 ^ Suc k \<Longrightarrow> length (print_nat n) \<le> Suc k"
proof (induction k arbitrary: n)
  case 0
  then show ?case by (subst print_nat.simps) simp
next
  case (Suc k)
  show ?case
  proof (cases "n < 10")
    case False
    have "n div 10 < 10 ^ Suc k" using Suc.prems by (simp add: less_mult_imp_div_less)
    from Suc.IH [OF this] False show ?thesis by (subst print_nat.simps) simp
  qed (subst print_nat.simps, simp)
qed

lemma print_int_length:
  assumes "in_int64 i"
  shows "length (print_int i) \<le> 20"
proof -
  have "nat \<bar>i\<bar> < 10 ^ Suc 18" using assms by (auto simp: in_int64_def nat_less_iff)
  from print_nat_log [OF this] show ?thesis by (auto simp: print_int_def)
qed

lemma quote_ascii: "quote_go [] = []" "byte_of c < (128 :: nat) \<Longrightarrow> esc_ascii c = [c] \<Longrightarrow> quote_go (c # s) = c # quote_go s"
  by (subst quote_go.simps; simp)+

lemma request_message_ok:
  assumes "in_int64 h"
  shows "message_ok (request_message h)" "length (marshal enc_message (request_message h)) \<le> max_message"
    "unmarshal_raw dec_get_blocks (msg_Payload (wire_message (request_message h))) =
      Inr \<lparr>gb_FromHeight = h, gb_Limit = 50\<rparr>"
proof -
  let ?j = "enc_get_blocks \<lparr>gb_FromHeight = h, gb_Limit = 50\<rparr>"
  have j: "json_ok ?j" "jdepth ?j = 1"
    by (simp_all add: enc_get_blocks_def enc_int64_def num_ok_print_int raw_ok_plain plain_name_def)
  show "message_ok (request_message h)"
    using j by (simp add: message_ok_def request_message_def MsgGetBlocks_def utf8_ok_ascii_all max_nesting_def)
  have "in_int64 50" by (simp add: in_int64_def)
  then have "dec_get_blocks ?j = Inr \<lparr>gb_FromHeight = h, gb_Limit = 50\<rparr>"
    using assms by (simp add: enc_get_blocks_def dec_get_blocks_def get_blocks_field_def decode_struct_def plain_name_def)
  then show "unmarshal_raw dec_get_blocks (msg_Payload (wire_message (request_message h))) =
      Inr \<lparr>gb_FromHeight = h, gb_Limit = 50\<rparr>"
    using j by (simp add: wire_message_def request_message_def enc_raw_def unmarshal_raw_def raw_valid_def max_nesting_def)
  have "quote_go MsgGetBlocks = MsgGetBlocks" by (simp add: MsgGetBlocks_def quote_ascii esc_ascii_def)
  then show "length (marshal enc_message (request_message h)) \<le> max_message"
    using print_int_length [OF assms] print_int_length [OF \<open>in_int64 50\<close>]
    by (simp add: marshal_def enc_message_def request_message_def enc_raw_def enc_string_def max_message_def)
      (simp add: enc_get_blocks_def enc_int64_def MsgGetBlocks_def)
qed

lemma wire_block_idem [simp]: "wire_block (wire_block b) = wire_block b" "enc_block (wire_block b) = enc_block b"
proof -
  have w: "wire_form (wire_form tx) = wire_form tx" for tx by (simp add: wire_form_def)
  then have p: "wire_form \<circ> wire_form = wire_form" by auto
  show "wire_block (wire_block b) = wire_block b"
    by (simp add: wire_block_def option.map_comp list.map_comp comp_def w cong: option.map_cong list.map_cong)
  have "enc_ptr enc_transaction (map_option wire_form q) = enc_ptr enc_transaction q" for q
    by (cases q) (simp_all add: enc_ptr_def)
  then show "enc_block (wire_block b) = enc_block b"
    by (cases "sb_Transactions b") (simp_all add: wire_block_def enc_block_def enc_slice_def)
qed

lemma stored_ok_wire: "stored_ok b \<Longrightarrow> stored_ok (wire_block b)"
proof -
  assume b: "stored_ok b"
  have t: "tx_ok (wire_form tx) \<and> enc_raw (tx_Payload (wire_form tx)) = enc_raw (tx_Payload tx)" if "tx_ok tx" for tx
    using that by (cases "tx_Payload tx") (auto simp: tx_ok_def wire_form_def enc_raw_def html_json_ok max_nesting_def)
  have "\<exists>tx'. Some tx' \<in> set (sb_list b) \<and> tx = wire_form tx'" if "Some tx \<in> set (sb_list (wire_block b))" for tx
    using that by (cases "sb_Transactions b") (auto simp: wire_block_def sb_list_def map_option_eq_Some dest!: sym [of "Some tx"])
  with b t show ?thesis by (auto simp: stored_ok_def) metis+
qed

lemma linked_prefix: "linked (xs @ ys) \<Longrightarrow> linked xs"
proof (induction xs rule: linked.induct)
  case (3 b c xs)
  then show ?case by simp
qed simp_all

context healthy_db
begin

text \<open>The loop of \<open>handleGetBlocks\<close> finds the blocks above a height.\<close>

lemma collect_chain:
  assumes "ldb_chain \<alpha> bc (bs @ cs)" "bs \<noteq> []" "length cs \<le> n" "h = sb_Height (last bs) + 1"
    and "in_int64 h" "in_int64 (h + int n)"
  shows "collect_blocks (LevelBlockStore I) bc (h + int n) n h = map wire_block cs"
  using assms
proof (induction cs arbitrary: bs n h)
  case Nil
  have "h \<notin> sb_Height ` set bs"
    using Nil.prems(1,4) linked_height_le_last [of bs] by (force simp: chain_holds_def)
  then have "stored_heights (\<alpha> (bc_store bc)) h = None" using Nil.prems(1) by (auto simp: chain_holds_def)
  then have "\<exists>e. bc_GetBlockByHeight (LevelBlockStore I) bc h = Inl e"
    by (simp add: bc_GetBlockByHeight_def LevelBlockStore_def lbs_GetBlockByHeight_def healthy_get [OF healthy]
        stored_heights_def)
  then show ?case by (cases n) auto
next
  case (Cons c cs)
  then obtain m where n: "n = Suc m" by (cases n) auto
  have l: "linked (bs @ c # cs)" using Cons.prems(1) by (simp add: chain_holds_def)
  then have "linked ((bs @ [c]) @ cs)" by simp
  then have "linked (bs @ [c])" by (rule linked_prefix)
  then have c: "sb_Height c = h" using Cons.prems(2,4) by (simp add: linked_snoc)
  have g: "bc_GetBlockByHeight (LevelBlockStore I) bc h = Inr (wire_block c)"
    using chain_Get(2) [OF Cons.prems(1), of c] c by simp
  have w: "wrap64 (h + 1) = h + 1" using Cons.prems(5,6) n by (intro wrap64_id) (simp add: in_int64_def)
  have "collect_blocks (LevelBlockStore I) bc (h + 1 + int m) m (h + 1) = map wire_block cs"
    using Cons.prems n c by (intro Cons.IH [of "bs @ [c]"]) (simp_all add: in_int64_def)
  then show ?case using n g w by (simp add: algebra_simps)
qed

end

lemma readLoop_one:
  assumes "conn_works C inbox outbox" "message_ok m" "length (marshal enc_message m) \<le> max_message"
    and "inbox (peer_conn p) = frame m" "fmlookup hs (msg_Type m) = Some h"
    and "\<And>c. outbox c = outbox (peer_conn p) \<Longrightarrow> inbox c = [] \<Longrightarrow> \<exists>c'. h (clock 1) (p\<lparr>peer_conn := c\<rparr>) (wire_message m) s =
      (s', p\<lparr>peer_conn := c'\<rparr>, Ok ()) \<and> inbox c' = [] \<and> outbox c' = outbox c @ x"
  shows "\<exists>p'. readLoop 2 C hs clock p s = Some (s', p', Ok ()) \<and> outbox (peer_conn p') = outbox (peer_conn p) @ x"
proof -
  have l: "length (marshal enc_message m) < 2 ^ 32" using assms(3) by (simp add: max_message_def)
  obtain c where c: "peer_Receive C p = (p\<lparr>peer_conn := c\<rparr>, Inr (wire_message m))" "inbox c = []" "outbox c = outbox (peer_conn p)"
    using Receive_works [OF assms(1,2) l, of p "[]"] assms(3,4) by auto
  obtain c' where c': "h (clock 1) (p\<lparr>peer_conn := c\<rparr>) (wire_message m) s = (s', p\<lparr>peer_conn := c'\<rparr>, Ok ())"
    "inbox c' = []" "outbox c' = outbox c @ x"
    using assms(6) [OF c(3,2)] by blast
  obtain c2 r where r: "conn_ReadFull C c' 4 = (c2, r)" by fastforce
  have "r \<noteq> Inr d" for d
    using r c'(2) assms(1) unfolding conn_works_def conn_ok_def by (metis append_is_Nil_conv list.size(3) zero_neq_numeral)
  then obtain e where e: "conn_ReadFull C c' 4 = (c2, Inl e)" using r by (cases r) auto
  have o: "outbox c2 = outbox c'" "outbox (conn_Close C c2) = outbox c2"
    using assms(1) e unfolding conn_works_def by (metis fst_conv)+
  have "peer_Receive C (p\<lparr>peer_conn := c'\<rparr>) = (p\<lparr>peer_conn := c2\<rparr>, Inl e)"
    using e assms(1) by (simp add: peer_Receive_def conn_works_def)
  moreover have "msg_Type (wire_message m) = msg_Type m" by (simp add: wire_message_def)
  ultimately show ?thesis
    using c c' o assms(5) by (auto simp: numeral_2_eq_2 peer_Close_def)
qed

text \<open>The node that is asked answers with the blocks above the height, up to 50 of them.\<close>

lemma serve_blocks:
  assumes "healthy_db I \<alpha>" "conn_works C inbox outbox" "\<not> peer_closed p"
    and "ldb_chain \<alpha> (nd_chain nd) (bs @ cs)" "bs \<noteq> []" "length cs \<le> 50"
    and "h = sb_Height (last bs) + 1" "in_int64 h" "in_int64 (h + 50)" "inbox (peer_conn p) = frame (request_message h)"
  shows "\<exists>p'. readLoop 2 C (p2p_handlers (node_p2p E I C cfg)) clock p nd = Some (nd, p', Ok ()) \<and>
    outbox (peer_conn p') = outbox (peer_conn p) @ frame (blocks_message (map wire_block cs))"
proof (rule readLoop_one [OF assms(2) request_message_ok(1,2) [OF assms(8)] assms(10)])
  show "fmlookup (p2p_handlers (node_p2p E I C cfg)) (msg_Type (request_message h)) = Some (handleGetBlocks (LevelBlockStore I) C)"
    by (simp add: node_handlers request_message_def msg_type_defs)
  fix c
  assume "inbox c = []"
  have "collect_blocks (LevelBlockStore I) (nd_chain nd) (h + int 50) 50 h = map wire_block cs"
    by (rule healthy_db.collect_chain [OF assms(1,4,5)]) (use assms(6-9) in simp_all)
  moreover have "wrap64 (h + 50) = h + 50" using assms(9) by (rule wrap64_id)
  ultimately have "handleGetBlocks (LevelBlockStore I) C (clock 1) (p\<lparr>peer_conn := c\<rparr>) (wire_message (request_message h)) nd =
      (nd, fst (peer_Send C (blocks_message (map wire_block cs)) (p\<lparr>peer_conn := c\<rparr>)), Ok ())"
    using request_message_ok(3) [OF assms(8)] by (simp add: handleGetBlocks_def Let_def blocks_message_def)
  with Send_works [OF assms(2), of "p\<lparr>peer_conn := c\<rparr>" "blocks_message (map wire_block cs)"] assms(3) \<open>inbox c = []\<close>
  show "\<exists>c'. handleGetBlocks (LevelBlockStore I) C (clock 1) (p\<lparr>peer_conn := c\<rparr>) (wire_message (request_message h)) nd =
      (nd, p\<lparr>peer_conn := c'\<rparr>, Ok ()) \<and> inbox c' = [] \<and> outbox c' = outbox c @ frame (blocks_message (map wire_block cs))"
    by auto
qed

text \<open>The node that asked executes them; after a full answer it asks again.\<close>

lemma follow_blocks:
  assumes "conn_works C inbox outbox" "\<not> peer_closed p" "\<forall>b\<in>set cs. stored_ok b \<and> jdepth (enc_block b) + 3 \<le> max_nesting"
    and "length (marshal enc_message (blocks_message (map wire_block cs))) \<le> max_message"
    and "inbox (peer_conn p) = frame (blocks_message (map wire_block cs))"
    and "sync_blocks E J (LevelBlockStore J) (node_emitter J) (clock 1) cfg (map (\<lambda>b. Some (wire_block b)) cs) nd = (nd', Ok True)"
  shows "\<exists>p'. readLoop 2 C (p2p_handlers (node_p2p E J C cfg)) clock p nd = Some (nd', p', Ok ())"
proof -
  let ?bs = "map wire_block cs"
  have ok: "\<forall>b\<in>set ?bs. stored_ok b \<and> jdepth (enc_block b) + 3 \<le> max_nesting" using assms(3) stored_ok_wire by simp
  define x where "x = (if 50 \<le> length cs then frame (request_message (wrap64 (bc_height (nd_bc nd') + 1))) else [])"
  have "\<exists>p'. readLoop 2 C (p2p_handlers (node_p2p E J C cfg)) clock p nd = Some (nd', p', Ok ()) \<and>
      outbox (peer_conn p') = outbox (peer_conn p) @ x"
  proof (rule readLoop_one [OF assms(1) blocks_message_ok(1) [OF ok] assms(4,5)])
    let ?h = "handleBlocks E J (LevelBlockStore J) (node_emitter J) cfg C"
    show "fmlookup (p2p_handlers (node_p2p E J C cfg)) (msg_Type (blocks_message ?bs)) = Some ?h"
      by (simp add: node_handlers blocks_message_def msg_type_defs)
    fix c
    assume i: "inbox c = []"
    have d: "unmarshal_raw dec_blocks (msg_Payload (wire_message (blocks_message ?bs))) = Inr (Some (map (\<lambda>b. Some (wire_block b)) cs))"
      using blocks_message_ok(2) [OF ok] by (simp add: comp_def)
    show "\<exists>c'. ?h (clock 1) (p\<lparr>peer_conn := c\<rparr>) (wire_message (blocks_message ?bs)) nd =
        (nd', p\<lparr>peer_conn := c'\<rparr>, Ok ()) \<and> inbox c' = [] \<and> outbox c' = outbox c @ x"
    proof (cases "50 \<le> length cs")
      case True
      then show ?thesis
        using Send_works [OF assms(1), of "p\<lparr>peer_conn := c\<rparr>" "request_message (wrap64 (bc_height (nd_bc nd') + 1))"]
          assms(2,6) d i by (auto simp: handleBlocks_def Let_def x_def RequestBlocks_def request_message_def)
    next
      case False
      then show ?thesis using assms(6) d i by (intro exI [of _ c]) (simp add: handleBlocks_def Let_def x_def)
    qed
  qed
  then show ?thesis by blast
qed

end
