(* ===== verification/NodeTheorems.thy ===== *)
theory NodeTheorems
  imports Frames
begin

text \<open>
  The ledger of a running node: its supply and history in every run, that a tick goes on, and a sample run
  with a message from a peer.
\<close>

section \<open>Runs of the node\<close>

context healthy_db
begin

lemma node_supply:
  assumes "node_holds E I \<alpha> em s0 h bs nd" "state_ok E I s0" "buf_ok s0"
  shows "state_ok E I (nd_state nd)" "total_supply I (nd_state nd) = total_supply I s0" "distinct (map sender_nonce h)"
proof -
  have l: "ledger E I (Some em) s0 h (nd_state nd)" and p: "\<forall>bt\<in>set h. hdr_Proposer (blk_Header (fst bt)) \<noteq> []"
    using assms(1) by (simp_all add: node_holds_def)
  have "sum_list (map (\<lambda>(block, tx). burned_fee block tx) h) = 0"
    using p by (induction h) (auto simp: burned_fee_def)
  then show "total_supply I (nd_state nd) = total_supply I s0" using ledger_supply [OF l assms(2,3)] by linarith
  show "state_ok E I (nd_state nd)" using ledger_ok [OF l assms(2,3)] by blast
  show "distinct (map sender_nonce h)" using ledger_nonces [OF l assms(2,3)] by simp
qed

end

lemma ProduceBlock_Fatal:
  assumes "ProduceBlock E I B em now cfg priv nd = (nd', Fatal)"
  shows "\<exists>s s' e. Commit E I s = (s', Inl e)"
  using assms by (auto simp: ProduceBlock_def Let_def split: option.splits bool.splits prod.splits sum.splits)

lemma ProduceBlock_Panic:
  assumes "ProduceBlock E I B em now cfg priv nd = (nd', Panic)"
  shows "IsProposer E cfg priv nd = None \<or>
    pool_Pending (if cfg_MaxBlockTxs cfg \<le> 0 then 500 else cfg_MaxBlockTxs cfg) (nd_pool nd) = None"
  using assms by (auto simp: ProduceBlock_def Let_def split: option.splits bool.splits prod.splits sum.splits)

text \<open>With a store that works, a tick never ends the process.\<close>

lemma tick_goes_on:
  assumes "working_db I \<alpha>" "cfg_Validators cfg \<noteq> []" "0 \<le> wrap64 (bc_height (nd_bc nd) + 1)" "pool_ok E (nd_pool nd)"
  shows "\<exists>nd' ob. poa_tick E I B em now cfg priv nd = (nd', Ok ob)"
proof -
  obtain txs where t: "pool_Pending (if cfg_MaxBlockTxs cfg \<le> 0 then 500 else cfg_MaxBlockTxs cfg) (nd_pool nd) = Some txs"
    using pool_Pending_take [OF assms(4)] by (metis linorder_not_le zero_less_numeral)
  have p: "\<exists>x. IsProposer E cfg priv nd = Some x"
    using assms(2,3) by (simp add: IsProposer_def proposer_at_mod)
  have "snd (ProduceBlock E I B em now cfg priv nd) \<noteq> Fatal \<and> snd (ProduceBlock E I B em now cfg priv nd) \<noteq> Panic"
    using t p ProduceBlock_Fatal [of E I B em now cfg priv nd] ProduceBlock_Panic [of E I B em now cfg priv nd]
      working_db.Commit_works [OF assms(1), of E] by (metis Pair_inject option.distinct(1) prod.collapse sum.distinct(1))
  then show ?thesis
    using p by (cases "ProduceBlock E I B em now cfg priv nd"; cases "snd (ProduceBlock E I B em now cfg priv nd)")
      (auto simp: poa_tick_def split: bool.split)
qed

text \<open>A connection in memory: what can still be read, and what was written.\<close>

record pipe =
  pipe_in :: bytes
  pipe_out :: bytes

definition pipe_conn :: "pipe conn_iface" where
  "pipe_conn = \<lparr>conn_SetWriteDeadline = (\<lambda>c. Inr ()),
     conn_Write = (\<lambda>c d. (c\<lparr>pipe_out := pipe_out c @ d\<rparr>, Inr ())),
     conn_SetReadDeadline = (\<lambda>c. Inr ()),
     conn_ReadFull = (\<lambda>c n. if n \<le> length (pipe_in c) then (c\<lparr>pipe_in := drop n (pipe_in c)\<rparr>, Inr (take n (pipe_in c)))
       else (c, Inl (Errorf ''EOF''))),
     conn_Close = (\<lambda>c. c)\<rparr>"

lemma pipe_works: "conn_works pipe_conn pipe_in pipe_out"
  by (auto simp: conn_works_def conn_ok_def pipe_conn_def split: if_splits)

lemma pipe_ok: "conn_ok pipe_conn pipe_in"
  using pipe_works by (simp add: conn_works_def)

text \<open>The sample machine: its first start, a transaction from a peer, a tick.\<close>

lemma sample_machine: "machine_ok sample_env sample_config alice_key"
proof -
  have "alice \<noteq> []" using key_length by (auto simp: Hex_def)
  then show ?thesis by (simp add: machine_ok_def sample_config_def utf8_ok_ascii_all)
qed

lemma mem_open:
  obtains d nd g where "open_chain E mem now cfg priv fmempty = (d, Ok nd)" "bc_tip (nd_bc nd) = Some (store_form True g)"
    "bc_height (nd_bc nd) = 0" "hdr_Height (blk_Header g) = 0" "hdr_Timestamp (blk_Header g) = now"
    "hdr_ChainID (blk_Header g) = gen_ChainID (cfg_Genesis cfg)" "blk_Hash g = ComputeHash E g" "nd_pool nd = NewMempool"
    "nd_state nd = NewStateDB d"
proof -
  obtain s g where g: "CreateGenesisBlock E mem now cfg priv (NewStateDB fmempty) = (s, Inr g)"
    using mem_Commit [of E sample_env] unfolding CreateGenesisBlock_Inr by fastforce
  have i: "bc_Init (LevelBlockStore mem) (NewBlockchain fmempty) = (NewBlockchain fmempty, Inr ())"
    by (simp add: bc_Init_def NewBlockchain_def LevelBlockStore_def lbs_GetTip_def mem.healthy_get [OF mem.healthy])
  obtain bc where bc: "bc_AddBlock (LevelBlockStore mem) (store_form True g) ((NewBlockchain fmempty)\<lparr>bc_store := sdb_db s\<rparr>) = (bc, Inr ())"
    using mem_AddBlock_first [of "store_form True g" "sdb_db s"] by (auto simp: NewBlockchain_def)
  have "bc_height bc = hdr_Height (blk_Header g)" "bc_tip bc = Some (store_form True g)"
    using bc by (auto simp: bc_AddBlock_def NewBlockchain_def store_form_def Let_def split: prod.splits sum.splits)
  moreover have "hdr_Height (blk_Header g) = 0" "hdr_Timestamp (blk_Header g) = now"
    "hdr_ChainID (blk_Header g) = gen_ChainID (cfg_Genesis cfg)" "blk_Hash g = ComputeHash E g"
    using g by (auto simp: CreateGenesisBlock_Inr)
  moreover have "s\<lparr>sdb_db := x\<rparr> = NewStateDB x" for x
    using g by (auto simp: CreateGenesisBlock_Inr Commit_def NewStateDB_def split: prod.splits sum.splits)
  ultimately show thesis using g i bc that by (simp add: open_chain_def NewBlockchain_def)
qed

definition tx_message :: "transaction \<Rightarrow> message" where
  "tx_message tx = \<lparr>msg_Type = MsgTx, msg_Payload = Some (enc_transaction tx)\<rparr>"

lemma tx_message_received:
  assumes "tx_ok tx" "jdepth (enc_raw (tx_Payload tx)) + 3 \<le> max_nesting"
    and "length (marshal enc_message (tx_message tx)) \<le> max_message"
  shows "message_ok (tx_message tx)" "received (wire_message (tx_message tx))" "not_too_deep (msg_Payload (wire_message (tx_message tx)))"
    "unmarshal_raw dec_transaction (msg_Payload (wire_message (tx_message tx))) = Inr (wire_form tx)"
proof -
  have d: "json_ok (enc_transaction tx)" "jdepth (enc_transaction tx) = Suc (jdepth (enc_raw (tx_Payload tx)))"
    using enc_transaction_ok(1) [OF assms(1)] by (simp_all add: enc_transaction_def)
  show ok: "message_ok (tx_message tx)"
    using d assms(2) by (simp add: message_ok_def tx_message_def MsgTx_def utf8_ok_ascii_all)
  show "received (wire_message (tx_message tx))"
    using unmarshal_message [OF ok] assms(3) unfolding received_def by blast
  show "not_too_deep (msg_Payload (wire_message (tx_message tx)))"
    using d assms(2) by (simp add: not_too_deep_def wire_message_def tx_message_def enc_raw_def)
  show "unmarshal_raw dec_transaction (msg_Payload (wire_message (tx_message tx))) = Inr (wire_form tx)"
    using d assms dec_enc_transaction [OF assms(1)]
    by (simp add: wire_message_def tx_message_def enc_raw_def unmarshal_raw_def raw_valid_def)
qed

lemma quote_tx [simp]: "quote_go ''tx'' = ''tx''"
  by (simp add: quote_ascii esc_ascii_def)

lemma quote_Sign [simp]: "quote_go (Sign E priv d) = Sign E priv d"
  by (rule quote_hex) (auto simp: Sign_def hex_encode_hex)

lemma pay_bob_ID_length: "length (tx_ID pay_bob) < 1000"
  by (simp add: pay_bob_def sample_tx_ID size_simps TxTransfer_def html_raw.simps transfer_payload_json_def)

lemma pay_bob_fields: "tx_ChainID pay_bob = ''tolchain''" "tx_Type pay_bob = ''transfer''" "tx_From pay_bob = alice"
  "tx_Nonce pay_bob = 0" "tx_Fee pay_bob = 1" "tx_Timestamp pay_bob = 5" "tx_Payload pay_bob = Some (transfer_payload_json bob 7)"
  "tx_Signature pay_bob = Sign sample_env alice_key (tx_ID pay_bob)" "quote_go (tx_ID pay_bob) = tx_ID pay_bob"
  by (simp_all add: pay_bob_def TxTransfer_def)
    (simp_all add: sample_tx_def tx_Sign_def sample_unsigned_def tx_Hash_def Let_def)

lemma pay_bob_message: "length (marshal enc_message (tx_message pay_bob)) \<le> max_message"
proof -
  have "length (Sign sample_env alice_key (tx_ID pay_bob)) = 64 + 2 * length (tx_ID pay_bob)" by (simp add: Sign_def)
  moreover have "length (print_json (enc_raw (Some (transfer_payload_json bob 7)))) < 1000"
    by (simp add: enc_raw_def transfer_payload_json_def enc_string_def enc_uint64_def print_nat_digit html_plain)
  moreover have "enc_raw (Some (enc_transaction pay_bob)) = enc_transaction pay_bob" by (simp add: enc_raw_def)
  ultimately show ?thesis
    using pay_bob_ID_length print_int_length [of 5]
    by (simp add: marshal_def enc_message_def tx_message_def MsgTx_def enc_string_def max_message_def)
      (simp add: enc_transaction_def enc_string_def enc_uint64_def enc_int64_def pay_bob_fields print_nat_digit in_int64_def)
qed

lemma pay_bob_depth: "jdepth (enc_raw (tx_Payload pay_bob)) + 3 \<le> max_nesting"
  by (simp add: pay_bob_fields enc_raw_def transfer_payload_json_def enc_string_def enc_uint64_def max_nesting_def)

lemma wire_pay_bob_added:
  "pool_Add sample_env 5 (wire_form pay_bob) NewMempool = (fst (pool_Add sample_env 5 (wire_form pay_bob) NewMempool), Inr ())"
proof -
  have "tx_ID (wire_form pay_bob) = tx_ID pay_bob" "tx_Timestamp (wire_form pay_bob) = 5"
    by (simp_all add: wire_form_def pay_bob_fields)
  then show ?thesis by (simp add: pool_Add_def NewMempool_def pool_Size_def mempool_consts fcard_fempty)
qed

text \<open>The sample run: the first start, then a transaction from a peer, then a tick of the producer.\<close>

lemma sample_node_run:
  obtains d nd T nd' where "open_chain sample_env mem 1 sample_config alice_key fmempty = (d, Ok nd)"
    "node_run sample_env mem pipe_conn sample_config alice_key T nd nd'"
proof -
  obtain d nd where o: "open_chain sample_env mem 1 sample_config alice_key fmempty = (d, Ok nd)"
    "bc_height (nd_bc nd) = 0" "nd_pool nd = NewMempool" by (rule mem_open)
  define nd1 where "nd1 = nd\<lparr>nd_pool := fst (pool_Add sample_env 5 (wire_form pay_bob) NewMempool)\<rparr>"
  note m = tx_message_received [OF pay_bob_ok pay_bob_depth pay_bob_message]
  have t: "msg_Type (wire_message (tx_message pay_bob)) = MsgTx" by (simp add: wire_message_def tx_message_def)
  have h: "handleTx sample_env 5 p (wire_message (tx_message pay_bob)) nd = (nd1, p, Ok ())" for p :: "pipe peer"
    using m(4) o(3) by (simp add: handleTx_def nd1_def)
  have "node_step sample_env mem pipe_conn sample_config alice_key (offered (wire_message (tx_message pay_bob))) nd nd1"
    by (rule step_message [where f = "handleTx sample_env" and now = 5, OF m(2) _ _ h [of undefined]])
      (simp_all add: m(3) t node_handlers msg_type_defs)
  from run_step [OF run_start this]
  obtain S where r: "node_run sample_env mem pipe_conn sample_config alice_key S nd nd1" by blast
  have p: "pool_ok sample_env (nd_pool nd1)"
    using pool_Add_ok(1) [OF NewMempool_ok(1) wire_pay_bob_added] by (simp add: nd1_def)
  have v: "cfg_Validators sample_config \<noteq> []" "0 \<le> wrap64 (bc_height (nd_bc nd1) + 1)"
    using o(2) by (simp_all add: sample_config_def nd1_def wrap64_def)
  obtain nd' ob where
    "poa_tick sample_env mem (LevelBlockStore mem) (node_emitter mem) 10 sample_config alice_key nd1 = (nd', Ok ob)"
    using tick_goes_on [OF mem.working_db_axioms v p] by blast
  from run_step [OF r step_tick [OF _ this]] that o(1) show thesis by (simp add: in_int64_def)
qed

end
