(* ===== verification/NetTheorems.thy ===== *)
theory NetTheorems
  imports NodeTheorems
begin

text \<open>
  Connections and peers: frames arrive as they were sent, the loop of a connection ends, a block of a peer
  is taken whole or not at all, and a node that asks another one catches up with it.
\<close>

section \<open>Connections\<close>

text \<open>
  C25. What one peer sends the other receives: on a working connection \<open>Send\<close> succeeds, and \<open>Receive\<close> at
  the other end returns the message with its payload in marshalled form and leaves what follows to be read; a
  message of more than 10 MB is sent all the same, but refused by its receiver.
\<close>

theorem frame_roundtrip:
  assumes "conn_works C inbox outbox" "message_ok m" "length (marshal enc_message m) < 2 ^ 32" "\<not> peer_closed p"
    and "peer_Send C m p = (p', r)" "outbox (peer_conn p') = outbox (peer_conn p) @ sent" "inbox (peer_conn q) = sent @ rest"
  shows "r = Inr () \<and> (\<exists>q'. peer_Receive C q =
      (q', if length (marshal enc_message m) \<le> max_message then Inr (wire_message m) else Inl (Errorf ''message too large'')) \<and>
    (length (marshal enc_message m) \<le> max_message \<longrightarrow> inbox (peer_conn q') = rest))"
proof -
  have s: "r = Inr ()" "sent = frame m" using Send_works [OF assms(1,4), of m] assms(5,6) by auto
  from Receive_works [OF assms(1-3), of q rest] assms(7) s(2)
  obtain c where "peer_Receive C q = (q\<lparr>peer_conn := c\<rparr>,
      if length (marshal enc_message m) \<le> max_message then Inr (wire_message m) else Inl (Errorf ''message too large''))"
    "length (marshal enc_message m) \<le> max_message \<longrightarrow> inbox c = rest" by auto
  then show ?thesis using s(1) by (intro conjI exI [of _ "q\<lparr>peer_conn := c\<rparr>"]) simp_all
qed

definition sample_peer :: "bytes \<Rightarrow> pipe peer" where
  "sample_peer inp = NewPeer ''seed'' ''127.0.0.1:7000'' \<lparr>pipe_in = inp, pipe_out = []\<rparr>"

lemma sample_peer_simps [simp]:
  "\<not> peer_closed (sample_peer x)" "pipe_in (peer_conn (sample_peer x)) = x" "pipe_out (peer_conn (sample_peer x)) = []"
  by (simp_all add: sample_peer_def NewPeer_def)

theorem frame_roundtrip_witness:
  "\<exists>p q. peer_Send pipe_conn (tx_message pay_bob) (sample_peer []) = (p, Inr ()) \<and>
     peer_Receive pipe_conn (sample_peer (pipe_out (peer_conn p) @ ''next'')) = (q, Inr (wire_message (tx_message pay_bob))) \<and>
     pipe_in (peer_conn q) = ''next''"
proof -
  note m = pay_bob_message tx_message_received(1) [OF pay_bob_ok pay_bob_depth pay_bob_message]
  have l: "length (marshal enc_message (tx_message pay_bob)) < 2 ^ 32" using m(1) by (simp add: max_message_def)
  obtain p r where p: "peer_Send pipe_conn (tx_message pay_bob) (sample_peer []) = (p, r)" by fastforce
  from frame_roundtrip [OF pipe_works m(2) l _ p, of "pipe_out (peer_conn p)" "sample_peer (pipe_out (peer_conn p) @ ''next'')" "''next''"]
  show ?thesis using p m(1) by auto
qed

text \<open>
  C26. The loop that reads a connection ends, whatever arrives on it and whatever fails: with as much fuel as
  there are bytes to be read it returns, because each message takes at least the four bytes of its header and
  the node's handlers only write.
\<close>

theorem readLoop_returns:
  assumes "conn_ok C inbox" "length (inbox (peer_conn p)) < 4 * n"
  shows "\<exists>nd' p' r. readLoop n C (p2p_handlers (node_p2p E I C cfg)) clock p nd = Some (nd', p', r)"
proof -
  have "\<exists>x. readLoop n C (p2p_handlers (node_p2p E I C cfg)) clock p nd = Some x"
    by (rule readLoop_ends [where inbox = inbox, OF assms(1) _ assms(2)]) (rule handlers_keep_inbox [OF _ _ assms(1)])
  then obtain x where "readLoop n C (p2p_handlers (node_p2p E I C cfg)) clock p nd = Some x" by blast
  then show ?thesis by (cases x) blast
qed

theorem readLoop_returns_witness:
  "\<exists>nd' p' r. readLoop 7 pipe_conn (p2p_handlers (node_p2p sample_env mem pipe_conn sample_config)) (\<lambda>n. 5)
     (sample_peer ''{not a frame, only bytes}'') sample_node = Some (nd', p', r)"
  by (rule readLoop_returns [OF pipe_ok]) simp

section \<open>Blocks of peers\<close>

context healthy_db
begin

lemma execute_reads:
  assumes "ExecuteBlock E I (Some em) blk (fst (Snapshot s)) = (s2, x)" "index_emitter \<alpha> em"
  shows "reads I (s\<lparr>sdb_db := sdb_db s2\<rparr>) = reads I s"
proof (rule reads_keeps)
  have "index_step \<alpha> (sdb_db (fst (Snapshot s))) (sdb_db s2)"
    using execute_txs_index assms unfolding ExecuteBlock_def index_events_def by blast
  then show "db_keeps I (sdb_db s) (sdb_db s2)" by (simp add: Snapshot_simps index_step_keeps)
qed

lemma sync_block_whole:
  assumes "buf_ok (nd_state nd)"
    and "sync_block E I (LevelBlockStore I) (node_emitter I) now cfg (Some b) nd = (nd', r)" "r \<noteq> Fatal"
  shows "nd_pool nd' = nd_pool nd \<and>
    (reads I (nd_state nd') = reads I (nd_state nd) \<and> bc_tip (nd_bc nd') = bc_tip (nd_bc nd) \<and>
       bc_height (nd_bc nd') = bc_height (nd_bc nd) \<and> sdb_dirty (nd_state nd') = sdb_dirty (nd_state nd) \<and>
       sdb_deleted (nd_state nd') = sdb_deleted (nd_state nd) \<or>
     r = Ok True \<and> ValidateBlock E now cfg (bc_tip (nd_bc nd)) b = Ok () \<and> bc_tip (nd_bc nd') = Some b \<and>
       nd_state nd' = NewStateDB (sdb_db (nd_state nd')) \<and>
       hdr_StateRoot (sb_Header b) \<in> {[], ComputeRoot E I (nd_state nd')})"
  using assms(2)
proof (cases rule: sync_block_cases)
  case refused
  then show ?thesis by simp
next
  case (reverted blk s2 x)
  then show ?thesis using execute_reads [OF reverted(3) node_emitter_index] by simp
next
  case (not_added blk s2 bc e)
  have "bc_tip bc = bc_tip (nd_bc nd) \<and> bc_height bc = bc_height (nd_bc nd)"
    using lbs.AddBlock_error [OF not_added(5)] by (simp add: nd_chain_def)
  moreover have "reads I ((nd_state nd)\<lparr>sdb_db := bc_store bc\<rparr>) = reads I (nd_state nd)"
    using execute_reads [OF not_added(3) node_emitter_index]
      reads_AddBlock [OF not_added(5), of "(nd_state nd)\<lparr>sdb_db := sdb_db s2\<rparr>"] by (simp add: nd_chain_def)
  ultimately show ?thesis using not_added(6) by simp
next
  case (added blk s2 bc s3 x)
  have x: "x = Inr ()" using added(8) assms(3) by (cases x) auto
  have b2: "buf_ok s2" using execute_txs_buf_ok added(3) assms(1) unfolding ExecuteBlock_def by fastforce
  have c: "Commit E I (s2\<lparr>sdb_db := bc_store bc\<rparr>) = (s3, Inr ())" using added(6) x by simp
  have a: "bc_AddBlock (LevelBlockStore I) b ((nd_bc nd)\<lparr>bc_store := sdb_db s2\<rparr>) = (bc, Inr ())"
    using added(5) by (simp add: nd_chain_def)
  note p = produced_reads [OF a _ b2 c]
  have "sdb_ok (s2\<lparr>sdb_db := bc_store bc\<rparr>)" using b2 by (simp add: buf_ok_def sdb_ok_def)
  from Commit_ok(1) [OF this c] have "s3 = NewStateDB (sdb_db s3)" .
  moreover have "ComputeRoot E I s3 = ComputeRoot E I s2"
    by (rule ComputeRoot_reads [OF healthy_db_axioms healthy_db_axioms p(2) b2 p(1)]) simp_all
  ultimately show ?thesis using added x p(3) by (auto simp: nd_set_chain_def)
qed

end


lemma agree_self: "buf_ok (nd_state nd) \<Longrightarrow> bc_height (nd_bc nd) = tip_height (bc_tip (nd_bc nd)) \<Longrightarrow> agree I I nd nd"
  by (simp add: agree_def option.rel_refl)

lemma node_emitter_ok: "healthy_db I \<alpha> \<Longrightarrow> emitter_ok I (node_emitter I)"
  by (rule healthy_db.index_emitter_ok [OF _ healthy_db.node_emitter_index])


section \<open>Catching up\<close>

lemma producing_stored: "producing E I em cfg priv limit A blks A' \<Longrightarrow> b \<in> set blks \<Longrightarrow> stored_ok (store_form False b)"
  by (induction rule: producing.induct) auto

text \<open>
  An environment with digests of bounded length, which keep the heights of two headers apart; in it a node
  starts, and its first block has no transactions.
\<close>

definition short_env :: env where
  "short_env = sample_env\<lparr>sha256 := take 64\<rparr>"

lemma short_env_simps [simp]:
  "sha256 short_env = take 64" "Public short_env k = Public sample_env k" "ed25519_sign short_env = ed25519_sign sample_env"
  "ed25519_ok short_env" "runtime_ok short_env"
  by (simp_all add: short_env_def Public_def ed25519_ok_def runtime_ok_def float_law_def)

lemma mem_produce_next:
  assumes "IsProposer E cfg priv nd = Some True" "bc_tip (nd_bc nd) = Some t" "sb_Height t = 0" "bc_height (nd_bc nd) = 0"
    and "nd_pool nd = NewMempool"
  obtains nd' b where "ProduceBlock E mem (LevelBlockStore mem) em now cfg priv nd = (nd', Ok b)" "blk_Transactions b = []"
    "blk_Header b = \<lparr>hdr_ChainID = gen_ChainID (cfg_Genesis cfg), hdr_Height = 1, hdr_PrevHash = sb_Hash t,
      hdr_StateRoot = ComputeRoot E mem (nd_state nd), hdr_TxRoot = ComputeTxRoot E [], hdr_Timestamp = now,
      hdr_Proposer = Hex (Public E priv)\<rparr>"
    "blk_Hash b = ComputeHash E b" "blk_Signature b = Sign E priv (ComputeHash E b)"
proof -
  define b0 where "b0 = NewBlock E (gen_ChainID (cfg_Genesis cfg)) 1 (sb_Hash t) (Hex (Public E priv)) [] now"
  define b where "b = blk_Sign E priv (b0\<lparr>blk_Header := (blk_Header b0)\<lparr>hdr_StateRoot := ComputeRoot E mem (nd_state nd)\<rparr>\<rparr>)"
  have p: "pool_Pending (if cfg_MaxBlockTxs cfg \<le> 0 then 500 else cfg_MaxBlockTxs cfg) NewMempool = Some []"
    using pool_Pending_take [OF NewMempool_ok(1), of "if cfg_MaxBlockTxs cfg \<le> 0 then 500 else cfg_MaxBlockTxs cfg"]
      NewMempool_ok(2) by simp
  have h: "blk_Header b = \<lparr>hdr_ChainID = gen_ChainID (cfg_Genesis cfg), hdr_Height = 1, hdr_PrevHash = sb_Hash t,
      hdr_StateRoot = ComputeRoot E mem (nd_state nd), hdr_TxRoot = ComputeTxRoot E [], hdr_Timestamp = now,
      hdr_Proposer = Hex (Public E priv)\<rparr>" "blk_Transactions b = []"
    by (simp_all add: b_def b0_def NewBlock_def)
  have "bc_tip (nd_chain nd) = Some u \<Longrightarrow> bc_height (nd_chain nd) < sb_Height (store_form False b) \<and>
      sb_Height (store_form False b) = wrap64 (bc_height (nd_chain nd) + 1) \<and> hdr_PrevHash (sb_Header (store_form False b)) = sb_Hash u" for u
    using assms(2-4) h(1) by (simp add: store_form_def wrap64_def)
  from mem.AddBlock_works [OF this]
  obtain bc where bc: "bc_AddBlock (LevelBlockStore mem) (store_form False b) (nd_chain nd) = (bc, Inr ())" by blast
  obtain s2 where s2: "Commit E mem ((nd_state nd)\<lparr>sdb_db := bc_store bc\<rparr>) = (s2, Inr ())" using mem_Commit by blast
  have "\<exists>nd'. ProduceBlock E mem (LevelBlockStore mem) em now cfg priv nd = (nd', Ok b)"
    using assms p bc s2
    by (simp add: ProduceBlock_def Let_def ExecuteBlock_def NewBlock_def wrap64_def) (simp add: b_def b0_def NewBlock_def)
  with h that show thesis unfolding b_def by fastforce
qed

lemma length_Hash_short: "length (Hash short_env d) \<le> 128"
  by (simp add: Hash_def)

text \<open>The texts of two headers differ within the first 64 bytes when their heights do.\<close>

lemma short_header:
  assumes "hdr_ChainID h = ''tolchain''" "hdr_Height h = n" "0 \<le> n" "n < 10"
  shows "\<exists>u. marshal enc_header h = ''{'' @ [dquote] @ ''chain_id'' @ [dquote, CHR '':'', dquote] @ ''tolchain'' @ [dquote] @ '','' @
    [dquote] @ ''height'' @ [dquote] @ '':'' @ [char_of (48 + nat n)] @ '','' @ u"
proof -
  have "print_int n = [char_of (48 + nat n)]" using assms(3,4) by (simp add: print_int_def) (subst print_nat.simps, simp)
  then show ?thesis using assms by (simp add: marshal_def enc_header_def enc_string_def enc_int64_def)
qed

lemma sample_config_fields: "cfg_Validators sample_config = [bob, alice]" "gen_ChainID (cfg_Genesis sample_config) = ''tolchain''"
  by (simp_all add: sample_config_def)

lemma short_machine: "machine_ok short_env sample_config alice_key"
  by (simp add: machine_ok_def sample_config_fields utf8_ok_ascii_all)

lemma quote_GenesisHash [simp]: "quote_go GenesisHash = GenesisHash"
  by (rule quote_hex) (simp add: GenesisHash_def is_hex_def is_digit_def)

text \<open>Two nodes with one genesis block; one of them has produced a block.\<close>

lemma two_nodes:
  obtains A0 A b g where "agree mem mem A0 A0" "producing short_env mem (node_emitter mem) sample_config alice_key 10 A0 [b] A"
    "ldb_chain fmlookup (nd_chain A) [g, store_form False b]" "sb_Height g = 0" "bc_height (nd_bc A0) = 0"
    "blk_Transactions b = []" "blk_Signature b = Sign short_env alice_key (ComputeHash short_env b)"
    "blk_Hash b = ComputeHash short_env b"
    "blk_Header b = \<lparr>hdr_ChainID = ''tolchain'', hdr_Height = 1, hdr_PrevHash = sb_Hash g,
      hdr_StateRoot = ComputeRoot short_env mem (nd_state A0), hdr_TxRoot = ComputeTxRoot short_env [], hdr_Timestamp = 10,
      hdr_Proposer = alice\<rparr>" "sb_Hash g = Hash short_env (header_text g)"
proof -
  obtain d A0 g0 where o: "open_chain short_env mem 1 sample_config alice_key fmempty = (d, Ok A0)"
    "bc_tip (nd_bc A0) = Some (store_form True g0)" "bc_height (nd_bc A0) = 0" "hdr_Height (blk_Header g0) = 0"
    "hdr_Timestamp (blk_Header g0) = 1" "hdr_ChainID (blk_Header g0) = ''tolchain''" "blk_Hash g0 = ComputeHash short_env g0"
    "nd_pool A0 = NewMempool"
    by (rule mem_open [of short_env 1 sample_config alice_key]) (auto simp: sample_config_fields)
  obtain g where g: "node_holds short_env mem fmlookup (node_emitter mem) (nd_state A0) [] [g] A0"
    "state_ok short_env mem (nd_state A0)" "buf_ok (nd_state A0)" "header_text g = header_text (store_form True g0)"
    using mem.node_start [OF _ o(1) short_machine] o(2) by (auto simp: in_int64_def)
  have t: "sb_Hash g = sb_Hash (store_form True g0)" "sb_Height g = 0" "sb_Hash g = Hash short_env (header_text g)"
    using g(1) o(2,3) by (auto simp: node_holds_def chain_holds_def hashed_def)
  have pr: "IsProposer short_env sample_config alice_key A0 = Some True"
    using o(3) by (simp add: IsProposer_def sample_config_fields proposer_at_def go_rem_def wrap64_def)
  have h0: "sb_Height (store_form True g0) = 0" using o(4) by (simp add: store_form_def)
  obtain A b where p: "ProduceBlock short_env mem (LevelBlockStore mem) (node_emitter mem) 10 sample_config alice_key A0 = (A, Ok b)"
    "blk_Transactions b = []" "blk_Hash b = ComputeHash short_env b" "blk_Signature b = Sign short_env alice_key (ComputeHash short_env b)"
    "blk_Header b = \<lparr>hdr_ChainID = ''tolchain'', hdr_Height = 1, hdr_PrevHash = sb_Hash g,
      hdr_StateRoot = ComputeRoot short_env mem (nd_state A0), hdr_TxRoot = ComputeTxRoot short_env [], hdr_Timestamp = 10,
      hdr_Proposer = alice\<rparr>"
    by (rule mem_produce_next [OF pr o(2) h0 o(3,8), of "node_emitter mem" 10])
      (simp add: t(1) store_form_def sample_config_fields)
  have st: "stored_ok (store_form False b)"
    using p(2-5) t(3) by (simp add: stored_ok_def store_form_def sb_list_def header_ok_def in_int64_def utf8_ok_ascii_all ComputeHash_def)
  obtain u v where "header_text g = ''{'' @ [dquote] @ ''chain_id'' @ [dquote, CHR '':'', dquote] @ ''tolchain'' @ [dquote] @ '','' @
      [dquote] @ ''height'' @ [dquote] @ '':'' @ [char_of (48 :: nat)] @ '','' @ u"
    "header_text (store_form False b) = ''{'' @ [dquote] @ ''chain_id'' @ [dquote, CHR '':'', dquote] @ ''tolchain'' @ [dquote] @ '','' @
      [dquote] @ ''height'' @ [dquote] @ '':'' @ [char_of (49 :: nat)] @ '','' @ v"
    using short_header [of "blk_Header g0" 0] short_header [of "blk_Header b" 1] o(4,6) p(5) g(4)
    by (auto simp: header_text_def store_form_def)
  then have "no_collision short_env (header_text ` set ([g] @ [store_form False b]))"
    by (auto simp: no_collision_def inj_on_def)
  from mem.node_produce_ok [OF g(1) mem.node_emitter_index _ g(2,3) p(1) this]
  have "ldb_chain fmlookup (nd_chain A) [g, store_form False b]"
    by (auto simp: setting_ok_def sample_config_fields utf8_ok_ascii_all in_int64_def node_holds_def)
  moreover have "producing short_env mem (node_emitter mem) sample_config alice_key 10 A0 [b] A"
    by (rule producing_block [OF p(1) st _ _ producing_none]) (simp_all add: o(2,5) store_form_def)
  moreover have "agree mem mem A0 A0" using g(3) o(2-4) by (intro agree_self) (simp_all add: tip_height_def store_form_def)
  ultimately show thesis using that t o(3) p by blast
qed

lemma quote_hash_any [simp]: "quote_go (ComputeRoot E I s) = ComputeRoot E I s" "quote_go (ComputeTxRoot E txs) = ComputeTxRoot E txs"
  "quote_go (ComputeHash E b) = ComputeHash E b"
  by (simp_all add: ComputeRoot_def ComputeTxRoot_def ComputeHash_def)

lemma small_block:
  assumes "blk_Transactions b = []" "blk_Signature b = Sign short_env alice_key (ComputeHash short_env b)"
    and "blk_Hash b = ComputeHash short_env b"
    and "blk_Header b = \<lparr>hdr_ChainID = ''tolchain'', hdr_Height = 1, hdr_PrevHash = Hash short_env x,
      hdr_StateRoot = ComputeRoot short_env mem s, hdr_TxRoot = ComputeTxRoot short_env [], hdr_Timestamp = 10,
      hdr_Proposer = alice\<rparr>"
  shows "length (marshal enc_message (blocks_message [wire_block (store_form False b)])) \<le> max_message"
    "jdepth (enc_block (store_form False b)) + 3 \<le> max_nesting"
proof -
  have h: "length (Hash short_env d) \<le> 128" for d by (rule length_Hash_short)
  have r: "length (ComputeHash short_env b) \<le> 128" "length (ComputeRoot short_env mem s) \<le> 128" "length (ComputeTxRoot short_env []) \<le> 128"
    unfolding ComputeHash_def ComputeRoot_def ComputeTxRoot_def by (rule h)+
  have g: "length (Sign short_env alice_key (ComputeHash short_env b)) \<le> 320" using r(1) by (simp add: Sign_def)
  have i: "length (print_int 1) \<le> 20" "length (print_int 10) \<le> 20" by (rule print_int_length, simp add: in_int64_def)+
  have hd: "length (print_json (enc_header (blk_Header b))) \<le> 2000"
    using r h [of x] i by (simp add: assms(4) enc_header_def enc_string_def enc_int64_def)
  have bl: "length (print_json (enc_block (store_form False b))) \<le> 3000"
    using hd r(1) g by (simp add: enc_block_def store_form_def enc_string_def enc_slice_def assms(1-3))
  have w: "enc_raw (Some (enc_blocks (Some [Some (wire_block (store_form False b))]))) =
      JObj [(''blocks'', JArr [enc_block (store_form False b)])]"
    by (simp add: enc_raw_def) (simp add: enc_blocks_def enc_slice_def enc_ptr_def)
  have "quote_go ''blocks'' = ''blocks''" by (simp add: quote_ascii esc_ascii_def)
  then show "length (marshal enc_message (blocks_message [wire_block (store_form False b)])) \<le> max_message"
    using bl by (simp add: marshal_def enc_message_def blocks_message_def MsgBlocks_def enc_string_def max_message_def w)
  show "jdepth (enc_block (store_form False b)) + 3 \<le> max_nesting"
    using assms(1) by (simp add: enc_block_def enc_header_def enc_slice_def store_form_def enc_string_def enc_int64_def max_nesting_def)
qed

end
