(* ===== verification/FaultTheorems.thy ===== *)
theory FaultTheorems
  imports NetTheorems
begin

text \<open>
  Restarts, and the limits of the node: what remains after a failed commit, a transaction that stops the
  producer, and the index of owned assets.
\<close>

section \<open>A stale transaction in the pool\<close>

context healthy_db
begin

lemma ledger_stale:
  assumes "ledger E I em s0 h s" "state_ok E I s0" "buf_ok s0" "nonces I s0 a = Inr m" "k < m"
  shows "\<exists>n. nonces I s a = Inr n \<and> k < n"
  using assms
proof (induction rule: ledger.induct)
  case (ledger_exec h s block tx s' u)
  then have "state_ok E I s" using ledger_ok by blast
  note n = ExecuteTx_nonces [OF ledger_exec.hyps(2) this ledger_exec.hyps(5)]
  have "tx_Nonce tx < tx_Nonce tx + 1" by (rule uint64_less_Suc [OF n(2)])
  then show ?case using ledger_exec n(1) by (fastforce simp: n(3))
next
  case (ledger_commit h s s' u)
  then have "buf_ok s" using ledger_ok by blast
  from commit_tables(3) [OF this ledger_commit.hyps(2)] ledger_commit show ?case by simp
next
  case (ledger_other h s d)
  then show ?case by (simp add: other_tables)
qed simp_all

text \<open>While the first transaction of the pool has a nonce below its sender's, no block is produced.\<close>

lemma stale_no_block:
  assumes "node_holds E I \<alpha> (node_emitter I) s0 h bs nd" "state_ok E I s0" "buf_ok s0" "setting_ok E cfg priv now"
    and "pool_queue (nd_pool nd) = tx # rest" "nonces I (nd_state nd) (tx_From tx) = Inr n" "tx_Nonce tx < n"
  shows "ProduceBlock E I B (node_emitter I) now cfg priv nd \<noteq> (nd', Ok b)"
proof
  assume "ProduceBlock E I B (node_emitter I) now cfg priv nd = (nd', Ok b)"
  then show False
  proof (rule ProduceBlock_Ok)
    fix txs prev k s1 b0
    assume txs: "pool_Pending (if cfg_MaxBlockTxs cfg \<le> 0 then 500 else cfg_MaxBlockTxs cfg) (nd_pool nd) = Some txs"
      and b0: "b0 = NewBlock E (gen_ChainID (cfg_Genesis cfg)) k prev (Hex (Public E priv)) txs now"
      and x: "ExecuteBlock E I (Some (node_emitter I)) b0 (nd_state nd) = (s1, Inr ())"
    have "pool_ok E (nd_pool nd)" using assms(1) by (simp add: node_holds_def pool_good_def)
    from pool_Pending_take [OF this, of "if cfg_MaxBlockTxs cfg \<le> 0 then 500 else cfg_MaxBlockTxs cfg"] txs assms(5)
    obtain ts where "txs = tx # ts" by (cases "nat (if cfg_MaxBlockTxs cfg \<le> 0 then 500 else cfg_MaxBlockTxs cfg)") (auto split: if_splits)
    then obtain s2 where "ExecuteTx E I (Some (node_emitter I)) b0 tx (nd_state nd) = (s2, Inr ())"
      using x b0 by (auto simp: ExecuteBlock_def NewBlock_def split: prod.splits sum.splits)
    moreover have "run_ok E I (Some (node_emitter I)) b0" unfolding b0 by (rule node_run_ok [OF node_emitter_index assms(4)])
    moreover have "state_ok E I (nd_state nd)" using assms(1-3) by (rule node_supply(1))
    ultimately show False using ExecuteTx_nonces(1) assms(6,7) by fastforce
  qed
qed

lemma sync_block_pool: "sync_block E I B em now cfg ob nd = (nd', r) \<Longrightarrow> nd_pool nd' = nd_pool nd"
proof (cases ob)
  case None
  then show "sync_block E I B em now cfg ob nd = (nd', r) \<Longrightarrow> nd_pool nd' = nd_pool nd" by (simp add: sync_block_def)
next
  case (Some b)
  assume "sync_block E I B em now cfg ob nd = (nd', r)"
  with Some show "nd_pool nd' = nd_pool nd" by (auto elim!: sync_block_cases simp: nd_set_chain_def)
qed

lemma sync_blocks_pool: "sync_blocks E I B em now cfg obs nd = (nd', r) \<Longrightarrow> nd_pool nd' = nd_pool nd"
proof (induction obs arbitrary: nd)
  case (Cons ob obs)
  obtain nd1 r1 where s: "sync_block E I B em now cfg ob nd = (nd1, r1)" by fastforce
  show ?case
  proof (cases "r1 = Ok True")
    case False
    then have "nd' = nd1" using Cons.prems s by (cases r1) (auto split: bool.splits)
    then show ?thesis using sync_block_pool [OF s] by simp
  qed (use Cons s sync_block_pool [OF s] in auto)
qed simp

lemma pool_Add_queue:
  assumes "pool_ok E m"
  shows "\<exists>ts. pool_queue (fst (pool_Add E now tx m)) = pool_queue m @ ts"
  using pool_Add_ok [OF assms, of now tx] pool_Add_error [of E now tx m]
  by (cases "pool_Add E now tx m"; cases "snd (pool_Add E now tx m)") auto

text \<open>Only a produced block takes transactions out of the pool.\<close>

lemma node_step_queue:
  assumes "node_step E I C cfg priv T nd nd'" "pool_ok E (nd_pool nd)"
    and "\<And>now nd' b. in_int64 now \<Longrightarrow> ProduceBlock E I (LevelBlockStore I) (node_emitter I) now cfg priv nd \<noteq> (nd', Ok b)"
  shows "\<exists>ts. pool_queue (nd_pool nd') = pool_queue (nd_pool nd) @ ts"
  using assms(1)
proof cases
  case (step_tick now ob)
  from step_tick(3) show ?thesis
  proof (cases rule: poa_tick_Ok)
    case (2 e)
    then have "nd_pool nd' = nd_pool nd" by (auto elim!: ProduceBlock_Err simp: nd_set_chain_def)
    then show ?thesis by simp
  qed (use assms(3) step_tick(2) in auto)
next
  case (step_message msg f now peer peer' r)
  show ?thesis
  proof (cases "f = handleTx E")
    case True
    then have "nd_pool nd' = nd_pool nd \<or> (\<exists>tx. nd_pool nd' = fst (pool_Add E now tx (nd_pool nd)))"
      using step_message(5) by (auto simp: handleTx_def split: sum.splits)
    then show ?thesis using pool_Add_queue [OF assms(2)] by (metis append.right_neutral)
  next
    case False
    then have "nd_pool nd' = nd_pool nd"
      using step_message(4,5)
      by (auto simp: node_handlers handleHello_def handleGetBlocks_def handleBlocks_def Let_def dest: sync_blocks_pool
          split: if_splits sum.splits prod.splits outcome.splits bool.splits)
    then show ?thesis by simp
  qed
next
  case (step_request now q reply)
  from step_request(2) show ?thesis
    by (rule serveHTTP_pool) (use pool_Add_queue [OF assms(2)] in auto)
qed

lemma stale_run:
  assumes "node_run E I C cfg priv T nd nd'" "node_holds E I \<alpha> (node_emitter I) s0 h bs nd" "state_ok E I s0" "buf_ok s0"
    and "machine_ok E cfg priv" "no_collision E (header_text ` (set bs \<union> T))"
    and "pool_queue (nd_pool nd) = tx # rest" "nonces I (nd_state nd) (tx_From tx) = Inr n" "tx_Nonce tx < n"
  shows "\<exists>ts. pool_queue (nd_pool nd') = tx # ts \<and>
    (\<forall>now nd2 b. in_int64 now \<longrightarrow> ProduceBlock E I (LevelBlockStore I) (node_emitter I) now cfg priv nd' \<noteq> (nd2, Ok b))"
  using assms(1,2,6-9)
proof (induction arbitrary: rest rule: node_run.induct)
  case (run_start nd)
  then show ?case
    using stale_no_block [OF run_start.prems(1) assms(3,4)] assms(5) by (auto simp: machine_ok_def setting_ok_def)
next
  case (run_step S nd nd1 T nd2)
  have o: "state_ok E I (nd_state nd)" "buf_ok (nd_state nd)"
    using ledger_ok [OF _ assms(3,4)] run_step.prems(1) by (auto simp: node_holds_def)
  have self: "node_holds E I \<alpha> (node_emitter I) (nd_state nd) [] bs nd" using run_step.prems(1) by (simp add: node_holds_def ledger_start)
  have nc: "no_collision E (header_text ` (set bs \<union> S))" by (rule no_collision_subset [OF run_step.prems(2)]) auto
  with run_step.IH run_step.prems obtain ts where ts: "pool_queue (nd_pool nd1) = tx # ts"
    "\<And>now nd2 b. in_int64 now \<Longrightarrow> ProduceBlock E I (LevelBlockStore I) (node_emitter I) now cfg priv nd1 \<noteq> (nd2, Ok b)"
    by blast
  have r: "node_run E I C cfg priv (S \<union> T) nd nd2" by (rule node_run.run_step [OF run_step.hyps])
  obtain h1 bs1 where n1: "node_holds E I \<alpha> (node_emitter I) (nd_state nd) h1 bs1 nd1"
    using node_run_holds [OF run_step.hyps(1) self assms(5) o nc] by blast
  obtain h2 bs2 where n2: "node_holds E I \<alpha> (node_emitter I) (nd_state nd) h2 bs2 nd2"
    using node_run_holds [OF r self assms(5) o run_step.prems(2)] by blast
  have "pool_ok E (nd_pool nd1)" using n1 by (simp add: node_holds_def pool_good_def)
  from node_step_queue [OF run_step.hyps(2) this ts(2)] ts(1) obtain ts' where q: "pool_queue (nd_pool nd2) = tx # ts'" by auto
  obtain n' where "nonces I (nd_state nd2) (tx_From tx) = Inr n'" "tx_Nonce tx < n'"
    using ledger_stale [OF _ o run_step.prems(4,5)] n2 unfolding node_holds_def by blast
  from stale_no_block [OF n2 o _ q this] assms(5) q show ?case by (auto simp: machine_ok_def setting_ok_def)
qed

end

text \<open>
  C33. One stale transaction stops a validator for good: when the oldest transaction of its pool has a nonce
  below its sender's, then in every run from there on, whatever arrives, it stays the oldest one and the node
  never produces a block again.
\<close>

theorem stale_tx_stops_production:
  assumes "healthy_db I \<alpha>" "node_holds E I \<alpha> (node_emitter I) s0 h bs nd" "state_ok E I s0" "buf_ok s0" "machine_ok E cfg priv"
    and "pool_queue (nd_pool nd) = tx # rest" "GetAccount I (nd_state nd) (tx_From tx) = Inr acc" "tx_Nonce tx < acc_Nonce acc"
    and "node_run E I C cfg priv T nd nd'" "no_collision E (header_text ` (set bs \<union> T))" "in_int64 now"
  shows "\<exists>ts. pool_queue (nd_pool nd') = tx # ts \<and>
    (\<forall>nd2 b. poa_tick E I (LevelBlockStore I) (node_emitter I) now cfg priv nd' \<noteq> (nd2, Ok (Some b)))"
proof -
  have n: "nonces I (nd_state nd) (tx_From tx) = Inr (acc_Nonce acc)" using assms(7) by (simp add: nonces_def)
  obtain ts where "pool_queue (nd_pool nd') = tx # ts"
    "\<And>nd2 b. ProduceBlock E I (LevelBlockStore I) (node_emitter I) now cfg priv nd' \<noteq> (nd2, Ok b)"
    using healthy_db.stale_run [OF assms(1,9,2-5,10,6) n assms(8)] assms(11) by blast
  then show ?thesis by (auto elim!: poa_tick_Ok)
qed

definition stale_node :: "mem_store node" where
  "stale_node = \<lparr>nd_state = SetAccount sample_state (sample_account alice 100 1), nd_bc = NewBlockchain fmempty, nd_pool = sample_pool\<rparr>"

lemma stale_holds: "node_holds sample_env mem fmlookup (node_emitter mem) (nd_state stale_node) [] [] stale_node"
proof -
  have "tx_good pay_bob" using pay_bob_depth by (simp add: tx_good_def)
  moreover have "sdb_db (nd_state stale_node) = fmempty" by (simp add: stale_node_def sample_state_def accessor_defs sdb_set_def NewStateDB_def)
  then have "nd_chain stale_node = NewBlockchain fmempty" by (simp add: nd_chain_def) (simp add: stale_node_def NewBlockchain_def)
  ultimately show ?thesis
    by (simp add: node_holds_def ledger_start empty_chain pool_good_def) (simp add: stale_node_def NewBlockchain_def in_int64_def)
qed

theorem stale_tx_stops_production_witness:
  "\<exists>ts. pool_queue (nd_pool stale_node) = pay_bob # ts \<and>
     (\<forall>nd2 b. poa_tick sample_env mem (LevelBlockStore mem) (node_emitter mem) 10 sample_config alice_key stale_node \<noteq> (nd2, Ok (Some b)))"
proof (rule stale_tx_stops_production [OF mem.healthy_db_axioms stale_holds _ _ sample_machine _ _ _ run_start])
  show "GetAccount mem (nd_state stale_node) (tx_From pay_bob) = Inr (sample_account alice 100 1)"
    by (simp add: stale_node_def pay_bob_fields)
  show "state_ok sample_env mem (nd_state stale_node)"
    by (simp add: stale_node_def) (intro state_ok_set(1); simp)
qed (simp_all add: stale_node_def pay_bob_fields in_int64_def)

section \<open>Restarts\<close>

context healthy_db
begin

text \<open>A store with a chain opens: the state is what is stored, the chain is found, the pool is empty.\<close>

lemma open_chain_again:
  assumes "ldb_chain \<alpha> bc bs" "bs \<noteq> []" "\<forall>b\<in>set bs. sb_Hash b \<noteq> []"
  obtains bc' where "open_chain E I now cfg priv (bc_store bc) =
      (bc_store bc, Ok \<lparr>nd_state = NewStateDB (bc_store bc), nd_bc = bc', nd_pool = NewMempool\<rparr>)"
    "ldb_chain \<alpha> (bc'\<lparr>bc_store := bc_store bc\<rparr>) bs"
proof -
  obtain bc' where bc': "bc_Init (LevelBlockStore I) (NewBlockchain (bc_store bc)) = (bc', Inr ())" "ldb_chain \<alpha> bc' bs"
    using chain_Init [OF assms(1,3)] by blast
  have "bc_store bc' = bc_store bc"
    using bc'(1) by (auto simp: bc_Init_def NewBlockchain_def split: sum.splits if_splits)
  then have "bc'\<lparr>bc_store := bc_store bc\<rparr> = bc'" by simp
  moreover obtain t where "bc_tip bc' = Some t" using bc'(2) assms(2) by (auto simp: chain_holds_def)
  ultimately show thesis using bc' that by (simp add: open_chain_def)
qed

lemma hashed_nonempty:
  assumes "hashed E b" "hash_nonempty E"
  shows "sb_Hash b \<noteq> []"
proof -
  have "header_text b \<noteq> []" by (simp add: header_text_def marshal_def enc_header_def)
  then show ?thesis using assms Hash_nonempty by (simp add: hashed_def)
qed

lemma restart_agrees:
  assumes "node_holds E I \<alpha> em s0 h bs nd" "bs \<noteq> []" "hash_nonempty E" "nd_state nd = NewStateDB d"
  shows "\<exists>nd2. open_chain E I now cfg priv d = (d, Ok nd2) \<and> agree I I nd nd2 \<and> ldb_chain \<alpha> (nd_chain nd2) bs \<and>
    nd_pool nd2 = NewMempool"
proof -
  have c: "ldb_chain \<alpha> (nd_chain nd) bs" and "\<forall>b\<in>set bs. hashed E b" using assms(1) by (simp_all add: node_holds_def)
  then have "\<forall>b\<in>set bs. sb_Hash b \<noteq> []" using hashed_nonempty assms(3) by blast
  from open_chain_again [OF c assms(2) this, of E now cfg priv]
  obtain bc' where o: "open_chain E I now cfg priv d = (d, Ok \<lparr>nd_state = NewStateDB d, nd_bc = bc', nd_pool = NewMempool\<rparr>)"
    "ldb_chain \<alpha> (bc'\<lparr>bc_store := d\<rparr>) bs" using assms(4) by (auto simp: NewStateDB_def)
  have "agree I I nd \<lparr>nd_state = NewStateDB d, nd_bc = bc', nd_pool = NewMempool\<rparr>"
    using c o(2) assms(2,4) by (auto simp: agree_def chain_holds_def tip_height_def)
  then show ?thesis using o by (simp add: nd_chain_def NewStateDB_def)
qed

end

text \<open>A commit that fails after the block was stored.\<close>

lemma ProduceBlock_fatal_parts:
  assumes "ProduceBlock E I B em now cfg priv nd = (nd', Fatal)"
  obtains txs prev h s1 bc b0 b1 b s2 e where
    "pool_Pending (if cfg_MaxBlockTxs cfg \<le> 0 then 500 else cfg_MaxBlockTxs cfg) (nd_pool nd) = Some txs"
    "(prev, h) = (case bc_tip (nd_bc nd) of None \<Rightarrow> (GenesisHash, 1)
       | Some tip \<Rightarrow> (sb_Hash tip, wrap64 (sb_Height tip + 1)))"
    "b0 = NewBlock E (gen_ChainID (cfg_Genesis cfg)) h prev (Hex (Public E priv)) txs now"
    "ExecuteBlock E I (Some em) b0 (nd_state nd) = (s1, Inr ())"
    "b1 = b0\<lparr>blk_Header := (blk_Header b0)\<lparr>hdr_StateRoot := ComputeRoot E I s1\<rparr>\<rparr>" "b = blk_Sign E priv b1"
    "bc_AddBlock B (store_form False b) ((nd_bc nd)\<lparr>bc_store := sdb_db s1\<rparr>) = (bc, Inr ())"
    "Commit E I (s1\<lparr>sdb_db := bc_store bc\<rparr>) = (s2, Inl e)" "nd' = nd\<lparr>nd_bc := bc, nd_state := s2\<rparr>"
  using assms
  by (cases nd) (auto simp: ProduceBlock_def Let_def nd_chain_def nd_set_chain_def split: option.splits bool.splits prod.splits
      sum.splits intro: that)

context healthy_db
begin

lemma Commit_error_store:
  assumes "Commit E I s = (s', Inl e)"
  shows "\<alpha> (sdb_db s') = \<alpha> (sdb_db s)"
  using assms write_error by (auto simp: Commit_def split: prod.splits sum.splits)

lemma NewStateDB_reads:
  assumes "\<And>k. state_key k \<Longrightarrow> \<alpha> d' k = \<alpha> d k"
  shows "reads I (NewStateDB d') = reads I (NewStateDB d)"
proof -
  have "db_keeps I d d'" by (rule keeps_of_alpha) (rule assms)
  from reads_keeps [of I "NewStateDB d" d'] this show ?thesis by (simp add: NewStateDB_def)
qed

lemma stranded_tip:
  assumes "node_holds E I \<alpha> (node_emitter I) s0 h bs nd" "setting_ok E cfg priv now" "hash_nonempty E" "nd_state nd = NewStateDB d"
    and "ProduceBlock E I (LevelBlockStore I) (node_emitter I) now cfg priv nd = (nd', Fatal)"
    and "no_collision E (insert (header_text (the (bc_tip (nd_bc nd')))) (header_text ` set bs))"
  shows "\<exists>nd2. open_chain E I now2 cfg priv (sdb_db (nd_state nd')) = (sdb_db (nd_state nd'), Ok nd2) \<and>
    bc_height (nd_bc nd2) = (case bc_tip (nd_bc nd) of None \<Rightarrow> 1 | Some t \<Rightarrow> wrap64 (sb_Height t + 1)) \<and>
    reads I (nd_state nd2) = reads I (nd_state nd)"
proof (rule ProduceBlock_fatal_parts [OF assms(5)])
  fix txs prev k s1 bc b0 b1 b s2 e
  assume txs: "pool_Pending (if cfg_MaxBlockTxs cfg \<le> 0 then 500 else cfg_MaxBlockTxs cfg) (nd_pool nd) = Some txs"
    and link: "(prev, k) = (case bc_tip (nd_bc nd) of None \<Rightarrow> (GenesisHash, 1)
       | Some tip \<Rightarrow> (sb_Hash tip, wrap64 (sb_Height tip + 1)))"
    and b0: "b0 = NewBlock E (gen_ChainID (cfg_Genesis cfg)) k prev (Hex (Public E priv)) txs now"
    and x: "ExecuteBlock E I (Some (node_emitter I)) b0 (nd_state nd) = (s1, Inr ())"
    and b: "b1 = b0\<lparr>blk_Header := (blk_Header b0)\<lparr>hdr_StateRoot := ComputeRoot E I s1\<rparr>\<rparr>" "b = blk_Sign E priv b1"
    and a: "bc_AddBlock (LevelBlockStore I) (store_form False b) ((nd_bc nd)\<lparr>bc_store := sdb_db s1\<rparr>) = (bc, Inr ())"
    and c: "Commit E I (s1\<lparr>sdb_db := bc_store bc\<rparr>) = (s2, Inl e)" and nd': "nd' = nd\<lparr>nd_bc := bc, nd_state := s2\<rparr>"
  note good = node_pending [OF assms(1) txs]
  have t: "blk_Transactions b0 = txs" "run_ok E I (Some (node_emitter I)) b0" "hdr_Proposer (blk_Header b0) \<noteq> []"
    using b0 node_run_ok [OF node_emitter_index assms(2)] assms(2) by (simp_all add: NewBlock_def setting_ok_def)
  obtain h' where n1: "node_holds E I \<alpha> (node_emitter I) s0 (h @ h') bs (nd\<lparr>nd_state := s1\<rparr>)"
    using node_execute [OF assms(1) t(2) node_emitter_index _ x t(3)] good t(1) by auto
  have "header_ok (blk_Header b1)" using made_header_ok [OF assms(2) b0 link] node_tip_utf8 [OF assms(1)] b(1) by simp
  then have ok: "stored_ok (store_form False b)" "hashed E (store_form False b)"
    using made_block_ok [of b1 E priv] b good t(1) by simp_all
  have tip: "bc_tip bc = Some (store_form False b)" using a by (auto elim: lbs.AddBlock_parts)
  have a': "bc_AddBlock (LevelBlockStore I) (store_form False b) (nd_chain (nd\<lparr>nd_state := s1\<rparr>)) = (bc, Inr ())"
    using a by (simp add: nd_chain_def)
  have "node_holds E I \<alpha> (node_emitter I) s0 (h @ h') (bs @ [store_form False b]) (nd_set_chain bc (nd\<lparr>nd_state := s1\<rparr>))"
    using node_add [OF n1 a' ok] assms(6) tip nd' by simp
  then have n2: "ldb_chain \<alpha> bc (bs @ [store_form False b])" "\<forall>x\<in>set (bs @ [store_form False b]). hashed E x"
    by (simp_all add: node_holds_def)
  have s2: "\<alpha> (sdb_db s2) = \<alpha> (bc_store bc)" using Commit_error_store [OF c] by simp
  have "ldb_chain \<alpha> (bc\<lparr>bc_store := sdb_db s2\<rparr>) (bs @ [store_form False b])"
    using ldb_chain_store [of \<alpha> "sdb_db s2" "bc_store bc" bc] s2 n2(1) by simp
  moreover have "\<forall>x\<in>set (bs @ [store_form False b]). sb_Hash x \<noteq> []" using n2(2) hashed_nonempty assms(3) by blast
  ultimately obtain bc' where o: "open_chain E I now2 cfg priv (sdb_db s2) =
      (sdb_db s2, Ok \<lparr>nd_state = NewStateDB (sdb_db s2), nd_bc = bc', nd_pool = NewMempool\<rparr>)"
    "ldb_chain \<alpha> (bc'\<lparr>bc_store := sdb_db s2\<rparr>) (bs @ [store_form False b])"
    using open_chain_again [of "bc\<lparr>bc_store := sdb_db s2\<rparr>" "bs @ [store_form False b]" E now2 cfg priv] by auto
  have "bc_height bc' = hdr_Height (blk_Header b)" using o(2) by (simp add: chain_holds_def store_form_def)
  then have "bc_height bc' = (case bc_tip (nd_bc nd) of None \<Rightarrow> 1 | Some t \<Rightarrow> wrap64 (sb_Height t + 1))"
    using b b0 link by (auto simp: NewBlock_def split: option.splits)
  moreover have "index_step \<alpha> d (sdb_db s1)"
    using execute_txs_index x node_emitter_index assms(4) unfolding ExecuteBlock_def index_events_def NewStateDB_def by fastforce
  then have "\<alpha> (sdb_db s2) q = \<alpha> d q" if "state_key q" for q
    using that s2 AddBlock_store [OF a, of q] chain_keyD(1) state_not_index by (auto simp: index_step_def)
  then have "reads I (NewStateDB (sdb_db s2)) = reads I (NewStateDB d)" by (rule NewStateDB_reads)
  ultimately show ?thesis using o(1) nd' assms(4) by simp
qed

end

text \<open>
  C34. The block is stored before the state is committed. When that commit fails the process ends, and a node
  started on the database has the new block as its tip but the world state from before it: the
  transactions of the block are lost, and nothing reports it.
\<close>

theorem failed_commit_strands_tip:
  assumes "healthy_db I \<alpha>" "node_holds E I \<alpha> (node_emitter I) s0 h bs nd" "setting_ok E cfg priv now" "hash_nonempty E"
    and "nd_state nd = NewStateDB d" "ProduceBlock E I (LevelBlockStore I) (node_emitter I) now cfg priv nd = (nd', Fatal)"
    and "no_collision E (insert (header_text (the (bc_tip (nd_bc nd')))) (header_text ` set bs))"
  shows "\<exists>nd2. open_chain E I now2 cfg priv (sdb_db (nd_state nd')) = (sdb_db (nd_state nd'), Ok nd2) \<and>
    bc_height (nd_bc nd2) = (case bc_tip (nd_bc nd) of None \<Rightarrow> 1 | Some t \<Rightarrow> wrap64 (sb_Height t + 1)) \<and>
    reads I (nd_state nd2) = reads I (nd_state nd)"
  by (rule healthy_db.stranded_tip [OF assms])

text \<open>A store in memory whose disk has no room left but for blocks.\<close>

definition full_db :: "mem_store db_iface" where
  "full_db = mem\<lparr>DB_Write := \<lambda>d ops. if \<exists>v. BatchSet tip_key v \<in> set ops then DB_Write mem d ops else (d, Inl (Errorf ''no space left''))\<rparr>"

lemma full_healthy: "healthy_db full_db fmlookup"
proof -
  have "kv_db full_db fmlookup"
    using mem.kv_db_axioms unfolding kv_db_def full_db_def by simp
  then show ?thesis using mem.healthy by (simp add: healthy_db_def healthy_db_axioms_def db_healthy_def full_db_def)
qed

definition empty_node :: "mem_store node" where
  "empty_node = \<lparr>nd_state = NewStateDB fmempty, nd_bc = NewBlockchain fmempty, nd_pool = NewMempool\<rparr>"

lemma empty_holds: "node_holds E I fmlookup em (nd_state empty_node) [] [] empty_node"
proof -
  have "nd_chain empty_node = NewBlockchain fmempty" by (simp add: empty_node_def nd_chain_def NewBlockchain_def NewStateDB_def)
  then show ?thesis
    by (simp add: node_holds_def ledger_start empty_chain) (simp add: empty_node_def NewBlockchain_def pool_good_def NewMempool_ok in_int64_def)
qed

lemma full_fatal:
  "\<exists>nd'. ProduceBlock sample_env full_db (LevelBlockStore full_db) (node_emitter full_db) 10 sample_config alice_key empty_node = (nd', Fatal)"
proof -
  have t: "IsProposer sample_env sample_config alice_key empty_node = Some True"
    by (simp add: IsProposer_def sample_config_fields empty_node_def nd_chain_def NewBlockchain_def proposer_at_def go_rem_def wrap64_def)
  have p: "pool_Pending (if cfg_MaxBlockTxs sample_config \<le> 0 then 500 else cfg_MaxBlockTxs sample_config) (nd_pool empty_node) = Some []"
    using pool_Pending_take [OF NewMempool_ok(1), of "if cfg_MaxBlockTxs sample_config \<le> 0 then 500 else cfg_MaxBlockTxs sample_config"]
      NewMempool_ok(2) by (simp add: empty_node_def)
  have w: "\<exists>d. DB_Write full_db x [BatchSet k v, BatchSet k' v', BatchSet tip_key u] = (d, Inr ())" for x k v k' v' u
    using mem.write_succeeds [of sample_env x "[BatchSet k v, BatchSet k' v', BatchSet tip_key u]"]
    by (simp add: full_db_def) (metis prod.collapse)
  have a: "\<exists>bc. bc_AddBlock (LevelBlockStore full_db) b (nd_chain empty_node) = (bc, Inr ())" for b
  proof -
    obtain d where "BS_CommitBlock (LevelBlockStore full_db) fmempty b = (d, Inr ())"
      using w by (simp add: LevelBlockStore_def lbs_CommitBlock_def) blast
    then show ?thesis by (simp add: bc_AddBlock_def empty_node_def nd_chain_def NewBlockchain_def NewStateDB_def Let_def)
  qed
  have c: "Commit sample_env full_db ((NewStateDB fmempty)\<lparr>sdb_db := x\<rparr>) =
      ((NewStateDB fmempty)\<lparr>sdb_db := x\<rparr>, Inl (Errorf ''no space left''))" for x
    by (simp add: Commit_def commit_ops_def NewStateDB_def full_db_def range_map_def)
  obtain f where f: "bc_AddBlock (LevelBlockStore full_db) b (nd_chain empty_node) = (f b, Inr ())" for b using a by metis
  have e: "nd_state empty_node = NewStateDB fmempty" "bc_tip (nd_bc empty_node) = None" "empty_node\<lparr>nd_state := NewStateDB fmempty\<rparr> = empty_node"
    "(nd_chain empty_node)\<lparr>bc_store := sdb_db (NewStateDB fmempty)\<rparr> = nd_chain empty_node"
    by (simp_all add: empty_node_def NewBlockchain_def nd_chain_def)
  show ?thesis
    using t p f c by (simp add: ProduceBlock_def Let_def ExecuteBlock_def NewBlock_def e)
qed

theorem failed_commit_strands_tip_witness:
  "\<exists>nd' nd2. ProduceBlock sample_env full_db (LevelBlockStore full_db) (node_emitter full_db) 10 sample_config alice_key empty_node =
       (nd', Fatal) \<and>
     open_chain sample_env full_db 99 sample_config alice_key (sdb_db (nd_state nd')) = (sdb_db (nd_state nd'), Ok nd2) \<and>
     bc_height (nd_bc nd2) = 1 \<and> reads full_db (nd_state nd2) = reads full_db (nd_state empty_node)"
proof -
  obtain nd' where f: "ProduceBlock sample_env full_db (LevelBlockStore full_db) (node_emitter full_db) 10 sample_config alice_key empty_node =
      (nd', Fatal)" using full_fatal by blast
  have "setting_ok sample_env sample_config alice_key 10"
    using sample_machine by (simp add: setting_ok_def machine_ok_def in_int64_def)
  from failed_commit_strands_tip [OF full_healthy empty_holds this _ _ f, of fmempty 99]
  show ?thesis using f by (auto simp: empty_node_def NewBlockchain_def)
qed

section \<open>The index of owned assets\<close>

context working_db
begin

lemma owner_list_served: "owner_list (\<alpha> d) b = Some ids \<longleftrightarrow> (\<exists>x. GetAssetsByOwner I d b = Inr x \<and> ids_list x = ids)"
  by (auto simp: GetAssetsByOwner_def idx_getList_def owner_list_def healthy_get [OF healthy] ids_list_def
      split: option.splits sum.splits)

lemma index_served: "index_right (\<alpha> d) fa \<Longrightarrow> \<exists>x. GetAssetsByOwner I d b = Inr x \<and> set (ids_list x) = owned_by fa b"
  using owner_list_served unfolding index_right_def by metis

lemma index_after:
  assumes "run_ok E I (Some (node_emitter I)) block" "state_ok E I s" "hash_nonempty E" "\<not> is_ok (GetAsset E I s [])"
    and "market_ok (GetAsset E I s) (GetListing I s)" "index_right (\<alpha> (sdb_db s)) (GetAsset E I s)"
    and "ExecuteTx E I (Some (node_emitter I)) block tx s = (s', Inr u)"
    and "\<And>p. tx_Type tx = TxMintAsset \<Longrightarrow> unmarshal_raw (dec_mint (float_norm E)) (tx_Payload tx) = Inr p \<Longrightarrow>
      \<not> is_ok (GetAsset E I s (asset_id E tx (mp_TemplateID p)))"
  shows "(tx_Type tx \<noteq> TxBuyMarket \<longrightarrow> index_right (\<alpha> (sdb_db s')) (GetAsset E I s')) \<and>
    ((\<forall>b. \<exists>x. GetAssetsByOwner I (sdb_db s') b = Inr x \<and> set (ids_list x) = owned_by (GetAsset E I s') b) \<longleftrightarrow>
      tx_Type tx \<noteq> TxBuyMarket) \<and>
    (\<forall>p. GetSessionsByPlayer I (sdb_db s') p = GetSessionsByPlayer I (sdb_db s) p)"
proof -
  have n: "node_emitter I = the_indexer I" by (simp add: node_emitter_def the_indexer_def)
  note e = ExecuteTx_effect [OF assms(1) [unfolded n] assms(2-4) assms(7) [unfolded n]]
  have right: "index_right (\<alpha> (sdb_db s')) (GetAsset E I s')" if "tx_Type tx \<noteq> TxBuyMarket"
    using index_right_step [OF e assms(6) that] assms(8) by blast
  have wrong: "\<exists>b. \<not> (\<exists>x. GetAssetsByOwner I (sdb_db s') b = Inr x \<and> set (ids_list x) = owned_by (GetAsset E I s') b)"
    if buy: "tx_Type tx = TxBuyMarket"
  proof -
    obtain j ids where j: "j \<in> owned_by (GetAsset E I s') (tx_From tx)" "owner_list (\<alpha> (sdb_db s')) (tx_From tx) = Some ids" "j \<notin> set ids"
      using index_wrong_buy [OF e assms(6) buy assms(5)] by blast
    then show ?thesis by (intro exI [of _ "tx_From tx"]) (auto simp: owner_list_served)
  qed
  show ?thesis using right wrong index_served GetSessionsByPlayer_unchanged [OF e] by blast
qed

end

text \<open>
  C32. The index of owned assets follows the ledger through every transaction but a purchase: minting,
  burning, transferring and listing keep the stored lists equal to the owned assets, so \<open>GetAssetsByOwner\<close>
  answers correctly; after a purchase it does not, because no transfer event is emitted. The index of sessions
  is never written at all.
\<close>

theorem index_tracks_owners:
  assumes "working_db I \<alpha>" "run_ok E I (Some (node_emitter I)) block" "state_ok E I s" "hash_nonempty E" "\<not> is_ok (GetAsset E I s [])"
    and "market_ok (GetAsset E I s) (GetListing I s)" "index_right (\<alpha> (sdb_db s)) (GetAsset E I s)"
    and "ExecuteTx E I (Some (node_emitter I)) block tx s = (s', Inr u)"
    and "\<And>p. tx_Type tx = TxMintAsset \<Longrightarrow> unmarshal_raw (dec_mint (float_norm E)) (tx_Payload tx) = Inr p \<Longrightarrow>
      \<not> is_ok (GetAsset E I s (asset_id E tx (mp_TemplateID p)))"
  shows "(tx_Type tx \<noteq> TxBuyMarket \<longrightarrow> index_right (\<alpha> (sdb_db s')) (GetAsset E I s')) \<and>
    ((\<forall>b. \<exists>x. GetAssetsByOwner I (sdb_db s') b = Inr x \<and> set (ids_list x) = owned_by (GetAsset E I s') b) \<longleftrightarrow>
      tx_Type tx \<noteq> TxBuyMarket) \<and>
    (\<forall>p. GetSessionsByPlayer I (sdb_db s') p = GetSessionsByPlayer I (sdb_db s) p)"
  by (rule working_db.index_after [OF assms])

lemma market1_assets: "GetAsset sample_env mem market1 = (\<lambda>j. Inl ErrNotFound)" "GetListing mem market1 = (\<lambda>j. Inl ErrNotFound)"
  "sdb_db market1 = fmempty"
  by (simp_all add: fun_eq_iff market1_def)
    (simp add: sample_state_def accessor_defs sdb_set_def Snapshot_simps NewStateDB_def)

lemma market1_ok: "state_ok sample_env mem market1"
  unfolding market1_def by (intro state_ok_set) simp_all

lemma mint_tx_ok: "tx_ok mint_tx"
  unfolding mint_tx_def by (rule sample_tx_ok) (simp_all add: TxMintAsset_def utf8_ok_ascii_all struct_simps max_nesting_def)

theorem index_tracks_owners_witness:
  "\<exists>s' x. ExecuteTx sample_env mem (Some (node_emitter mem)) market_block (wire_form mint_tx) market1 = (s', Inr ()) \<and>
     GetAssetsByOwner mem (sdb_db s') alice = Inr x \<and> sword \<in> set (ids_list x)"
proof -
  have em: "emitter_opt_ok mem (Some (node_emitter mem))" "emitter_opt_ok mem None"
    using node_emitter_ok [OF mem.healthy_db_axioms] by (simp_all add: emitter_opt_ok_def)
  obtain s' where s': "ExecuteTx sample_env mem (Some (node_emitter mem)) market_block (wire_form mint_tx) market1 = (s', Inr ())"
    "reads mem market2 = reads mem s'"
    using ExecuteTx_like [OF market_run2 mint_tx_ok refl _ em(2,1), of market_block] by (auto simp: like_block_def)
  have run: "run_ok sample_env mem (Some (node_emitter mem)) market_block"
    using em(1) by (simp add: run_ok_def market_block_def in_int64_def)
  have "GetAsset sample_env mem s' sword = Inr (the_sword alice [])"
    using s'(2) market2_get(2) by (simp add: get_reads)
  then have own: "sword \<in> owned_by (GetAsset sample_env mem s') alice" by (simp add: owned_by_def the_sword_def)
  have right: "index_right (fmlookup (sdb_db market1)) (GetAsset sample_env mem market1)"
    by (simp add: index_right_def market1_assets owner_list_def owned_by_def)
  have market: "market_ok (GetAsset sample_env mem market1) (GetListing mem market1)"
    by (simp add: market_ok_def market1_assets)
  have "tx_Type (wire_form mint_tx) \<noteq> TxBuyMarket" by (simp add: wire_form_def)
  with index_tracks_owners [OF mem.working_db_axioms run market1_ok sample_hash_nonempty _ market right s'(1)]
  have "\<forall>b. \<exists>x. GetAssetsByOwner mem (sdb_db s') b = Inr x \<and> set (ids_list x) = owned_by (GetAsset sample_env mem s') b"
    by (simp add: market1_assets)
  then obtain x where "GetAssetsByOwner mem (sdb_db s') alice = Inr x" "set (ids_list x) = owned_by (GetAsset sample_env mem s') alice"
    by blast
  with s'(1) own show ?thesis by auto
qed

end
