(* ===== verification/SetupTheorems.thy ===== *)
theory SetupTheorems
  imports FaultTheorems
begin

text \<open>
  What an operator sets up before a node runs: the key file, the configuration file and the certificates.
\<close>

section \<open>Key files\<close>

text \<open>
  C38. The key file that the mode \<open>-genkey\<close> writes can be loaded with the same password: loading gives the
  generated private key, whose public key is what the mode prints. With a password under which the cipher
  refuses the text, loading reports the error and never a key.
\<close>

theorem genkey_roundtrip:
  assumes "main_genkey E M = (f, Ok pk)" "me_rand M = (Inr (pub, priv), Inr salt, Inr nonce)"
    and "fs_ok (me_files M)" "seal_ok (me_seal M)" "length nonce = gcm_NonceSize"
  shows "LoadKey (me_seal M) (me_files M) (me_keyPath M) (me_password M) f = Ok priv \<and> pk = Hex (Public E priv) \<and>
    (\<forall>pw. gcm_Open (me_seal M) (deriveKey (me_seal M) pw salt) nonce
        (gcm_Seal (me_seal M) (deriveKey (me_seal M) (me_password M) salt) nonce priv) = None \<longrightarrow>
      LoadKey (me_seal M) (me_files M) (me_keyPath M) pw f = Err (Errorf ''wrong password or corrupted keystore''))"
proof -
  have s: "SaveKey E (me_seal M) (me_files M) (Inr salt) (Inr nonce) (me_keyPath M) (me_password M) priv (me_fs M) = (f, Inr ())"
    and pk: "pk = Hex (Public E priv)"
    using assms(1,2) by (auto simp: main_genkey_def wallet_Generate_def GenerateKeyPair_def wallet_New_def wallet_PubKey_def
        split: prod.splits sum.splits)
  from s assms(3,4) show ?thesis
    by (rule SaveKey_file) (use assms(4,5) pk in \<open>auto simp: LoadKey_file seal_ok_def\<close>)
qed

text \<open>A small file system and a cipher that puts the key in front of the text.\<close>

definition toy_files :: "(bytes, bytes) fmap fs_iface" where
  "toy_files = \<lparr>fs_ReadFile = \<lambda>f path. case fmlookup f path of None \<Rightarrow> Inl ErrNotFound | Some d \<Rightarrow> Inr d,
     fs_WriteFile = \<lambda>f path d. (fmupd path d f, Inr ()), fs_MkdirAll = \<lambda>f dir. (f, Inr ()),
     fs_Create = \<lambda>f path. (fmupd path [] f, Inr ()),
     fs_Append = \<lambda>f path d. case fmlookup f path of None \<Rightarrow> (f, Inl ErrNotFound) | Some c \<Rightarrow> (fmupd path (c @ d) f, Inr ()),
     fs_Sync = \<lambda>f path. (f, Inr ())\<rparr>"

definition toy_seal :: seal_env where
  "toy_seal = \<lparr>pbkdf2_Key = \<lambda>pw salt n len. take len (pw @ salt @ replicate len (CHR ''.'')),
     gcm_Seal = \<lambda>key nonce p. key @ p,
     gcm_Open = \<lambda>key nonce c. if take (length key) c = key then Some (drop (length key) c) else None\<rparr>"

definition toy_machine :: "((bytes, bytes) fmap, (bytes, bytes) fmap, unit, unit, pipe) main_env" where
  "toy_machine = \<lparr>me_keyPath = ''node.key'', me_password = ''secret'', me_config = Inl ErrNotFound,
     me_notExist = (\<lambda>_. True), me_files = toy_files, me_fs = fmempty, me_seal = toy_seal,
     me_rand = (Inr (Public sample_env alice_key, alice_key), Inr ''0123456789abcdef'', Inr ''abcdefghijkl''),
     me_mkdir = (\<lambda>_. Inr ()), me_openDB = (\<lambda>_. Inr fmempty),
     me_tls = \<lparr>tls_LoadX509KeyPair = (\<lambda>_ _. Inr ()), tls_ReadFile = (\<lambda>_. Inr []), tls_CertPool = (\<lambda>_. Some ())\<rparr>,
     me_listenP2P = (\<lambda>_ _. Inr ()), me_dial = (\<lambda>_ _. Inl ErrNotFound), me_listenRPC = (\<lambda>_. Inr ()), me_now = 1\<rparr>"

lemma toy_ok: "fs_ok toy_files" "seal_ok toy_seal"
  by (auto simp: fs_ok_def toy_files_def seal_ok_def toy_seal_def fun_eq_iff split: option.splits if_splits)

lemma toy_fields: "me_files toy_machine = toy_files" "me_seal toy_machine = toy_seal" "me_keyPath toy_machine = ''node.key''"
  "me_password toy_machine = ''secret''"
  "me_rand toy_machine = (Inr (Public sample_env alice_key, alice_key), Inr ''0123456789abcdef'', Inr ''abcdefghijkl'')"
  by (simp_all add: toy_machine_def)

theorem genkey_roundtrip_witness:
  "\<exists>f. main_genkey sample_env toy_machine = (f, Ok alice) \<and>
     LoadKey toy_seal toy_files ''node.key'' ''secret'' f = Ok alice_key \<and>
     LoadKey toy_seal toy_files ''node.key'' ''guess'' f = Err (Errorf ''wrong password or corrupted keystore'')"
proof -
  have l: "aes_NewCipher (deriveKey toy_seal pw salt) = Inr (deriveKey toy_seal pw salt)" for pw salt
    using toy_ok(2) by (simp add: seal_ok_def deriveKey_def aes_NewCipher_def)
  have w: "\<exists>f'. fs_WriteFile toy_files f path d = (f', Inr ())" for f path d by (simp add: toy_files_def)
  obtain f where "SaveKey sample_env toy_seal toy_files (Inr ''0123456789abcdef'') (Inr ''abcdefghijkl'') ''node.key'' ''secret''
      alice_key (me_fs toy_machine) = (f, Inr ())"
    using w by (simp only: SaveKey_def sum.case Let_def l) blast
  then have f: "main_genkey sample_env toy_machine = (f, Ok alice)"
    by (simp add: main_genkey_def toy_fields wallet_Generate_def GenerateKeyPair_def wallet_New_def wallet_PubKey_def alice_def [symmetric])
  have "hd (deriveKey toy_seal ''secret'' s) \<noteq> hd (deriveKey toy_seal ''guess'' s)" for s
    by (simp add: toy_seal_def deriveKey_def)
  then have differ: "deriveKey toy_seal ''secret'' s \<noteq> deriveKey toy_seal ''guess'' s" for s by metis
  have "length (deriveKey toy_seal pw s) = 32" for pw s using toy_ok(2) by (simp add: seal_ok_def deriveKey_def)
  then have "gcm_Open toy_seal (deriveKey toy_seal ''guess'' s) n (gcm_Seal toy_seal (deriveKey toy_seal ''secret'' s) n p) = None"
    for s n p using differ [of s] by (simp add: toy_seal_def)
  with genkey_roundtrip [OF f toy_fields(5)] f show ?thesis
    by (simp add: toy_fields toy_ok gcm_NonceSize_def)
qed

section \<open>The configuration file\<close>

text \<open>
  C39. A saved configuration is loaded again as it was exactly when it is valid; loading an invalid one
  reports what is wrong with it.
\<close>

theorem config_roundtrip:
  assumes "cfg_Save F nilv c path f = (f', Inr u)" "fs_ok F" "config_text c"
  shows "(config_ok c \<longrightarrow> cfg_Load (fs_ReadFile F f' path) = Inr c) \<and>
    (\<not> config_ok c \<longrightarrow> (\<exists>e. cfg_Validate c = Inl e \<and> cfg_Load (fs_ReadFile F f' path) = Inl (Wrapf ''config validation'' e)))"
  using saved_config [OF assms] cfg_Validate_Inr [of c "()"] by (cases "cfg_Validate c") auto

lemma sample_config_text: "config_text sample_config"
  by (simp add: config_text_def sample_config_def DefaultConfig_def in_int64_def utf8_ok_ascii_all map_utf8_def)

lemma sample_config_valid: "config_ok sample_config"
  by (auto simp: config_ok_def sample_config_def DefaultConfig_def)

theorem config_roundtrip_witness:
  "\<exists>f'. cfg_Save toy_files False sample_config ''config.json'' fmempty = (f', Inr ()) \<and>
     cfg_Load (fs_ReadFile toy_files f' ''config.json'') = Inr sample_config"
proof -
  obtain f' where f: "cfg_Save toy_files False sample_config ''config.json'' fmempty = (f', Inr ())"
    by (simp add: cfg_Save_def toy_files_def)
  with config_roundtrip [OF f toy_ok(1) sample_config_text] sample_config_valid show ?thesis by blast
qed

section \<open>Certificates\<close>

text \<open>
  What the TLS loader sees of the files. Documented: a pool can be made of the PEM form of a created
  certificate, and a certificate created for the public key of a private key makes a pair with it.
\<close>

definition tls_reads :: "('k, 'q) x509_lib \<Rightarrow> 'f fs_iface \<Rightarrow> 'f \<Rightarrow> ('x, 'p) tls_lib \<Rightarrow> bool" where
  "tls_reads X F f T \<longleftrightarrow> tls_ReadFile T = fs_ReadFile F f \<and>
     (\<forall>i t p q s der. x509_CreateCertificate X i t p q s = Inr der \<longrightarrow> tls_CertPool T (pem_Text X CERTIFICATE der) \<noteq> None) \<and>
     (\<forall>cp kp i t p k s der kder.
        fs_ReadFile F f cp = Inr (pem_Text X CERTIFICATE der) \<and> fs_ReadFile F f kp = Inr (pem_Text X EC_PRIVATE_KEY kder) \<and>
        x509_CreateCertificate X i t p (ecdsa_Public X k) s = Inr der \<and> x509_MarshalECPrivateKey X k = Inr kder \<longrightarrow>
        is_ok (tls_LoadX509KeyPair T cp kp))"

lemma dotted_plain: "CHR ''/'' \<notin> set n \<Longrightarrow> plain_file (n @ ''.crt'')" "CHR ''/'' \<notin> set n \<Longrightarrow> plain_file (n @ ''.key'')"
  by (auto simp: plain_file_def append_eq_Cons_conv)

lemma gencerts_reads:
  assumes "GenerateAll X F D dir n opts f = (f', Inr u)" "fs_ok F" "CHR ''/'' \<notin> set n"
    and "ca = filepath_Join dir ''ca.crt''" "crt = filepath_Join dir (n @ ''.crt'')" "key = filepath_Join dir (n @ ''.key'')"
  obtains caKey caCert caDER caKeyDER nodeKey nodeDER nodeKeyDER
  where "certs_made X D n opts (caKey, caCert, caDER, caKeyDER, nodeKey, nodeDER, nodeKeyDER)"
    "fs_ReadFile F f' ca = Inr (pem_Text X CERTIFICATE (if n = ''ca'' then nodeDER else caDER))"
    "fs_ReadFile F f' crt = Inr (pem_Text X CERTIFICATE nodeDER)" "fs_ReadFile F f' key = Inr (pem_Text X EC_PRIVATE_KEY nodeKeyDER)"
proof -
  from GenerateAll_files [OF assms(1,2)]
  obtain r caKey caCert caDER caKeyDER nodeKey nodeDER nodeKeyDER
    where m: "certs_made X D n opts (caKey, caCert, caDER, caKeyDER, nodeKey, nodeDER, nodeKeyDER)"
      and f': "fs_ReadFile F f' = r(ca := Inr (pem_Text X CERTIFICATE caDER), filepath_Join dir ''ca.key'' := Inr (pem_Text X EC_PRIVATE_KEY caKeyDER),
        crt := Inr (pem_Text X CERTIFICATE nodeDER), key := Inr (pem_Text X EC_PRIVATE_KEY nodeKeyDER))"
    unfolding assms(4-6) by metis
  note p = dotted_plain [OF assms(3)] dotted_plain [of "''ca''"]
  have ne: "crt \<noteq> key" "ca \<noteq> key" "ca \<noteq> filepath_Join dir ''ca.key''"
    using filepath_Join_inject [OF p(1,2)] filepath_Join_inject [of "''ca.crt''" "n @ ''.key''" dir] p(2,3)
      filepath_Join_inject [of "''ca.crt''" "''ca.key''" dir] p(4) by (auto simp: assms(4-6))
  have "ca = crt \<longleftrightarrow> n = ''ca''"
    using filepath_Join_inject [of "''ca.crt''" "n @ ''.crt''" dir] p(1,3) by (auto simp: assms(4,5))
  with f' ne that [OF m] show thesis by auto
qed

text \<open>
  C40. After certificates were generated for a node whose ID is a plain name, the node can load its TLS
  setup from the files, with mutual authentication under TLS 1.3. The file of the CA holds the self-signed
  CA certificate that issued the node's certificate, unless the node is named \<open>ca\<close>: then its own certificate
  and key have overwritten those of the CA.
\<close>

theorem gencerts_usable:
  assumes "main_gencerts X F D dir notExist data f = (f', Ok u)" "loadConfig notExist data = Inr cfg" "fs_ok F"
    and "CHR ''/'' \<notin> set (cfg_NodeID cfg)" "tls_reads X F f' T"
    and "ca = filepath_Join dir ''ca.crt''" "crt = filepath_Join dir (cfg_NodeID cfg @ ''.crt'')"
    and "key = filepath_Join dir (cfg_NodeID cfg @ ''.key'')"
  shows "\<exists>caKey caCert caDER caKeyDER nodeKey nodeDER nodeKeyDER cert pool.
    certs_made X D (cfg_NodeID cfg) None (caKey, caCert, caDER, caKeyDER, nodeKey, nodeDER, nodeKeyDER) \<and>
    fs_ReadFile F f' ca = Inr (pem_Text X CERTIFICATE (if cfg_NodeID cfg = ''ca'' then nodeDER else caDER)) \<and>
    fs_ReadFile F f' crt = Inr (pem_Text X CERTIFICATE nodeDER) \<and>
    LoadTLSConfig T (Some \<lparr>tls_CACert = ca, tls_NodeCert = crt, tls_NodeKey = key\<rparr>) =
      Inr (Some \<lparr>ts_Certificates = [cert], ts_ClientCAs = pool, ts_RootCAs = pool,
        ts_ClientAuth = RequireAndVerifyClientCert, ts_MinVersion = VersionTLS13\<rparr>)"
proof -
  let ?n = "cfg_NodeID cfg"
  have "GenerateAll X F D dir ?n None f = (f', Inr ())"
    using assms(1,2) by (auto simp: main_gencerts_def split: prod.splits sum.splits)
  then obtain caKey caCert caDER caKeyDER nodeKey nodeDER nodeKeyDER
    where m: "certs_made X D ?n None (caKey, caCert, caDER, caKeyDER, nodeKey, nodeDER, nodeKeyDER)"
      and reads: "fs_ReadFile F f' ca = Inr (pem_Text X CERTIFICATE (if ?n = ''ca'' then nodeDER else caDER))"
      "fs_ReadFile F f' crt = Inr (pem_Text X CERTIFICATE nodeDER)" "fs_ReadFile F f' key = Inr (pem_Text X EC_PRIVATE_KEY nodeKeyDER)"
    using assms(3,4,6-8) by (rule gencerts_reads)
  obtain t t' p where c: "x509_CreateCertificate X 0 t t (ecdsa_Public X caKey) caKey = Inr caDER"
    "x509_CreateCertificate X 1 t' p (ecdsa_Public X nodeKey) caKey = Inr nodeDER" "x509_MarshalECPrivateKey X nodeKey = Inr nodeKeyDER"
    using m unfolding certs_made_def by blast
  have "is_ok (tls_LoadX509KeyPair T crt key)"
    using assms(5) reads(2,3) c(2,3) unfolding tls_reads_def by blast
  then obtain cert where cert: "tls_LoadX509KeyPair T crt key = Inr cert" by (cases "tls_LoadX509KeyPair T crt key") auto
  have "tls_CertPool T (pem_Text X CERTIFICATE nodeDER) \<noteq> None" "tls_CertPool T (pem_Text X CERTIFICATE caDER) \<noteq> None"
    using assms(5) c(1,2) unfolding tls_reads_def by blast+
  then obtain pool where pool: "tls_CertPool T (pem_Text X CERTIFICATE (if ?n = ''ca'' then nodeDER else caDER)) = Some pool"
    by (cases "?n = ''ca''") auto
  have "crt \<noteq> []" using filepath_Join_last [OF dotted_plain(1) [OF assms(4)], of dir] by (auto simp: assms(7))
  then have "LoadTLSConfig T (Some \<lparr>tls_CACert = ca, tls_NodeCert = crt, tls_NodeKey = key\<rparr>) =
      Inr (Some \<lparr>ts_Certificates = [cert], ts_ClientCAs = pool, ts_RootCAs = pool,
        ts_ClientAuth = RequireAndVerifyClientCert, ts_MinVersion = VersionTLS13\<rparr>)"
    using cert pool reads(1) assms(5) by (simp add: LoadTLSConfig_def tls_reads_def)
  with m reads(1,2) show ?thesis by blast
qed

text \<open>A toy X.509: keys are numbers, and a certificate is the name of its subject with the key.\<close>

definition toy_x509 :: "(nat, nat) x509_lib" where
  "toy_x509 = \<lparr>ecdsa_Public = id, x509_CreateCertificate = \<lambda>i t p q s. Inr (crt_CommonName t @ replicate q (CHR ''+'')),
     x509_ParseCertificate = \<lambda>der. Inr (ca_template 0 0 0\<lparr>crt_Raw := der\<rparr>), x509_MarshalECPrivateKey = \<lambda>k. Inr (replicate k (CHR ''+'')),
     pem_Text = \<lambda>ty data. ty @ data\<rparr>"

definition toy_draws :: "nat cert_draws" where
  "toy_draws = \<lparr>cd_caKey = Inr 1, cd_caSerial = Inr 7, cd_nodeKey = Inr 2, cd_nodeSerial = Inr 8, cd_now = int\<rparr>"

definition toy_tls :: "(bytes, bytes) fmap \<Rightarrow> (unit, bytes) tls_lib" where
  "toy_tls f = \<lparr>tls_LoadX509KeyPair = \<lambda>_ _. Inr (), tls_ReadFile = fs_ReadFile toy_files f, tls_CertPool = Some\<rparr>"

lemma toy_tls_reads: "tls_reads toy_x509 toy_files f (toy_tls f)"
  by (simp add: tls_reads_def toy_tls_def)

lemma toy_writePEM: "\<exists>f'. writePEM toy_x509 toy_files path ty d f = (f', Inr ())"
  by (simp add: writePEM_def toy_files_def)

lemma toy_x509_simps:
  "x509_CreateCertificate toy_x509 i t p q k = Inr (crt_CommonName t @ replicate q (CHR ''+''))"
  "x509_ParseCertificate toy_x509 der = Inr (ca_template 0 0 0\<lparr>crt_Raw := der\<rparr>)"
  "x509_MarshalECPrivateKey toy_x509 k = Inr (replicate k (CHR ''+''))"
  by (simp_all add: toy_x509_def)

lemma toy_gencerts: "\<exists>f'. GenerateAll toy_x509 toy_files toy_draws dir n opts f = (f', Inr ())"
proof -
  obtain w where w: "writePEM toy_x509 toy_files p ty d f = (w p ty d f, Inr ())" for p ty d f using toy_writePEM by metis
  have "fs_MkdirAll toy_files f dir = (f, Inr ())" by (simp add: toy_files_def)
  then show ?thesis by (simp add: GenerateAll_def generate_ca_def generate_node_def w randomSerial_def toy_draws_def
    toy_x509_simps Let_def)
qed

theorem gencerts_usable_witness:
  "\<exists>f' setup. main_gencerts toy_x509 toy_files toy_draws ''certs'' (\<lambda>_. True) (Inl ErrNotFound) fmempty = (f', Ok ()) \<and>
     LoadTLSConfig (toy_tls f') (Some \<lparr>tls_CACert = ''certs/ca.crt'', tls_NodeCert = ''certs/node0.crt'', tls_NodeKey = ''certs/node0.key''\<rparr>) =
       Inr (Some setup) \<and> ts_ClientAuth setup = RequireAndVerifyClientCert"
proof -
  have cfg: "loadConfig (\<lambda>_. True) (Inl ErrNotFound) = Inr DefaultConfig" by (simp add: loadConfig_def cfg_Load_def)
  have n: "cfg_NodeID DefaultConfig = ''node0''" by (simp add: DefaultConfig_def)
  obtain f' where "GenerateAll toy_x509 toy_files toy_draws ''certs'' ''node0'' None fmempty = (f', Inr ())"
    using toy_gencerts by metis
  then have m: "main_gencerts toy_x509 toy_files toy_draws ''certs'' (\<lambda>_. True) (Inl ErrNotFound) fmempty = (f', Ok ())"
    by (simp add: main_gencerts_def cfg n)
  have j: "''certs/ca.crt'' = filepath_Join ''certs'' ''ca.crt''" "''certs/node0.crt'' = filepath_Join ''certs'' (cfg_NodeID DefaultConfig @ ''.crt'')"
    "''certs/node0.key'' = filepath_Join ''certs'' (cfg_NodeID DefaultConfig @ ''.key'')"
    by (simp_all add: n filepath_Join_def filepath_Clean_def)
  have "CHR ''/'' \<notin> set (cfg_NodeID DefaultConfig)" by (simp add: n)
  from gencerts_usable [OF m cfg toy_ok(1) this toy_tls_reads j] m show ?thesis by auto
qed

end
