(* ===== verification/ClientTheorems.thy ===== *)
theory ClientTheorems
  imports SetupTheorems
begin

text \<open>
  The client's side: the gate in front of the RPC methods, and a wallet's transfer on its way through the
  RPC server into the pool.
\<close>

section \<open>The gate of the RPC server\<close>

text \<open>
  C24. No HTTP request changes the state or the chain. A request changes the pool only if it is a \<open>POST\<close>
  with the configured token, and then by adding one transaction of this chain with its own hash as ID and a
  valid signature; without the token the answer is 401, for another HTTP method it is 405.
\<close>

theorem rpc_guarded:
  assumes "serveHTTP E I B token chainID now r nd = (nd', reply)"
  shows "nd_state nd' = nd_state nd \<and> nd_bc nd' = nd_bc nd \<and>
    (nd' \<noteq> nd \<longrightarrow> hq_Method r = ''POST'' \<and> (token = [] \<or> hq_Authorization r = ''Bearer '' @ token) \<and>
      (\<exists>tx. tx_ChainID tx = chainID \<and> tx_ID tx = tx_Hash E tx \<and> tx_Verify E tx = Inr () \<and>
         pool_Add E now tx (nd_pool nd) = (nd_pool nd', Inr ()))) \<and>
    (hq_Method r \<noteq> ''POST'' \<longrightarrow> reply = TextReply 405 ''only POST allowed'') \<and>
    (hq_Method r = ''POST'' \<and> token \<noteq> [] \<and> hq_Authorization r \<noteq> ''Bearer '' @ token \<longrightarrow>
      reply = JsonReply 401 (errResponse ANil CodeUnauthorized (Errorf ''unauthorized'')))"
proof -
  have "(hq_Method r \<noteq> ''POST'' \<longrightarrow> reply = TextReply 405 ''only POST allowed'') \<and>
    (hq_Method r = ''POST'' \<and> token \<noteq> [] \<and> hq_Authorization r \<noteq> ''Bearer '' @ token \<longrightarrow>
      reply = JsonReply 401 (errResponse ANil CodeUnauthorized (Errorf ''unauthorized'')))"
    using assms by (auto simp: serveHTTP_def)
  moreover from assms have "nd_state nd' = nd_state nd \<and> nd_bc nd' = nd_bc nd \<and>
    (nd' \<noteq> nd \<longrightarrow> hq_Method r = ''POST'' \<and> (token = [] \<or> hq_Authorization r = ''Bearer '' @ token) \<and>
      (\<exists>tx. tx_ChainID tx = chainID \<and> tx_ID tx = tx_Hash E tx \<and> tx_Verify E tx = Inr () \<and>
         pool_Add E now tx (nd_pool nd) = (nd_pool nd', Inr ())))"
  proof (cases rule: serveHTTP_pool)
    case (2 req tx0)
    let ?tx = "tx0\<lparr>tx_ID := tx_Hash E tx0\<rparr>"
    obtain m x where a: "pool_Add E now ?tx (nd_pool nd) = (m, x)" by fastforce
    have "tx_ID ?tx = tx_Hash E ?tx" by (simp add: tx_Hash_def enc_signingBody_def marshal_def)
    then show ?thesis
      using 2 a pool_Add_error [of E now ?tx "nd_pool nd"] pool_Add_Inr [of E now ?tx "nd_pool nd"]
      by (cases x) (auto intro!: exI [of _ ?tx])
  qed simp
  ultimately show ?thesis by blast
qed

section \<open>A transfer from the wallet to the pool\<close>

text \<open>The request a client sends for a transaction.\<close>

definition sendTx_request :: "bytes \<Rightarrow> transaction \<Rightarrow> json" where
  "sendTx_request i tx = JObj [(''jsonrpc'', enc_string ''2.0''), (''id'', enc_string i), (''method'', enc_string ''sendTx''),
     (''params'', enc_transaction tx)]"

lemma sendTx_decoded:
  assumes "tx_ok tx" "jdepth (enc_transaction tx) < max_nesting" "utf8_ok i" "length (marshal (sendTx_request i) tx) \<le> max_body"
  shows "decode_first max_body (dec_request fn) (marshal (sendTx_request i) tx) =
    Inr \<lparr>rq_JSONRPC = ''2.0'', rq_ID = AStr i, rq_Method = ''sendTx'', rq_Params = Some (enc_transaction tx)\<rparr>"
proof -
  have j: "json_ok (sendTx_request i tx)" "jdepth (sendTx_request i tx) \<le> max_nesting"
    using enc_transaction_ok(1) [OF assms(1)] assms(2)
    by (simp_all add: sendTx_request_def enc_string_def raw_ok_quote raw_ok_plain plain_name_def)
  have "parse_val (2 * length (marshal (sendTx_request i) tx) + 2) max_nesting (marshal (sendTx_request i) tx) =
      Some (sendTx_request i tx, [])"
    using parse_print_val(1) [OF j _ value_end_Nil] by (simp add: marshal_def del: parse_val.simps)
  moreover have "dec_any fn (enc_string i) = Inr (AStr i)" using assms(3) by (simp add: enc_string_def unquote_quote)
  then have "dec_request fn (sendTx_request i tx) =
      Inr \<lparr>rq_JSONRPC = ''2.0'', rq_ID = AStr i, rq_Method = ''sendTx'', rq_Params = Some (enc_transaction tx)\<rparr>"
    by (simp add: dec_request_def sendTx_request_def request_field_def decode_struct_def plain_name_def utf8_ok_ascii_all)
  ultimately show ?thesis using assms(4) by (simp add: decode_first_def del: parse_val.simps)
qed

lemma transfer_raw: "enc_raw (Some (enc_transfer p)) = enc_transfer p"
  by (simp add: enc_raw_def enc_transfer_def html_plain)

lemma dec_enc_transfer: "utf8_ok (tp_To p) \<Longrightarrow> dec_transfer (enc_transfer p) = Inr p"
  by (simp add: payload_defs transfer_field_def enc_transfer_def decode_struct_def plain_name_def)

lemma wallet_transfer_ok:
  assumes "utf8_ok chainID" "in_int64 t" "wallet_Transfer E t chainID to amount nonce fee (wallet_New E priv) = Inr tx"
  shows "tx_ok tx" "jdepth (enc_transaction tx) < max_nesting" "wire_form tx = tx" "tx_ChainID tx = chainID" "tx_Timestamp tx = t"
    "tx_ID tx = tx_Hash E tx" "tx_Payload tx = Some (enc_transfer \<lparr>tp_To = to, tp_Amount = amount\<rparr>)"
proof -
  note tx = assms(3) [unfolded wallet_Transfer_tx, simplified, symmetric]
  have j: "json_ok (enc_transfer p)" "jdepth (enc_transfer p) = 1" for p
    by (simp_all add: enc_transfer_def raw_ok_plain plain_name_def)
  show p: "tx_Payload tx = Some (enc_transfer \<lparr>tp_To = to, tp_Amount = amount\<rparr>)" "tx_ChainID tx = chainID" "tx_Timestamp tx = t"
    by (simp_all add: tx tx_Sign_def Let_def)
  show "tx_ID tx = tx_Hash E tx" unfolding tx tx_Hash_Sign by (simp add: tx_Sign_def Let_def)
  show "tx_ok tx"
    using assms(1,2) j
    by (simp add: tx tx_ok_def tx_Sign_def Let_def tx_Hash_def Sign_def Hex_def TxTransfer_def utf8_ok_ascii_all max_nesting_def)
  show "wire_form tx = tx" by (simp add: wire_form_def p transfer_raw)
  show "jdepth (enc_transaction tx) < max_nesting"
    by (simp add: enc_transaction_def p transfer_raw j max_nesting_def)
qed

lemma wallet_pay_bob: "wallet_Transfer sample_env 5 ''tolchain'' bob 7 0 1 (wallet_New sample_env alice_key) = Inr pay_bob"
  by (simp add: wallet_Transfer_tx pay_bob_def sample_tx_def sample_unsigned_def enc_transfer_def transfer_payload_json_def
      alice_def [symmetric])

lemma pay_bob_body: "length (marshal (sendTx_request ''1'') pay_bob) \<le> max_body"
proof -
  have "length (Sign sample_env alice_key (tx_ID pay_bob)) = 64 + 2 * length (tx_ID pay_bob)" by (simp add: Sign_def)
  moreover have "length (print_json (enc_raw (Some (transfer_payload_json bob 7)))) < 1000"
    by (simp add: enc_raw_def transfer_payload_json_def enc_string_def enc_uint64_def print_nat_digit html_plain)
  moreover have "quote_go ''2.0'' = ''2.0''" "quote_go ''1'' = ''1''" "quote_go ''sendTx'' = ''sendTx''"
    by (simp_all add: quote_ascii esc_ascii_def)
  ultimately show ?thesis
    using pay_bob_ID_length print_int_length [of 5]
    by (simp add: marshal_def sendTx_request_def enc_string_def max_body_def)
      (simp add: enc_transaction_def enc_string_def enc_uint64_def enc_int64_def pay_bob_fields print_nat_digit in_int64_def)
qed

definition pay_request :: http_request where
  "pay_request = \<lparr>hq_Method = ''POST'', hq_Authorization = ''Bearer token'', hq_Body = marshal (sendTx_request ''1'') pay_bob\<rparr>"

definition idle_node :: "(bytes, bytes) fmap node" where
  "idle_node = \<lparr>nd_state = sample_state, nd_bc = NewBlockchain fmempty, nd_pool = NewMempool\<rparr>"

lemma idle_pool: "pool_ok sample_env (nd_pool idle_node)" "pool_Size (nd_pool idle_node) < maxMempoolSize" "pool_Get i (nd_pool idle_node) = None"
  "pool_queue (nd_pool idle_node) = []"
  by (simp_all add: idle_node_def NewMempool_ok)
    (simp_all add: NewMempool_def pool_Get_def pool_Size_def mempool_consts fcard_fempty)

theorem rpc_guarded_witness:
  "\<exists>nd'. serveHTTP sample_env mem (LevelBlockStore mem) ''token'' ''tolchain'' 6 (pay_request\<lparr>hq_Authorization := ''Bearer guess''\<rparr>) idle_node =
      (nd', JsonReply 401 (errResponse ANil CodeUnauthorized (Errorf ''unauthorized''))) \<and> nd_state nd' = sample_state \<and> nd' = idle_node"
proof -
  let ?r = "pay_request\<lparr>hq_Authorization := ''Bearer guess''\<rparr>"
  obtain nd' reply where s: "serveHTTP sample_env mem (LevelBlockStore mem) ''token'' ''tolchain'' 6 ?r idle_node = (nd', reply)"
    by fastforce
  have "hq_Method ?r = ''POST''" "hq_Authorization ?r \<noteq> ''Bearer '' @ ''token''" by (simp_all add: pay_request_def)
  with rpc_guarded [OF s] s show ?thesis by (auto simp: idle_node_def)
qed

end
