(* ===== verification/Spec2Isabelle.thy ===== *)
theory Spec2Isabelle
  imports ClientTheorems
begin

text \<open>
  A verification of tolchain, a proof-of-authority blockchain node for games written in Go (sources under
  \<open>src/\<close>). Clients submit signed transactions over JSON-RPC; a pool keeps them; the validator whose turn it
  is executes them on the world state, signs a block and stores it; other nodes fetch blocks over TCP, check
  and execute them. Transactions transfer tokens, mint, burn, transfer and trade assets, and lock and pay the
  stakes of game sessions.

  \<^bold>\<open>Conventions.\<close> A byte string is \<open>bytes\<close>; \<open>uint64\<close> is a 64-bit word, \<open>int64\<close> an integer with the
  wrap-around written out (\<open>wrap64\<close>); a Go map is a finite map whose iteration order is a parameter; an
  operation that can fail returns \<open>error + 'a\<close>, one that can also end the process returns an \<open>outcome\<close>
  (\<open>Ok\<close>, \<open>Err\<close>, \<open>Fatal\<close> for \<open>log.Fatal\<close>, \<open>Panic\<close>). Methods take and return the state they change. Names are
  those of the source, with a prefix where HOL has the name already. SHA-256, ed25519, PBKDF2, AES-GCM, X.509,
  goleveldb, files, connections and clocks are parameters; what is documented of them is a named predicate
  (\<open>ed25519_ok\<close>, \<open>no_collision\<close>, \<open>seal_ok\<close>, \<open>goleveldb_ok\<close>, \<open>fs_ok\<close>, \<open>tls_reads\<close>, \<open>conn_ok\<close>,
  \<open>conn_works\<close>) and a hypothesis where it is used.

  \<^bold>\<open>Go's libraries.\<close> \<open>Prelude\<close> holds the shared vocabulary. \<open>Json\<close>, \<open>JsonString\<close>, \<open>JsonCodec\<close>,
  \<open>JsonAny\<close>, \<open>JsonSound\<close>, \<open>JsonHtml\<close> and \<open>JsonIndent\<close> model \<open>encoding/json\<close> at the level of bytes:
  scanner, printers, string escapes, struct decoding with case folding, and that what was printed is read
  back. \<open>Files\<close> models what is used of \<open>os\<close> and \<open>path/filepath\<close>, \<open>Crypto\<close> the package \<open>crypto\<close>.

  \<^bold>\<open>Data.\<close> \<open>CoreState\<close> (\<open>core/state.go\<close>), \<open>Transaction\<close> (\<open>core/transaction.go\<close>) and \<open>Block\<close>
  (\<open>core/block.go\<close>) hold the records with their JSON forms, hashes and signatures. The contract of a JSON
  form is the locale \<open>json_codec\<close>, interpreted for each stored type.

  \<^bold>\<open>Storage.\<close> \<open>KVStore\<close> is the interface of \<open>storage/db.go\<close> with its contract, the locales \<open>kv_db\<close> (what
  reads and batches mean, errors allowed), \<open>healthy_db\<close> (reads do not fail) and \<open>working_db\<close> (writes do not
  fail either), interpreted for the store of \<open>internal/testutil/memdb.go\<close> and, in \<open>LevelDB\<close>, for
  \<open>storage/leveldb.go\<close>. \<open>StateDB\<close> is \<open>storage/statedb.go\<close>; \<open>StateView\<close> proves that it refines a map from
  keys to values. \<open>BlockStore\<close> and \<open>Chain\<close> are the block stores and \<open>core/blockchain.go\<close> (locales
  \<open>block_store\<close>, \<open>healthy_blocks\<close>, interpreted for both stores).

  \<^bold>\<open>Execution.\<close> \<open>Events\<close> is \<open>events/emitter.go\<close>, \<open>Modules\<close> the handlers under \<open>vm/modules\<close>,
  \<open>Executor\<close> is \<open>vm/registry.go\<close> and \<open>vm/executor.go\<close>, \<open>Indexer\<close> is \<open>indexer/indexer.go\<close>.
  \<open>ModuleFacts\<close>, \<open>StateInv\<close>, \<open>Supply\<close>, \<open>Authority\<close>, \<open>Market\<close>, \<open>Determinism\<close> and \<open>IndexFacts\<close> prove
  the invariants; \<open>Ledger\<close> is the step relation of a world state with its history, over which they hold by
  rule induction.

  \<^bold>\<open>The node.\<close> \<open>Mempool\<close> is \<open>core/mempool.go\<close> (locale \<open>tx_queue\<close>); \<open>Config\<close>, \<open>Genesis\<close> and
  \<open>Consensus\<close> are \<open>config/config.go\<close>, \<open>config/genesis.go\<close> and \<open>consensus/poa.go\<close>; \<open>Network\<close> is the
  package \<open>network\<close>, \<open>Rpc\<close> the package \<open>rpc\<close>, \<open>Wallet\<close> the package \<open>wallet\<close>, \<open>Certgen\<close> is
  \<open>crypto/certgen\<close>, and \<open>Startup\<close> is \<open>cmd/node/main.go\<close> with \<open>config/tls.go\<close>. \<open>NodeInv\<close> and \<open>NodeRun\<close>
  prove the invariant of a running node; \<open>NodeSteps\<close> is the node as a transition system (\<open>node_step\<close>,
  \<open>node_run\<close>): ticks of the producer, messages of peers and requests of clients, in any order and with any
  bytes. \<open>Agreement\<close> proves that execution depends on the entries of the state only, so a follower repeats
  what a producer did; \<open>Frames\<close> takes this through the bytes of a connection.

  \<^bold>\<open>Properties.\<close> This theory: every run of a node is safe (C1), a follower catches up with a producer over
  the wire (C2), a restarted node goes on where it was (C12), a wallet's transfer reaches the pool (C23).
  \<open>ExecTheorems\<close>: failures, conservation of tokens, replay protection, authority over balances and assets, the
  market, refinement of transfers and purchases to moves on a ledger, determinism. \<open>StateTheorems\<close>: commits,
  snapshots, state roots, hashes and IDs, round trips, LevelDB. \<open>ChainTheorems\<close>: the pool, the turns of the
  validators, genesis, validity of produced blocks, and a block that cannot be read back. \<open>NetTheorems\<close>:
  frames, the end of the read loop, atomicity of received blocks. \<open>FaultTheorems\<close>: a transaction that stops
  the producer, a commit that fails after its block was stored, the index. \<open>SetupTheorems\<close>: key file,
  configuration file, certificates. \<open>ClientTheorems\<close>: the gate of the RPC server. Each property with
  hypotheses is followed by a concrete run where they hold; \<open>Sample\<close>, \<open>SampleMarket\<close> and \<open>NodeTheorems\<close>
  provide the runs.

  \<^bold>\<open>Fuel.\<close> The JSON scanner gets two units per byte, which suffice for every text (\<open>Json\<close>,
  \<open>JsonSound\<close>). \<open>readLoop\<close> gets one unit per message; C26 proves that more than a quarter of the number of
  bytes in the connection is enough for it to return, each message taking four bytes at least. The nesting limit 10000 is the one of \<open>encoding/json\<close>.

  \<^bold>\<open>Simplifications.\<close> Handlers of messages, requests and ticks run one after another: the interleaving of
  goroutines inside a handler is not modelled, and mutexes make each method one step. Error texts are constant
  and the message of an RPC error stands for its text. A slice that is decoded over an older one by three or
  more repeated keys of one JSON object can show stale elements in Go; here it does not. The pool's
  \<open>Pending\<close> never runs out of memory. The syncer has a validator, an executor and a state, as in
  \<open>main.go\<close>. Files at different cleaned paths are different files.

  \<^bold>\<open>Not modelled.\<close> Logging, flags and the shutdown on a signal (\<open>cmd/node/main.go\<close>); binding ports,
  HTTP transport, TLS handshakes and deadlines (\<open>rpc/server.go\<close>, \<open>network/node.go\<close>), which are I/O; opening
  and closing the LevelDB handle; the branches of \<open>network/sync.go\<close> for a nil validator or executor, which
  \<open>main.go\<close> never takes; the tests.
\<close>

section \<open>Every run of a node\<close>



section \<open>Nodes that follow a producer\<close>

text \<open>
  C2. A node that is behind catches up over the wire: when node B agrees with what node A was before A
  produced some blocks (up to 50), and asks A for the blocks above its height, the loop of A's connection
  answers with these blocks and the loop of B's connection executes them all and leaves B in agreement with A:
  the same world state, entry by entry, and the same tip.
\<close>

theorem sync_over_wire:
  assumes "healthy_db I \<alpha>" "working_db J \<beta>" "ed25519_ok E" "length priv = 64" "agree I J A0 B"
    and "producing E I (node_emitter I) cfg priv limit A0 blks A" "length blks \<le> 50"
    and "ldb_chain \<alpha> (nd_chain A) (bs @ map (store_form False) blks)" "bs \<noteq> []" "bc_height (nd_bc B) = sb_Height (last bs)"
    and "in_int64 (bc_height (nd_bc B) + 1)" "in_int64 (bc_height (nd_bc B) + 51)"
    and "limit \<le> clock' 1 + maxBlockTimeDrift" "in_int64 (clock' 1 + maxBlockTimeDrift)"
    and "conn_works C inbox outbox" "\<not> peer_closed p" "\<not> peer_closed pa" "\<not> peer_closed pb"
    and "answer = map (\<lambda>b. wire_block (store_form False b)) blks"
    and "\<forall>b\<in>set blks. jdepth (enc_block (store_form False b)) + 3 \<le> max_nesting"
    and "length (marshal enc_message (blocks_message answer)) \<le> max_message"
    and "outbox (peer_conn (SyncWithPeer C B p)) = outbox (peer_conn p) @ inbox (peer_conn pa)"
    and "inbox (peer_conn pb) = frame (blocks_message answer)"
  shows "\<exists>pa' pb' B'. readLoop 2 C (p2p_handlers (node_p2p E I C cfg)) clock pa A = Some (A, pa', Ok ()) \<and>
    outbox (peer_conn pa') = outbox (peer_conn pa) @ inbox (peer_conn pb) \<and>
    readLoop 2 C (p2p_handlers (node_p2p E J C cfg)) clock' pb B = Some (B', pb', Ok ()) \<and> agree I J A B'"
proof -
  let ?cs = "map (store_form False) blks" and ?h = "bc_height (nd_bc B) + 1"
  have J: "healthy_db J \<beta>" using assms(2) by (simp add: working_db_def)
  have an: "answer = map wire_block ?cs" using assms(19) by simp
  have "wrap64 ?h = ?h" using assms(11) by (rule wrap64_id)
  then have rq: "inbox (peer_conn pa) = frame (request_message ?h)"
    using Send_works [OF assms(15,16), of "request_message ?h"] assms(22)
    by (auto simp: SyncWithPeer_def RequestBlocks_def request_message_def)
  obtain pa' where pa: "readLoop 2 C (p2p_handlers (node_p2p E I C cfg)) clock pa A = Some (A, pa', Ok ())"
    "outbox (peer_conn pa') = outbox (peer_conn pa) @ frame (blocks_message answer)"
    using serve_blocks [OF assms(1,15,17,8,9) _ _ assms(11) _ rq, of E cfg clock] assms(7,10,12) an
    by (auto simp: algebra_simps)
  obtain B' where B': "sync_blocks E J (LevelBlockStore J) (node_emitter J) (clock' 1) cfg
      (map (\<lambda>b. Some (wire_block (store_form False b))) blks) B = (B', Ok True)" "agree I J A B'"
    using follower_catches_up [OF assms(6,5,1,2) node_emitter_ok [OF assms(1)] node_emitter_ok [OF J] assms(3,4,13,14)] by blast
  have "\<forall>b\<in>set ?cs. stored_ok b \<and> jdepth (enc_block b) + 3 \<le> max_nesting"
    using producing_stored [OF assms(6)] assms(20) by auto
  then obtain pb' where "readLoop 2 C (p2p_handlers (node_p2p E J C cfg)) clock' pb B = Some (B', pb', Ok ())"
    using follow_blocks [OF assms(15,18), of ?cs E J clock' cfg B B'] assms(21,23) B'(1) an by (auto simp: comp_def)
  then show ?thesis using pa B'(2) assms(23) by auto
qed

theorem sync_over_wire_witness:
  "\<exists>A0 A B pb pb'. A \<noteq> A0 \<and> agree mem mem A0 A0 \<and>
     readLoop 2 pipe_conn (p2p_handlers (node_p2p short_env mem pipe_conn sample_config)) (\<lambda>n. 12) pb A0 = Some (B, pb', Ok ()) \<and>
     agree mem mem A B"
proof -
  obtain A0 A b g where n: "agree mem mem A0 A0" "producing short_env mem (node_emitter mem) sample_config alice_key 10 A0 [b] A"
    "ldb_chain fmlookup (nd_chain A) [g, store_form False b]" "sb_Height g = 0" "bc_height (nd_bc A0) = 0"
    and b: "blk_Transactions b = []" "blk_Signature b = Sign short_env alice_key (ComputeHash short_env b)"
    "blk_Hash b = ComputeHash short_env b" "blk_Header b = \<lparr>hdr_ChainID = ''tolchain'', hdr_Height = 1, hdr_PrevHash = sb_Hash g,
      hdr_StateRoot = ComputeRoot short_env mem (nd_state A0), hdr_TxRoot = ComputeTxRoot short_env [], hdr_Timestamp = 10,
      hdr_Proposer = alice\<rparr>" and g: "sb_Hash g = Hash short_env (header_text g)"
    by (rule two_nodes)
  note small = small_block [OF b(1-3) b(4) [unfolded g]]
  have "bc_height (nd_chain A) = 1" using n(3) b(4) by (simp add: chain_holds_def store_form_def)
  then have "A \<noteq> A0" using n(5) by auto
  let ?pa = "sample_peer (frame (request_message 1))" and ?pb = "sample_peer (frame (blocks_message [wire_block (store_form False b)]))"
  have q: "pipe_out (peer_conn (SyncWithPeer pipe_conn A0 (sample_peer []))) = frame (request_message 1)"
    using Send_works [OF pipe_works, of "sample_peer []" "request_message 1"] n(5)
    by (auto simp: SyncWithPeer_def RequestBlocks_def request_message_def wrap64_def)
  let ?hs = "p2p_handlers (node_p2p short_env mem pipe_conn sample_config)"
  have "\<exists>pa' pb' B. readLoop 2 pipe_conn ?hs (\<lambda>n. 12) ?pa A = Some (A, pa', Ok ()) \<and>
      pipe_out (peer_conn pa') = pipe_out (peer_conn ?pa) @ pipe_in (peer_conn ?pb) \<and>
      readLoop 2 pipe_conn ?hs (\<lambda>n. 12) ?pb A0 = Some (B, pb', Ok ()) \<and> agree mem mem A B"
    by (rule sync_over_wire [where bs = "[g]" and p = "sample_peer []" and answer = "[wire_block (store_form False b)]",
          OF mem.healthy_db_axioms mem.working_db_axioms short_env_simps(4) key_length(1) n(1,2) _ _ _ _ _ _ _ _ pipe_works])
      (simp_all only: list.size list.map list.set append.simps q sample_peer_simps small n(3-5) last.simps,
        simp_all add: small n(4) in_int64_def maxBlockTimeDrift_def)
  with \<open>A \<noteq> A0\<close> n(1) show ?thesis by blast
qed

section \<open>A restarted node\<close>

text \<open>
  C12. A node that stops after a commit goes on where it was: started again on its database, it has the same
  world state, the same tip and height, and all its blocks; only the pool is empty.
\<close>

theorem node_restart:
  assumes "healthy_db I \<alpha>" "node_holds E I \<alpha> em s0 h bs nd" "bs \<noteq> []" "hash_nonempty E" "nd_state nd = NewStateDB d"
  shows "\<exists>nd2. open_chain E I now cfg priv d = (d, Ok nd2) \<and> agree I I nd nd2 \<and> ldb_chain \<alpha> (nd_chain nd2) bs \<and>
    nd_pool nd2 = NewMempool"
  by (rule healthy_db.restart_agrees [OF assms])

theorem node_restart_witness:
  "\<exists>d nd nd2. open_chain sample_env mem 1 sample_config alice_key fmempty = (d, Ok nd) \<and>
     open_chain sample_env mem 99 sample_config alice_key d = (d, Ok nd2) \<and> agree mem mem nd nd2"
proof -
  obtain d nd where o: "open_chain sample_env mem 1 sample_config alice_key fmempty = (d, Ok nd)" "nd_state nd = NewStateDB d"
    by (rule mem_open)
  obtain g where g: "node_holds sample_env mem fmlookup (node_emitter mem) (nd_state nd) [] [g] nd"
    using mem.node_start [OF _ o(1) sample_machine] by (auto simp: in_int64_def)
  from node_restart [OF mem.healthy_db_axioms g _ _ o(2), of 99 sample_config alice_key] o(1) show ?thesis by auto
qed

section \<open>From a wallet into the pool\<close>

text \<open>
  C23. A transfer that a wallet builds reaches the pool: posted with the token while it is fresh and the
  pool has room, it is appended to the queue unchanged, the reply carries its ID, and its payload decodes to
  the recipient and the amount that were asked for.
\<close>

theorem wallet_submit:
  assumes "ed25519_ok E" "length priv = 64" "utf8_ok chainID" "utf8_ok to" "utf8_ok i" "in_int64 t"
    and "wallet_Transfer E t chainID to amount nonce fee (wallet_New E priv) = Inr tx"
    and "hq_Method r = ''POST''" "token = [] \<or> hq_Authorization r = ''Bearer '' @ token"
    and "hq_Body r = marshal (sendTx_request i) tx" "length (hq_Body r) \<le> max_body"
    and "t \<le> now" "now \<le> t + maxTxAge" "pool_ok E (nd_pool nd)" "pool_Size (nd_pool nd) < maxMempoolSize"
    and "pool_Get (tx_ID tx) (nd_pool nd) = None"
  shows "\<exists>nd'. serveHTTP E I B token chainID now r nd =
      (nd', JsonReply 200 (okResponse (AStr i) (Some (JObj [(''tx_id'', enc_string (tx_ID tx))])))) \<and>
    pool_queue (nd_pool nd') = pool_queue (nd_pool nd) @ [tx] \<and>
    unmarshal_raw dec_transfer (tx_Payload tx) = Inr \<lparr>tp_To = to, tp_Amount = amount\<rparr>"
proof -
  note w = wallet_transfer_ok [OF assms(3,6,7)]
  note body = sendTx_decoded [OF w(1,2) assms(5) assms(11) [unfolded assms(10)]]
  have v: "tx_Verify E tx = Inr ()"
    using tx_Verify_Sign [OF assms(1,2)] assms(7) [unfolded wallet_Transfer_tx] by auto
  have "wrap64 (now - t) \<le> maxTxAge" using assms(12,13) by (simp add: wrap64_id in_int64_def mempool_consts)
  then obtain m where m: "pool_Add E now tx (nd_pool nd) = (m, Inr ())"
    using v w(5) assms(12,15,16) by (simp add: pool_Add_Inr pool_Get_def)
  have raw: "raw_valid (enc_transaction tx)" "raw_valid (enc_transfer \<lparr>tp_To = to, tp_Amount = amount\<rparr>)"
    using enc_transaction_ok(1) [OF w(1)] w(2) tx_ok_payload [OF w(1)] w(7) by (simp_all add: raw_valid_def)
  then have u: "unmarshal_raw dec_transaction (Some (enc_transaction tx)) = Inr tx"
    using dec_enc_transaction [OF w(1)] w(3) by (simp add: unmarshal_raw_def)
  have "tx\<lparr>tx_ID := tx_Hash E tx\<rparr> = tx" by (simp add: w(6) [symmetric])
  then have "serveHTTP E I B token chainID now r nd =
      (nd\<lparr>nd_pool := m\<rparr>, JsonReply 200 (okResponse (AStr i) (Some (JObj [(''tx_id'', enc_string (tx_ID tx))]))))"
    using assms(8-10) body u m w(4) by (auto simp: serveHTTP_def Dispatch_def rpc_sendTx_def Let_def)
  moreover have "unmarshal_raw dec_transfer (tx_Payload tx) = Inr \<lparr>tp_To = to, tp_Amount = amount\<rparr>"
    using raw(2) assms(4) w(7) by (simp add: unmarshal_raw_def dec_enc_transfer)
  ultimately show ?thesis using pool_Add_ok [OF assms(14) m] by auto
qed

theorem wallet_submit_witness:
  "\<exists>nd'. serveHTTP sample_env mem (LevelBlockStore mem) ''token'' ''tolchain'' 6 pay_request idle_node =
      (nd', JsonReply 200 (okResponse (AStr ''1'') (Some (JObj [(''tx_id'', enc_string (tx_ID pay_bob))])))) \<and>
    pool_queue (nd_pool nd') = [pay_bob]"
  using wallet_submit [OF sample_ed25519_ok _ _ _ _ _ wallet_pay_bob,
      where i = "''1''" and r = pay_request and token = "''token''" and now = 6 and nd = idle_node and I = mem
        and B = "LevelBlockStore mem"]
    pay_bob_body
  by (simp add: idle_pool) (simp add: pay_request_def in_int64_def mempool_consts utf8_ok_ascii_all, blast)

end
